(* ===== verification/Prelude.thy ===== *)
theory Prelude
  imports Main "HOL-Library.State_Monad"
begin

text \<open>
  What every component of padma shares: Go error values and \<open>errors.Is\<close>, SQL tables as lists of
  rows with the statement shapes the repository uses (\<open>INSERT \<dots> ON CONFLICT\<close>, \<open>UPDATE \<dots> WHERE\<close>,
  \<open>SUM\<close> with its NULL rule, \<open>COALESCE\<close>), a stable sort for \<open>ORDER BY\<close>, and the lemmas about them that
  carry the component proofs. Two interfaces are stated as locales: \<open>total_preorder\<close>, the contract
  an \<open>ORDER BY\<close> needs of its comparison, and \<open>replayable_upsert\<close>, the contract under which replaying
  a batch of upserts leaves the table as it was.
\<close>

named_theorems row_simps \<open>equations of keyed-table operations\<close>
named_theorems sql_simps \<open>equations of the SQL scalar helpers\<close>

section \<open>Go values\<close>

text \<open>
  An instant (Go \<open>time.Time\<close>, Postgres \<open>TIMESTAMPTZ\<close>) is its number of nanoseconds since the Unix
  epoch; the location of a \<open>time.Time\<close> is never read by the modelled code (it formats in UTC).
\<close>

type_synonym time = int

text \<open>
  Go errors. \<open>Sentinel\<close> is a package-level \<open>errors.New\<close>, \<open>Driver\<close> an error value made by a library
  (its text), and \<open>Errorf\<close> the value of \<open>fmt.Errorf\<close>: the format literal, its string operands, and
  the operand of \<open>%w\<close>. Keeping the operands instead of the rendered text keeps every error branch
  of the source distinguishable.
\<close>

datatype error = Sentinel string | Driver string | Errorf string "string list" "error option"

text \<open>\<open>errors.Is(err, target)\<close> for a sentinel target: along the chain of wrapped errors.\<close>

primrec errors_Is :: "error \<Rightarrow> error \<Rightarrow> bool" where
  "errors_Is (Sentinel s) t = (Sentinel s = t)"
| "errors_Is (Driver s) t = (Driver s = t)"
| "errors_Is (Errorf f as w) t =
     (Errorf f as w = t \<or> (case map_option (\<lambda>e. errors_Is e t) w of None \<Rightarrow> False | Some b \<Rightarrow> b))"

lemma errors_Is_refl [simp]: "errors_Is e e"
  by (cases e) simp_all

lemma errors_Is_wrap [simp]: "errors_Is (Errorf f as (Some e)) (Sentinel s) = errors_Is e (Sentinel s)"
  by simp

lemma errors_Is_plain [simp]: "\<not> errors_Is (Errorf f as None) (Sentinel s)"
  by simp

text \<open>\<open>pgx.ErrNoRows\<close>, returned by \<open>Row.Scan\<close> when a query has no row.\<close>

definition ErrNoRows :: error where
  "ErrNoRows = Sentinel ''no rows in result set''"

section \<open>Tables\<close>

text \<open>
  A table is the list of its rows; \<open>key\<close> is the projection to the primary key. Row order matters
  only where the SQL has no \<open>ORDER BY\<close>, and there the list order stands for the order the server
  happens to use.
\<close>

definition lookup_row :: "('r \<Rightarrow> 'k) \<Rightarrow> 'k \<Rightarrow> 'r list \<Rightarrow> 'r option" where
  "lookup_row key k t = find (\<lambda>r. key r = k) t"

definition keyed :: "('r \<Rightarrow> 'k) \<Rightarrow> 'r list \<Rightarrow> bool" where
  "keyed key t \<longleftrightarrow> distinct (map key t)"

text \<open>\<open>INSERT \<dots> ON CONFLICT (key) DO NOTHING\<close>.\<close>

definition insert_absent :: "('r \<Rightarrow> 'k) \<Rightarrow> 'r \<Rightarrow> 'r list \<Rightarrow> 'r list" where
  "insert_absent key r t = (if lookup_row key (key r) t = None then t @ [r] else t)"

text \<open>\<open>UPDATE \<dots> SET \<dots> WHERE\<close>, and the number of rows it affects.\<close>

definition update_where :: "('r \<Rightarrow> bool) \<Rightarrow> ('r \<Rightarrow> 'r) \<Rightarrow> 'r list \<Rightarrow> 'r list" where
  "update_where P f t = map (\<lambda>r. if P r then f r else r) t"

definition rows_affected :: "('r \<Rightarrow> bool) \<Rightarrow> 'r list \<Rightarrow> nat" where
  "rows_affected P t = length (filter P t)"

text \<open>\<open>INSERT \<dots> ON CONFLICT (key) DO UPDATE SET \<dots>\<close>.\<close>

definition upsert :: "('r \<Rightarrow> 'k) \<Rightarrow> 'r \<Rightarrow> ('r \<Rightarrow> 'r) \<Rightarrow> 'r list \<Rightarrow> 'r list" where
  "upsert key r upd t =
     (if lookup_row key (key r) t = None then t @ [r]
      else update_where (\<lambda>x. key x = key r) upd t)"

lemma lookup_row_Nil [row_simps]: "lookup_row key k [] = None"
  by (simp add: lookup_row_def)

lemma lookup_row_Cons [row_simps]:
  "lookup_row key k (r # t) = (if key r = k then Some r else lookup_row key k t)"
  by (simp add: lookup_row_def)

lemma lookup_row_append [row_simps]:
  "lookup_row key k (t @ u) =
     (case lookup_row key k t of None \<Rightarrow> lookup_row key k u | Some r \<Rightarrow> Some r)"
  by (induction t) (simp_all add: row_simps)

lemma lookup_row_None_iff: "lookup_row key k t = None \<longleftrightarrow> k \<notin> key ` set t"
  by (auto simp: lookup_row_def find_None_iff)

lemma lookup_row_SomeD: "lookup_row key k t = Some r \<Longrightarrow> r \<in> set t \<and> key r = k"
  by (induction t) (auto simp: row_simps split: if_splits)

lemma lookup_row_key: "lookup_row key k t = Some r \<Longrightarrow> key r = k"
  by (blast dest: lookup_row_SomeD)

lemma keyed_lookup: "keyed key t \<Longrightarrow> r \<in> set t \<Longrightarrow> lookup_row key (key r) t = Some r"
  by (induction t) (force simp: row_simps keyed_def)+

lemma keyed_lookup_iff: "keyed key t \<Longrightarrow> lookup_row key k t = Some r \<longleftrightarrow> r \<in> set t \<and> key r = k"
  by (auto dest: lookup_row_SomeD keyed_lookup)

lemma keyed_Nil [simp]: "keyed key []"
  by (simp add: keyed_def)

lemma keyed_Cons: "keyed key (r # t) \<longleftrightarrow> key r \<notin> key ` set t \<and> keyed key t"
  by (simp add: keyed_def)

lemma keyed_snoc: "keyed key (t @ [r]) \<longleftrightarrow> key r \<notin> key ` set t \<and> keyed key t"
  by (auto simp: keyed_def)

lemma keyed_insert_absent [simp]: "keyed key t \<Longrightarrow> keyed key (insert_absent key r t)"
  by (auto simp: insert_absent_def keyed_snoc lookup_row_None_iff)

lemma map_key_update_where:
  "(\<And>r. r \<in> set t \<Longrightarrow> P r \<Longrightarrow> key (f r) = key r) \<Longrightarrow> map key (update_where P f t) = map key t"
  by (induction t) (auto simp: update_where_def)

lemma keyed_update_where:
  "(\<And>r. r \<in> set t \<Longrightarrow> P r \<Longrightarrow> key (f r) = key r) \<Longrightarrow> keyed key (update_where P f t) = keyed key t"
  by (simp add: keyed_def map_key_update_where)

lemma lookup_update_where:
  "(\<And>r. P r \<Longrightarrow> key (f r) = key r) \<Longrightarrow>
   lookup_row key k (update_where P f t) = map_option (\<lambda>r. if P r then f r else r) (lookup_row key k t)"
  by (induction t) (simp_all add: row_simps update_where_def)

lemma keyed_upsert:
  assumes "keyed key t" and "\<And>x. key (upd x) = key x"
  shows "keyed key (upsert key r upd t)"
proof (cases "lookup_row key (key r) t")
  case None
  with assms(1) show ?thesis by (simp add: upsert_def keyed_snoc lookup_row_None_iff)
next
  case (Some x)
  with assms show ?thesis by (simp add: upsert_def keyed_update_where)
qed

lemma lookup_upsert:
  assumes "\<And>x. key (upd x) = key x"
  shows "lookup_row key k (upsert key r upd t) =
    (if k = key r then Some (case lookup_row key k t of None \<Rightarrow> r | Some x \<Rightarrow> upd x)
     else lookup_row key k t)"
proof (cases "lookup_row key (key r) t")
  case None
  then show ?thesis by (auto simp: upsert_def row_simps split: option.splits)
next
  case (Some x)
  have "lookup_row key k (update_where (\<lambda>x. key x = key r) upd t) =
      map_option (\<lambda>x. if key x = key r then upd x else x) (lookup_row key k t)"
    by (rule lookup_update_where) (rule assms)
  with Some show ?thesis
    using lookup_row_key[of key k t]
    by (cases "k = key r"; cases "lookup_row key k t") (simp_all add: upsert_def)
qed

lemma lookup_insert_absent [row_simps]:
  "lookup_row key k (insert_absent key r t) =
    (if k = key r then Some (case lookup_row key k t of None \<Rightarrow> r | Some x \<Rightarrow> x)
     else lookup_row key k t)"
  by (auto simp: insert_absent_def row_simps split: option.splits)

lemma insert_absent_has_key [simp]: "key r \<in> key ` set (insert_absent key r t)"
  by (auto simp: insert_absent_def lookup_row_None_iff)

lemma update_where_id: "(\<And>r. r \<in> set t \<Longrightarrow> P r \<Longrightarrow> f r = r) \<Longrightarrow> update_where P f t = t"
  by (simp add: update_where_def map_idI)

lemma update_where_none: "(\<And>r. r \<in> set t \<Longrightarrow> \<not> P r) \<Longrightarrow> update_where P f t = t"
  by (simp add: update_where_def map_idI)

lemma length_update_where [simp]: "length (update_where P f t) = length t"
  by (simp add: update_where_def)

lemma update_where_append [simp]: "update_where P f (t @ u) = update_where P f t @ update_where P f u"
  by (simp add: update_where_def)

text \<open>Two keyed tables with the same keys in the same order and the same rows per key are equal.\<close>

lemma table_eqI:
  assumes "map key t = map key u" and "keyed key t"
    and "\<And>k. k \<in> key ` set t \<Longrightarrow> lookup_row key k t = lookup_row key k u"
  shows "t = u"
  using assms
proof (induction t arbitrary: u)
  case Nil
  then show ?case by simp
next
  case (Cons r t)
  then obtain s v where u: "u = s # v" "key r = key s" "map key t = map key v"
    by (cases u) auto
  from Cons.prems(3)[of "key r"] u(1,2) have "r = s"
    by (simp add: row_simps)
  moreover have "t = v"
  proof (rule Cons.IH)
    show "map key t = map key v" by (fact u(3))
    show "keyed key t" using Cons.prems(2) by (simp add: keyed_Cons)
    fix k assume "k \<in> key ` set t"
    moreover have "key r \<notin> key ` set t" using Cons.prems(2) by (simp add: keyed_Cons)
    ultimately have "k \<noteq> key r" by blast
    with Cons.prems(3)[of k] \<open>k \<in> key ` set t\<close> u(1,2) show "lookup_row key k t = lookup_row key k v"
      by (simp add: row_simps)
  qed
  ultimately show ?case using u by simp
qed

lemma fold_idle [simp]: "fold (\<lambda>x d. d) xs d = d"
  by (induction xs) simp_all

section \<open>SQL scalars and aggregates\<close>

text \<open>\<open>COALESCE(a, b)\<close> on a nullable first operand, and on two nullable operands.\<close>

definition coalesce :: "'a option \<Rightarrow> 'a \<Rightarrow> 'a" where
  "coalesce x d = (case x of None \<Rightarrow> d | Some v \<Rightarrow> v)"

definition coalesce2 :: "'a option \<Rightarrow> 'a option \<Rightarrow> 'a option" where
  "coalesce2 x y = (case x of None \<Rightarrow> y | Some v \<Rightarrow> Some v)"

lemma coalesce_simps [simp]: "coalesce None d = d" "coalesce (Some v) d = v"
  by (simp_all add: coalesce_def)

lemma coalesce2_simps [simp]: "coalesce2 None y = y" "coalesce2 (Some v) y = Some v"
  by (simp_all add: coalesce2_def)

lemma coalesce2_same [simp]: "coalesce2 x x = x"
  by (cases x) simp_all

lemma coalesce2_assoc [simp]: "coalesce2 (coalesce2 x y) z = coalesce2 x (coalesce2 y z)"
  by (cases x) simp_all

text \<open>\<open>SUM\<close> skips NULLs and is NULL when no value is left.\<close>

definition sql_sum :: "int option list \<Rightarrow> int option" where
  "sql_sum xs = (let vs = List.map_filter id xs in if vs = [] then None else Some (sum_list vs))"

lemma coalesce_sql_sum: "coalesce (sql_sum xs) 0 = (\<Sum>x\<leftarrow>xs. coalesce x 0)"
proof -
  have "sum_list (List.map_filter id xs) = (\<Sum>x\<leftarrow>xs. coalesce x 0)"
    by (induction xs) (auto simp: map_filter_simps split: option.splits)
  then show ?thesis
    by (auto simp: sql_sum_def Let_def)
qed

lemma sum_groups:
  "finite A \<Longrightarrow> (\<Sum>a\<in>A. int (length (filter (\<lambda>x. g x = a) xs))) = int (length (filter (\<lambda>x. g x \<in> A) xs))"
proof (induction xs)
  case Nil
  then show ?case by simp
next
  case (Cons x xs)
  have "(\<Sum>a\<in>A. int (length (filter (\<lambda>x. g x = a) (x # xs)))) =
      (\<Sum>a\<in>A. (if g x = a then 1 else 0) + int (length (filter (\<lambda>x. g x = a) xs)))"
    by (rule sum.cong) auto
  also have "\<dots> = (if g x \<in> A then 1 else 0) + (\<Sum>a\<in>A. int (length (filter (\<lambda>x. g x = a) xs)))"
    using Cons.prems by (simp add: sum.distrib)
  finally show ?case using Cons by simp
qed

lemma sum_filter_bounds:
  assumes "\<forall>x \<in> set xs. (0 :: int) \<le> f x"
  shows "0 \<le> (\<Sum>x\<leftarrow>filter Q xs. f x) \<and> (\<Sum>x\<leftarrow>filter Q xs. f x) \<le> (\<Sum>x\<leftarrow>xs. f x)"
  using assms by (induction xs) auto

section \<open>ORDER BY\<close>

text \<open>A stable insertion sort by an arbitrary comparison.\<close>

fun insort_by :: "('a \<Rightarrow> 'a \<Rightarrow> bool) \<Rightarrow> 'a \<Rightarrow> 'a list \<Rightarrow> 'a list" where
  "insort_by le x [] = [x]"
| "insort_by le x (y # ys) = (if le x y then x # y # ys else y # insort_by le x ys)"

definition sort_by :: "('a \<Rightarrow> 'a \<Rightarrow> bool) \<Rightarrow> 'a list \<Rightarrow> 'a list" where
  "sort_by le xs = foldr (insort_by le) xs []"

lemma set_insort_by [simp]: "set (insort_by le x xs) = insert x (set xs)"
  by (induction xs) auto

lemma length_insort_by [simp]: "length (insort_by le x xs) = Suc (length xs)"
  by (induction xs) auto

lemma sort_by_simps [simp]:
  "sort_by le [] = []" "sort_by le (x # xs) = insort_by le x (sort_by le xs)"
  by (simp_all add: sort_by_def)

lemma set_sort_by [simp]: "set (sort_by le xs) = set xs"
  by (induction xs) auto

lemma length_sort_by [simp]: "length (sort_by le xs) = length xs"
  by (induction xs) auto

lemma distinct_map_insort_by:
  "distinct (map f (insort_by le x xs)) \<longleftrightarrow> f x \<notin> f ` set xs \<and> distinct (map f xs)"
  by (induction xs) auto

lemma distinct_map_sort_by [simp]: "distinct (map f (sort_by le xs)) = distinct (map f xs)"
  by (induction xs) (auto simp: distinct_map_insort_by)

lemma distinct_insort_by: "distinct (insort_by le x xs) \<longleftrightarrow> x \<notin> set xs \<and> distinct xs"
  by (induction xs) auto

lemma distinct_sort_by [simp]: "distinct (sort_by le xs) = distinct xs"
  by (induction xs) (auto simp: distinct_insort_by)

lemma filter_insort_by:
  "filter P (insort_by le x xs) = (if P x then insort_by le x (filter P xs) else filter P xs)"
  if "sorted_wrt le xs" and "\<And>a b c. le a b \<Longrightarrow> le b c \<Longrightarrow> le a c" for le :: "'a \<Rightarrow> 'a \<Rightarrow> bool"
  using that(1)
proof (induction xs)
  case Nil
  then show ?case by simp
next
  case (Cons y ys)
  have cons: "insort_by le x zs = x # zs" if "\<forall>z \<in> set zs. le x z" for zs
    using that by (cases zs) simp_all
  show ?case
  proof (cases "le x y")
    case True
    with Cons.prems that(2) have "\<forall>z \<in> set (filter P ys). le x z" by auto
    with True show ?thesis by (auto simp: cons)
  next
    case False
    with Cons show ?thesis by auto
  qed
qed

text \<open>
  The contract of a comparison: it is total and transitive. Every \<open>ORDER BY\<close> of the repository
  meets it, and the lemmas below are what its clients use.
\<close>

locale total_preorder =
  fixes le :: "'a \<Rightarrow> 'a \<Rightarrow> bool"
  assumes le_total: "le x y \<or> le y x"
    and le_trans: "le x y \<Longrightarrow> le y z \<Longrightarrow> le x z"
begin

lemma le_refl: "le x x"
  using le_total[of x x] by simp

lemma sorted_insort_by: "sorted_wrt le xs \<Longrightarrow> sorted_wrt le (insort_by le x xs)"
proof (induction xs)
  case Nil
  then show ?case by simp
next
  case (Cons y ys)
  show ?case
  proof (cases "le x y")
    case True
    with Cons.prems show ?thesis by (auto intro: le_trans)
  next
    case False
    with le_total have "le y x" by blast
    with False Cons show ?thesis by auto
  qed
qed

lemma sorted_sort_by: "sorted_wrt le (sort_by le xs)"
  by (induction xs) (auto intro: sorted_insort_by)

lemma filter_sort_by: "filter P (sort_by le xs) = sort_by le (filter P xs)"
proof (induction xs)
  case Nil
  then show ?case by simp
next
  case (Cons x xs)
  then show ?case
    using filter_insort_by[OF sorted_sort_by le_trans] by simp
qed

end

section \<open>Replaying a batch of upserts\<close>

text \<open>
  The projector writes its read models with upserts keyed by the event. An event \<open>e\<close> inserts the
  row \<open>ins e\<close>, or updates the existing row with \<open>upd e\<close>; both act on the key \<open>ekey e\<close>. The contract
  has two laws: updating a row its own event has just inserted changes nothing, and running the same
  events over a row a second time changes nothing.
\<close>

definition apply_upserts ::
    "('r \<Rightarrow> 'k) \<Rightarrow> ('e \<Rightarrow> 'r) \<Rightarrow> ('e \<Rightarrow> 'r \<Rightarrow> 'r) \<Rightarrow> 'e list \<Rightarrow> 'r list \<Rightarrow> 'r list" where
  "apply_upserts key ins upd es t = fold (\<lambda>e. upsert key (ins e) (upd e)) es t"

lemma apply_upserts_simps [simp]:
  "apply_upserts key ins upd [] t = t"
  "apply_upserts key ins upd (e # es) t =
     apply_upserts key ins upd es (upsert key (ins e) (upd e) t)"
  by (simp_all add: apply_upserts_def)

locale upsert_keys =
  fixes key :: "'r \<Rightarrow> 'k" and ekey :: "'e \<Rightarrow> 'k"
    and ins :: "'e \<Rightarrow> 'r" and upd :: "'e \<Rightarrow> 'r \<Rightarrow> 'r"
  assumes key_ins: "key (ins e) = ekey e"
    and key_upd: "key (upd e r) = key r"
    and upd_ins: "upd e (ins e) = ins e"

locale replayable_upsert = upsert_keys key ekey ins upd
  for key :: "'r \<Rightarrow> 'k" and ekey :: "'e \<Rightarrow> 'k" and ins :: "'e \<Rightarrow> 'r" and upd :: "'e \<Rightarrow> 'r \<Rightarrow> 'r" +
  assumes replay_row: "fold upd es (fold upd es r) = fold upd es r"
begin

definition events_at :: "'k \<Rightarrow> 'e list \<Rightarrow> 'e list" where
  "events_at k es = filter (\<lambda>e. ekey e = k) es"

lemma key_fold_upd: "key (fold upd es r) = key r"
  by (induction es arbitrary: r) (simp_all add: key_upd)

lemma keyed_apply: "keyed key t \<Longrightarrow> keyed key (apply_upserts key ins upd es t)"
proof (induction es arbitrary: t)
  case Nil
  then show ?case by simp
next
  case (Cons e es)
  then show ?case by (simp add: keyed_upsert key_upd)
qed

lemma lookup_apply:
  "lookup_row key k (apply_upserts key ins upd es t) =
     (case lookup_row key k t of
        Some r \<Rightarrow> Some (fold upd (events_at k es) r)
      | None \<Rightarrow> (case events_at k es of [] \<Rightarrow> None | e # es' \<Rightarrow> Some (fold upd es' (ins e))))"
proof (induction es arbitrary: t)
  case Nil
  then show ?case by (simp add: events_at_def split: option.splits)
next
  case (Cons e es)
  have "lookup_row key k (upsert key (ins e) (upd e) t) =
    (if k = ekey e then Some (case lookup_row key k t of None \<Rightarrow> ins e | Some x \<Rightarrow> upd e x)
     else lookup_row key k t)"
    using lookup_upsert[of key "upd e" k "ins e" t] by (simp add: key_upd key_ins)
  with Cons.IH[of "upsert key (ins e) (upd e) t"] show ?case
    by (auto simp: events_at_def split: option.splits)
qed

lemma keys_apply_present:
  "(\<And>e. e \<in> set es \<Longrightarrow> ekey e \<in> key ` set t) \<Longrightarrow>
   map key (apply_upserts key ins upd es t) = map key t"
proof (induction es arbitrary: t)
  case Nil
  then show ?case by simp
next
  case (Cons e es)
  let ?t = "upsert key (ins e) (upd e) t"
  have keys: "map key ?t = map key t"
    using Cons.prems[of e]
    by (auto simp: upsert_def lookup_row_None_iff key_ins map_key_update_where key_upd)
  then have "key ` set ?t = key ` set t" by (metis list.set_map)
  with Cons.prems have "\<And>x. x \<in> set es \<Longrightarrow> ekey x \<in> key ` set ?t" by simp
  from Cons.IH[OF this] keys show ?case by simp
qed

lemma keys_after_apply: "e \<in> set es \<Longrightarrow> ekey e \<in> key ` set (apply_upserts key ins upd es t)"
proof -
  assume "e \<in> set es"
  then have "events_at (ekey e) es \<noteq> []"
    by (auto simp: events_at_def filter_empty_conv)
  then have "lookup_row key (ekey e) (apply_upserts key ins upd es t) \<noteq> None"
    by (auto simp: lookup_apply split: option.splits list.splits)
  then show ?thesis
    by (simp add: lookup_row_None_iff)
qed

lemma replay_table:
  assumes "keyed key t"
  shows "apply_upserts key ins upd es (apply_upserts key ins upd es t) = apply_upserts key ins upd es t"
    (is "?F ?t = ?t")
proof (rule table_eqI)
  show "map key (?F ?t) = map key ?t"
    by (rule keys_apply_present) (rule keys_after_apply)
  show "keyed key (?F ?t)" using assms by (intro keyed_apply)
  fix k
  show "lookup_row key k (?F ?t) = lookup_row key k ?t"
  proof (cases "lookup_row key k t")
    case (Some r)
    then show ?thesis by (simp add: lookup_apply replay_row)
  next
    case None
    show ?thesis
    proof (cases "events_at k es")
      case Nil
      with None show ?thesis by (simp add: lookup_apply)
    next
      case (Cons e es')
      then have "fold upd es' (ins e) = fold upd (events_at k es) (ins e)"
        by (simp add: upd_ins)
      with None Cons show ?thesis
        using replay_row[of "events_at k es" "ins e"] by (simp add: lookup_apply)
    qed
  qed
qed

end

text \<open>
  The simplest way to meet the contract: every column an update writes is overwritten by the next
  update, so the last event of a key wins.
\<close>

locale last_writer_upsert = upsert_keys key ekey ins upd
  for key :: "'r \<Rightarrow> 'k" and ekey :: "'e \<Rightarrow> 'k" and ins :: "'e \<Rightarrow> 'r" and upd :: "'e \<Rightarrow> 'r \<Rightarrow> 'r" +
  assumes upd_upd: "upd e (upd e' r) = upd e r"
begin

lemma fold_upd: "fold upd es r = (if es = [] then r else upd (last es) r)"
  by (induction es arbitrary: r) (auto simp: upd_upd)

end

sublocale last_writer_upsert \<subseteq> replayable_upsert key ekey ins upd
  by unfold_locales (simp add: fold_upd upd_upd)

text \<open>A batch of \<open>ON CONFLICT DO NOTHING\<close> inserts: a second run finds every key present.\<close>

lemma fold_insert_absent_keeps:
  "k \<in> key ` set t \<Longrightarrow> k \<in> key ` set (fold (insert_absent key) rs t)"
  by (induction rs arbitrary: t) (auto simp: insert_absent_def)

lemma fold_insert_absent_present:
  "(\<And>r. r \<in> set rs \<Longrightarrow> key r \<in> key ` set t) \<Longrightarrow> fold (insert_absent key) rs t = t"
proof (induction rs)
  case Nil
  then show ?case by simp
next
  case (Cons r rs)
  from Cons.prems[of r] have "insert_absent key r t = t"
    by (auto simp: insert_absent_def lookup_row_None_iff)
  with Cons show ?case by simp
qed

lemma fold_insert_absent_covers:
  "r \<in> set rs \<Longrightarrow> key r \<in> key ` set (fold (insert_absent key) rs t)"
proof (induction rs arbitrary: t)
  case Nil
  then show ?case by simp
next
  case (Cons x rs)
  have "key x \<in> key ` set (insert_absent key x t)" by simp
  then have "key x \<in> key ` set (fold (insert_absent key) rs (insert_absent key x t))"
    by (rule fold_insert_absent_keeps)
  with Cons show ?case by auto
qed

lemma fold_insert_absent_replay:
  assumes "map key rs' = map key rs"
  shows "fold (insert_absent key) rs' (fold (insert_absent key) rs t) = fold (insert_absent key) rs t"
proof (rule fold_insert_absent_present)
  fix r assume "r \<in> set rs'"
  then have "key r \<in> key ` set rs" using assms by (metis image_eqI list.set_map)
  then show "key r \<in> key ` set (fold (insert_absent key) rs t)"
    by (auto intro: fold_insert_absent_covers)
qed

lemma keyed_fold_insert_absent: "keyed key t \<Longrightarrow> keyed key (fold (insert_absent key) rs t)"
  by (induction rs arbitrary: t) simp_all

lemma fold_insert_absent_adds:
  assumes "r \<in> set rs" and "key r \<notin> key ` set t" and "distinct (map key rs)"
  shows "r \<in> set (fold (insert_absent key) rs t)"
  using assms
proof (induction rs arbitrary: t)
  case Nil
  then show ?case by simp
next
  case (Cons x rs)
  have keep: "y \<in> set (fold (insert_absent key) rs u)" if "y \<in> set u" for y u
    using that by (induction rs arbitrary: u) (auto simp: insert_absent_def)
  show ?case
  proof (cases "r = x")
    case True
    with Cons.prems(2) have "r \<in> set (insert_absent key x t)" by (auto simp: insert_absent_def lookup_row_None_iff)
    then show ?thesis by (simp add: keep)
  next
    case False
    with Cons.prems have "r \<in> set rs" "key r \<noteq> key x" by (auto simp: image_iff)
    with Cons.prems show ?thesis
      unfolding fold_simps(2) by (intro Cons.IH) (auto simp: insert_absent_def)
  qed
qed

lemma length_filter_fold_insert_absent:
  "length (filter Q (fold (insert_absent key) rs t)) \<le> length (filter Q t) + length rs"
proof (induction rs arbitrary: t)
  case Nil
  then show ?case by simp
next
  case (Cons r rs)
  have "length (filter Q (insert_absent key r t)) \<le> Suc (length (filter Q t))" by (simp add: insert_absent_def)
  with Cons.IH[of "insert_absent key r t"] show ?case by simp
qed

end
