(* ===== verification/Numeric.thy ===== *)
theory Numeric
  imports Complex_Main Prelude "HOL-Library.Word"
begin

text \<open>
  The Amount/NUMERIC bridge of \<^verbatim>\<open>internal/platform/db/numeric.go\<close>, the one place where money crosses
  between the library's \<open>fibertypes.Amount\<close> and Postgres \<open>NUMERIC\<close>. The library and the driver are
  parameters: the record \<open>fibertypes\<close> holds the two functions of kanaka that padma calls, and
  \<open>numeric_of\<close> (later) what the driver returns for a stored integer. The 32-bit exponent is kept at
  its width, because the code negates it.
\<close>

section \<open>Go's \<open>math/big\<close> text form\<close>

definition hex_digit :: "nat \<Rightarrow> char" where
  "hex_digit n = ''0123456789abcdef'' ! n"

fun hex_digits :: "nat \<Rightarrow> string" where
  "hex_digits n = (if n < 16 then [hex_digit n] else hex_digits (n div 16) @ [hex_digit (n mod 16)])"

declare hex_digits.simps [simp del]

text \<open>\<open>(*big.Int).Text(16)\<close>: lower-case digits, a leading minus sign for negative numbers.\<close>

definition Text16 :: "int \<Rightarrow> string" where
  "Text16 v = (if v < 0 then CHR ''-'' # hex_digits (nat (- v)) else hex_digits (nat v))"

text \<open>The wire form of an amount: \<open>"0x" + v.Text(16)\<close>.\<close>

definition hex_wire :: "nat \<Rightarrow> string" where
  "hex_wire n = ''0x'' @ hex_digits n"

lemma Text16_nonneg: "0 \<le> v \<Longrightarrow> ''0x'' @ Text16 v = hex_wire (nat v)"
  by (simp add: Text16_def hex_wire_def)

section \<open>The library's amounts\<close>

text \<open>
  \<open>fibertypes.Amount\<close> is a non-negative integer in the token's smallest unit, so an amount is a
  \<open>nat\<close> and \<open>a.BigInt()\<close> is \<open>int a\<close>. \<open>ParseAmount\<close> returns Go's pair of a value and an error (its
  text, or none); callers that drop the error use the value whatever it is.
\<close>

type_synonym amount = nat

record fibertypes =
  ParseAmount :: "string \<Rightarrow> amount \<times> string option"
  Hex :: "amount \<Rightarrow> string"

text \<open>
  What padma relies on, as its documentation states it: an amount is written as its \<open>0x\<close>-hex wire
  string, and that string parses back, at least up to the largest unsigned 128-bit value (the range
  the tests of \<^verbatim>\<open>numeric_test.go\<close> exercise).
\<close>

definition fibertypes_ok :: "fibertypes \<Rightarrow> bool" where
  "fibertypes_ok F \<longleftrightarrow>
     (\<forall>a. Hex F a = hex_wire a) \<and> (\<forall>a < 2 ^ 128. ParseAmount F (hex_wire a) = (a, None))"

lemma fibertypes_ok_Hex: "fibertypes_ok F \<Longrightarrow> Hex F a = hex_wire a"
  by (simp add: fibertypes_ok_def)

lemma fibertypes_ok_Parse: "fibertypes_ok F \<Longrightarrow> a < 2 ^ 128 \<Longrightarrow> ParseAmount F (hex_wire a) = (a, None)"
  by (simp add: fibertypes_ok_def)

section \<open>\<open>pgtype.Numeric\<close>\<close>

datatype infinity_modifier = Finite | Infinity | NegativeInfinity

text \<open>
  The driver's decoded NUMERIC: \<open>nInt * 10 ^ nExp\<close> when it is valid and finite. (\<open>Int\<close> is a pointer
  in Go; the driver sets it whenever the value is valid and finite, the only case it is read.)
\<close>

record numeric =
  nInt :: int
  nExp :: "32 word"
  nNaN :: bool
  nInf :: infinity_modifier
  nValid :: bool

definition null_numeric :: numeric where
  "null_numeric = \<lparr>nInt = 0, nExp = 0, nNaN = False, nInf = Finite, nValid = False\<rparr>"

definition AmountToNumeric :: "amount \<Rightarrow> numeric" where
  "AmountToNumeric a = \<lparr>nInt = int a, nExp = 0, nNaN = False, nInf = Finite, nValid = True\<rparr>"

text \<open>\<open>big.Int.Exp\<close> with a nil modulus returns 1 for an exponent that is not positive.\<close>

definition pow10 :: "32 word \<Rightarrow> int" where
  "pow10 e = (if sint e \<le> 0 then 1 else 10 ^ nat (sint e))"

text \<open>\<open>big.Int.QuoRem\<close> truncates towards zero.\<close>

definition QuoRem :: "int \<Rightarrow> int \<Rightarrow> int \<times> int" where
  "QuoRem v d = (let q = sgn v * sgn d * (\<bar>v\<bar> div \<bar>d\<bar>) in (q, v - q * d))"

definition whole_to_amount :: "fibertypes \<Rightarrow> int \<Rightarrow> error + amount" where
  "whole_to_amount F v =
     (if v < 0 then Inl (Errorf ''db: NUMERIC is negative'' [] None)
      else case ParseAmount F (''0x'' @ Text16 v) of
        (a, None) \<Rightarrow> Inr a
      | (_, Some m) \<Rightarrow> Inl (Driver m))"

definition NumericToAmount :: "fibertypes \<Rightarrow> numeric \<Rightarrow> error + amount" where
  "NumericToAmount F n =
     (if \<not> nValid n \<or> nNaN n then Inl (Errorf ''db: NUMERIC is not a valid finite number'' [] None)
      else if nInf n \<noteq> Finite then Inl (Errorf ''db: NUMERIC is infinite'' [] None)
      else if 0 < sint (nExp n) then whole_to_amount F (nInt n * pow10 (nExp n))
      else if sint (nExp n) < 0 then
        (case QuoRem (nInt n) (pow10 (- nExp n)) of (v, r) \<Rightarrow>
          if r \<noteq> 0 then Inl (Errorf ''db: NUMERIC has a fractional part, not a whole amount'' [] None)
          else whole_to_amount F v)
      else whole_to_amount F (nInt n))"

section \<open>What the bridge computes\<close>

text \<open>The rational number a valid finite NUMERIC stands for.\<close>

definition numeric_value :: "numeric \<Rightarrow> rat" where
  "numeric_value n = of_int (nInt n) * 10 powi (sint (nExp n))"

definition numeric_finite :: "numeric \<Rightarrow> bool" where
  "numeric_finite n \<longleftrightarrow> nValid n \<and> \<not> nNaN n \<and> nInf n = Finite"

text \<open>The least 32-bit integer, whose negation wraps around to itself.\<close>

definition MinInt32 :: "32 word" where
  "MinInt32 = 0x80000000"

lemma sint_uminus: "e \<noteq> MinInt32 \<Longrightarrow> sint (- e) = - sint (e :: 32 word)"
proof -
  assume e: "e \<noteq> MinInt32"
  have "sint e \<noteq> - (2 ^ 31)"
  proof
    assume "sint e = - (2 ^ 31)"
    also have "\<dots> = sint MinInt32" by (simp add: MinInt32_def)
    finally show False using e signed_word_eqI by blast
  qed
  moreover have "- (2 ^ 31) \<le> sint e" "sint e < 2 ^ 31"
    using sint_range_size[of e] by (simp_all add: word_size)
  ultimately have "- (2 ^ 31) \<le> - sint e \<and> - sint e < 2 ^ 31" by simp
  then have "signed_take_bit 31 (- sint e) = - sint e"
    by (simp add: signed_take_bit_int_eq_self)
  then show ?thesis by (simp add: sint_word_minus)
qed

lemma numeric_value_pos:
  "0 < sint (nExp n) \<Longrightarrow> numeric_value n = of_int (nInt n * pow10 (nExp n))"
  by (simp add: numeric_value_def pow10_def power_int_def)

lemma numeric_value_neg:
  assumes "sint (nExp n) < 0" and "nExp n \<noteq> MinInt32"
  shows "numeric_value n = of_int (nInt n) / of_int (pow10 (- nExp n))"
  using assms by (simp add: numeric_value_def pow10_def power_int_def sint_uminus divide_simps)

lemma numeric_value_zero: "sint (nExp n) = 0 \<Longrightarrow> numeric_value n = of_int (nInt n)"
  by (simp add: numeric_value_def)

lemma pow10_pos [simp]: "0 < pow10 e" "pow10 e \<noteq> 0"
  by (simp_all add: pow10_def)

lemma QuoRem_exact: "QuoRem v d = (q, r) \<Longrightarrow> v = q * d + r"
  by (auto simp: QuoRem_def Let_def)

lemma QuoRem_dvd: "0 < d \<Longrightarrow> snd (QuoRem (q * d) d) = 0"
  by (simp add: QuoRem_def Let_def abs_mult sgn_mult mult_sgn_abs)

text \<open>
  Each branch of the code reaches \<open>whole_to_amount\<close> with exactly the integer the NUMERIC stands for,
  and rejects a NUMERIC that stands for no integer.
\<close>

lemma NumericToAmount_whole:
  assumes "numeric_finite n" and "nExp n \<noteq> MinInt32" and "numeric_value n = of_int v"
  shows "NumericToAmount F n = whole_to_amount F v"
proof -
  consider "0 < sint (nExp n)" | "sint (nExp n) = 0" | "sint (nExp n) < 0" by linarith
  then show ?thesis
  proof cases
    case 1
    with assms show ?thesis
      by (simp add: NumericToAmount_def numeric_finite_def numeric_value_pos del: of_int_mult)
  next
    case 2
    with assms show ?thesis
      by (simp add: NumericToAmount_def numeric_finite_def numeric_value_zero)
  next
    case 3
    let ?d = "pow10 (- nExp n)"
    obtain q r where qr: "QuoRem (nInt n) ?d = (q, r)" by fastforce
    from 3 assms(2,3) have "(of_int (nInt n) :: rat) = of_int (v * ?d)"
      by (simp add: numeric_value_neg divide_simps)
    then have nint: "nInt n = v * ?d" by (simp only: of_int_eq_iff)
    then have "r = 0" using QuoRem_dvd[of ?d v] qr by simp
    moreover from this have "q = v" using QuoRem_exact[OF qr] nint by simp
    ultimately show ?thesis
      using 3 assms(1) qr by (simp add: NumericToAmount_def numeric_finite_def)
  qed
qed

lemma NumericToAmount_fraction:
  assumes "numeric_finite n" and "nExp n \<noteq> MinInt32" and "\<nexists>v. numeric_value n = of_int v"
  shows "NumericToAmount F n =
    Inl (Errorf ''db: NUMERIC has a fractional part, not a whole amount'' [] None)"
proof -
  from assms(3) have neg: "sint (nExp n) < 0"
    by (metis linorder_neqE_linordered_idom numeric_value_pos numeric_value_zero)
  let ?d = "pow10 (- nExp n)"
  obtain q r where qr: "QuoRem (nInt n) ?d = (q, r)" by fastforce
  have "r \<noteq> 0"
  proof
    assume "r = 0"
    with QuoRem_exact[OF qr] have "numeric_value n = of_int q"
      using neg assms(2) by (simp add: numeric_value_neg)
    with assms(3) show False by blast
  qed
  with neg assms(1) qr show ?thesis
    by (simp add: NumericToAmount_def numeric_finite_def)
qed

lemma NumericToAmount_not_finite:
  "\<not> numeric_finite n \<Longrightarrow> \<exists>e. NumericToAmount F n = Inl e"
  by (auto simp: NumericToAmount_def numeric_finite_def)

lemma whole_to_amount_nat:
  assumes "fibertypes_ok F" and "0 \<le> v" and "v < 2 ^ 128"
  shows "whole_to_amount F v = Inr (nat v)"
proof -
  from assms(2,3) have "nat v < 2 ^ 128" by (simp add: nat_less_iff)
  with assms show ?thesis
    by (simp only: whole_to_amount_def Text16_nonneg fibertypes_ok_Parse) simp
qed

lemma NumericToAmount_eq_Inr_iff:
  assumes "fibertypes_ok F" and "nExp n \<noteq> MinInt32" and "numeric_value n < 2 ^ 128"
  shows "NumericToAmount F n = Inr a \<longleftrightarrow> numeric_finite n \<and> numeric_value n = of_nat a"
proof (cases "numeric_finite n")
  case False
  then show ?thesis using NumericToAmount_not_finite[of n F] by auto
next
  case fin: True
  show ?thesis
  proof (cases "\<exists>v. numeric_value n = of_int v")
    case False
    with fin assms(2) show ?thesis
      by (metis NumericToAmount_fraction of_int_of_nat_eq sum.distinct(1))
  next
    case True
    then obtain v where v: "numeric_value n = of_int v" by blast
    with assms(3) have "v < 2 ^ 128" by (metis of_int_less_iff of_int_numeral of_int_power)
    have "NumericToAmount F n = whole_to_amount F v" using fin assms(2) v by (rule NumericToAmount_whole)
    also have "(\<dots> = Inr a) \<longleftrightarrow> v = int a"
    proof (cases "0 \<le> v")
      case True
      with \<open>v < 2 ^ 128\<close> assms(1) have "whole_to_amount F v = Inr (nat v)"
        by (intro whole_to_amount_nat)
      with True show ?thesis by auto
    next
      case False
      then show ?thesis by (simp add: whole_to_amount_def)
    qed
    also have "\<dots> \<longleftrightarrow> numeric_value n = of_nat a"
      by (metis v of_int_eq_iff of_int_of_nat_eq)
    finally show ?thesis using fin by simp
  qed
qed

text \<open>
  Reading a stored amount back. \<open>numeric_of\<close> is what the driver returns for a stored integer: some
  \<open>{Int, Exp}\<close> pair that stands for it.
\<close>

definition numeric_of_ok :: "(int \<Rightarrow> numeric) \<Rightarrow> bool" where
  "numeric_of_ok dec \<longleftrightarrow>
     (\<forall>v. numeric_finite (dec v) \<and> nExp (dec v) \<noteq> MinInt32 \<and> numeric_value (dec v) = of_int v)"

lemma NumericToAmount_dec:
  assumes "fibertypes_ok F" and "numeric_of_ok dec" and "0 \<le> v" and "v < 2 ^ 128"
  shows "NumericToAmount F (dec v) = Inr (nat v)"
proof -
  from assms(2) have "NumericToAmount F (dec v) = whole_to_amount F v"
    by (intro NumericToAmount_whole) (simp_all add: numeric_of_ok_def)
  with assms show ?thesis by (simp add: whole_to_amount_nat)
qed

end
