(* ===== verification/Schema.thy ===== *)
theory Schema
  imports Numeric
begin

text \<open>
  The Postgres schema of \<^verbatim>\<open>migrations/*.sql\<close>: one record per table row with the columns of its
  \<open>CREATE TABLE\<close> (a nullable column is an \<open>option\<close>, except where padma always writes a value and never reads the
  column back: the attempt log, settlements, reconciliation runs and the merchant's name), and the
  record \<open>db\<close> of all tables. A query without \<open>ORDER BY\<close> returns rows in the order of the list.
  \<open>schema_version\<close> is the last goose migration applied, so \<open>to_regclass('t') IS NOT NULL\<close> is a
  comparison with the migration that creates \<open>t\<close>. A \<open>NUMERIC\<close> column holds an integer: every write
  goes through \<open>AmountToNumeric\<close>, whose exponent is zero. \<open>db_ok\<close> states the declared constraints
  (primary keys, uniqueness, foreign keys). What the server and its driver do beyond that is the
  parameter record \<open>postgres\<close>.
\<close>

section \<open>Rows\<close>

record checkpoint_row =
  cp_last_seq :: int
  cp_updated_at :: time

record event_row =
  ev_id :: string
  ev_type :: string
  ev_fiber_ref :: "string option"
  ev_asset :: "string option"
  ev_amount :: "int option"
  ev_data :: string
  ev_occurred_at :: time
  ev_ingested_at :: time
  ev_checkpoint :: int

record payment_row =
  pay_hash :: string
  pay_direction :: string
  pay_status :: string
  pay_asset :: "string option"
  pay_amount :: "int option"
  pay_fee :: "int option"
  pay_peer :: "string option"
  pay_created_at :: "time option"
  pay_updated_at :: "time option"

record channel_row =
  ch_id :: string
  ch_peer :: "string option"
  ch_state :: "string option"
  ch_capacity :: "int option"
  ch_local_balance :: "int option"
  ch_remote_balance :: "int option"
  ch_opened_at :: "time option"
  ch_closed_at :: "time option"

record invoice_row =
  inv_hash :: string
  inv_status :: "string option"
  inv_asset :: "string option"
  inv_amount :: "int option"
  inv_created_at :: "time option"
  inv_settled_at :: "time option"

record endpoint_row =
  ep_id :: string
  ep_merchant_id :: "string option"
  ep_url :: string
  ep_secret :: string
  ep_event_types :: "string list"
  ep_active :: bool
  ep_created_at :: time

record delivery_row =
  dl_id :: string
  dl_endpoint_id :: string
  dl_event_id :: string
  dl_url :: string
  dl_secret :: string
  dl_payload :: string
  dl_status :: string
  dl_attempts :: int
  dl_next_attempt_at :: time
  dl_last_error :: "string option"
  dl_created_at :: time

record delivery_log_row =
  log_delivery_id :: string
  log_attempt_no :: int
  log_http_status :: "int option"
  log_response_ms :: "int option"
  log_error :: "string option"
  log_attempted_at :: time

record merchant_row =
  m_id :: string
  m_name :: string
  m_api_key_hash :: string
  m_settlement_asset :: string
  m_created_at :: time

record order_row =
  o_id :: string
  o_merchant_id :: string
  o_external_order_id :: "string option"
  o_invoice_payment_hash :: "string option"
  o_amount :: "int option"
  o_asset :: "string option"
  o_status :: string
  o_created_at :: time
  o_paid_at :: "time option"

record refund_row =
  rf_id :: string
  rf_order_id :: string
  rf_amount :: "int option"
  rf_asset :: "string option"
  rf_reason :: "string option"
  rf_status :: "string option"
  rf_fiber_payment_hash :: "string option"
  rf_created_at :: time

record settlement_row =
  st_id :: string
  st_merchant_id :: string
  st_period :: string
  st_gross :: int
  st_fees :: int
  st_net :: int
  st_asset :: string
  st_status :: string
  st_generated_at :: time

text \<open>
  The \<open>report\<close> column is the JSON form of a \<open>merchant.Reconciliation\<close>; the model stores the value it
  encodes.
\<close>

record reconciliation =
  rec_Period :: string
  rec_Matched :: int
  rec_UnmatchedCount :: int
  rec_DiscrepancyTotal :: string
  rec_UnmatchedOrders :: "string list"

record reconciliation_row =
  rc_id :: string
  rc_merchant_id :: string
  rc_period :: string
  rc_matched :: int
  rc_unmatched_count :: int
  rc_discrepancy_total :: int
  rc_report :: reconciliation
  rc_created_at :: time

section \<open>The database\<close>

record db =
  schema_version :: nat
  ingest_checkpoint :: "checkpoint_row option"
  events :: "event_row list"
  payments :: "payment_row list"
  channels :: "channel_row list"
  invoices :: "invoice_row list"
  webhook_endpoints :: "endpoint_row list"
  webhook_deliveries :: "delivery_row list"
  webhook_delivery_log :: "delivery_log_row list"
  merchants :: "merchant_row list"
  merchant_orders :: "order_row list"
  refunds :: "refund_row list"
  settlements :: "settlement_row list"
  reconciliation_runs :: "reconciliation_row list"

text \<open>A fully migrated database with empty tables.\<close>

definition empty_db :: db where
  "empty_db = \<lparr>schema_version = 3, ingest_checkpoint = None, events = [], payments = [], channels = [],
     invoices = [], webhook_endpoints = [], webhook_deliveries = [], webhook_delivery_log = [],
     merchants = [], merchant_orders = [], refunds = [], settlements = [], reconciliation_runs = []\<rparr>"

text \<open>
  The declared constraints: primary keys, \<open>UNIQUE (merchant_id, external_order_id)\<close> (NULLs are
  distinct in Postgres) and the foreign keys.
\<close>

definition order_ext_key :: "order_row \<Rightarrow> (string \<times> string) option" where
  "order_ext_key ord = map_option (\<lambda>x. (o_merchant_id ord, x)) (o_external_order_id ord)"

definition orders_unique :: "order_row list \<Rightarrow> bool" where
  "orders_unique ords \<longleftrightarrow> distinct (List.map_filter order_ext_key ords)"

definition db_keys_ok :: "db \<Rightarrow> bool" where
  "db_keys_ok d \<longleftrightarrow>
     keyed ev_id (events d) \<and> keyed pay_hash (payments d) \<and> keyed ch_id (channels d) \<and>
     keyed inv_hash (invoices d) \<and> keyed ep_id (webhook_endpoints d) \<and>
     keyed dl_id (webhook_deliveries d) \<and> keyed m_id (merchants d) \<and>
     keyed o_id (merchant_orders d) \<and> keyed rf_id (refunds d) \<and> keyed st_id (settlements d) \<and>
     keyed rc_id (reconciliation_runs d)"

definition db_refs_ok :: "db \<Rightarrow> bool" where
  "db_refs_ok d \<longleftrightarrow>
     (\<forall>dl \<in> set (webhook_deliveries d).
        dl_endpoint_id dl \<in> ep_id ` set (webhook_endpoints d) \<and> dl_event_id dl \<in> ev_id ` set (events d)) \<and>
     (\<forall>ord \<in> set (merchant_orders d). o_merchant_id ord \<in> m_id ` set (merchants d)) \<and>
     (\<forall>rf \<in> set (refunds d). rf_order_id rf \<in> o_id ` set (merchant_orders d))"

definition db_ok :: "db \<Rightarrow> bool" where
  "db_ok d \<longleftrightarrow> db_keys_ok d \<and> orders_unique (merchant_orders d) \<and> db_refs_ok d"

lemma db_ok_empty [simp]: "db_ok empty_db"
  by (simp add: db_ok_def db_keys_ok_def db_refs_ok_def orders_unique_def empty_db_def map_filter_simps)

section \<open>The server and its driver\<close>

text \<open>
  Behaviour of Postgres and pgx that the source does not fix: how a stored integer \<open>NUMERIC\<close> is
  decoded, the resolution a timestamp keeps when it is bound, whether a text is valid JSON and how
  \<open>JSONB\<close> prints it back, the collation of \<open>TEXT\<close>, and \<open>to_char(t, 'YYYY-MM')\<close>, which depends on the
  session's time zone.
\<close>

record postgres =
  numeric_of :: "int \<Rightarrow> numeric"
  bind_ts :: "time \<Rightarrow> time"
  to_jsonb :: "string \<Rightarrow> string option"
  collate_le :: "string \<Rightarrow> string \<Rightarrow> bool"
  to_char_month :: "time \<Rightarrow> string"

text \<open>
  Documented behaviour the theorems use: a decoded NUMERIC stands for the stored integer; binding a
  timestamp that was read back changes nothing; a collation is a linear order on texts.
\<close>

definition collation_ok :: "(string \<Rightarrow> string \<Rightarrow> bool) \<Rightarrow> bool" where
  "collation_ok le \<longleftrightarrow>
     (\<forall>x y. le x y \<or> le y x) \<and> (\<forall>x y z. le x y \<longrightarrow> le y z \<longrightarrow> le x z) \<and>
     (\<forall>x y. le x y \<longrightarrow> le y x \<longrightarrow> x = y)"

definition postgres_ok :: "postgres \<Rightarrow> bool" where
  "postgres_ok P \<longleftrightarrow>
     numeric_of_ok (numeric_of P) \<and> (\<forall>t. bind_ts P (bind_ts P t) = bind_ts P t) \<and>
     collation_ok (collate_le P)"

text \<open>A nullable NUMERIC column as the driver hands it over.\<close>

definition scan_numeric :: "postgres \<Rightarrow> int option \<Rightarrow> numeric" where
  "scan_numeric P v = (case v of None \<Rightarrow> null_numeric | Some i \<Rightarrow> numeric_of P i)"

text \<open>\<open>AmountToNumeric(a)\<close> as the value of a NUMERIC column.\<close>

definition numeric_arg :: "amount \<Rightarrow> int option" where
  "numeric_arg a = Some (nInt (AmountToNumeric a))"

lemma numeric_arg_simp [simp]: "numeric_arg a = Some (int a)"
  by (simp add: numeric_arg_def AmountToNumeric_def)

end
