(* ===== verification/Pool.thy ===== *)
theory Pool
  imports Schema
begin

text \<open>
  The world padma's operations run in, and \<^verbatim>\<open>internal/platform/db\<close>'s pool, transactions and migrations.
  Operations are computations of the state monad over \<open>world\<close>; a Go pair \<open>(v, err)\<close> is \<open>error + 'v\<close>.
  Every statement sent to the server consumes one \<open>tick\<close> of the schedule: what the other sessions
  commit before it runs, and the reply the client gets. A reply is normal, or an error before the
  statement took effect, or an error after it did (a lost acknowledgement). The empty schedule is a
  server that serves this session alone and never fails. Theorems about fault tolerance quantify
  over all schedules.
\<close>

section \<open>The world\<close>

datatype reply = Ok_reply | Fail_before string | Fail_after string

record tick =
  others :: "db \<Rightarrow> db"
  tick_reply :: reply

text \<open>
  Calls that reach the Fiber node, recorded in order: the parameters padma sends with \<open>NewInvoice\<close>
  and \<open>SendPayment\<close> (\<open>rpc.NewInvoiceParams\<close>, \<open>rpc.SendPaymentParams\<close>).
\<close>

record new_invoice_params =
  nip_Amount :: amount
  nip_Description :: string

record send_payment_params =
  spp_TargetPubkey :: string
  spp_Amount :: amount
  spp_Keysend :: bool

datatype rpc_call = CallNewInvoice new_invoice_params | CallSendPayment send_payment_params

text \<open>
  \<open>id_source\<close> is the sequence of ids \<open>id.New()\<close> returns, \<open>rand_source\<close> the bytes of
  \<open>crypto/rand.Reader\<close>; \<open>id_pos\<close> and \<open>rand_pos\<close> count what has been consumed.
\<close>

record world =
  database :: db
  schedule :: "tick list"
  clock :: time
  id_source :: "nat \<Rightarrow> string"
  id_pos :: nat
  rand_source :: "nat \<Rightarrow> 8 word"
  rand_pos :: nat
  rpc_log :: "rpc_call list"

type_synonym 'a io = "(world, error + 'a) state"

abbreviation ok :: "'a \<Rightarrow> 'a io" where
  "ok x \<equiv> State_Monad.return (Inr x)"

abbreviation throw :: "error \<Rightarrow> 'a io" where
  "throw e \<equiv> State_Monad.return (Inl e)"

definition quiet_tick :: tick where
  "quiet_tick = \<lparr>others = id, tick_reply = Ok_reply\<rparr>"

definition next_tick :: "world \<Rightarrow> tick \<times> world" where
  "next_tick w = (case schedule w of [] \<Rightarrow> (quiet_tick, w) | t # ts \<Rightarrow> (t, w\<lparr>schedule := ts\<rparr>))"

section \<open>Statements\<close>

text \<open>
  A statement maps the time \<open>now()\<close> and the database to its result and the new database, or to the
  error the server reports (then nothing has changed).
\<close>

type_synonym 'a stmt = "time \<Rightarrow> db \<Rightarrow> error + ('a \<times> db)"

text \<open>A statement that mentions a table of migration \<open>v\<close> fails while the table does not exist.\<close>

definition on_schema :: "nat \<Rightarrow> 'a stmt \<Rightarrow> 'a stmt" where
  "on_schema v q = (\<lambda>now d. if schema_version d < v then Inl (Driver ''undefined_table'') else q now d)"

definition undefined_key :: error where
  "undefined_key = Driver ''foreign_key_violation''"

definition duplicate_key :: error where
  "duplicate_key = Driver ''unique_violation''"

text \<open>The reply to a statement that would answer \<open>r\<close>.\<close>

definition reply_of :: "reply \<Rightarrow> 'a \<Rightarrow> error + 'a" where
  "reply_of rep x = (case rep of Fail_after m \<Rightarrow> Inl (Driver m) | _ \<Rightarrow> Inr x)"

definition run_reply :: "reply \<Rightarrow> 'a stmt \<Rightarrow> world \<Rightarrow> (error + 'a) \<times> world" where
  "run_reply rep q w =
     (case rep of
        Fail_before m \<Rightarrow> (Inl (Driver m), w)
      | _ \<Rightarrow> (case q (clock w) (database w) of
               Inl e \<Rightarrow> (Inl e, w)
             | Inr (x, d) \<Rightarrow> (reply_of rep x, w\<lparr>database := d\<rparr>)))"

text \<open>
  \<open>pool.Exec\<close>, \<open>pool.QueryRow\<close>: an autocommitted statement, before which other sessions may commit.
\<close>

definition pool_exec :: "'a stmt \<Rightarrow> 'a io" where
  "pool_exec q = State (\<lambda>w. case next_tick w of (t, w') \<Rightarrow>
     run_reply (tick_reply t) q (w'\<lparr>database := others t (database w')\<rparr>))"

text \<open>
  \<open>pool.Query\<close> followed by reading all rows: the statement, then a second point of failure for
  \<open>rows.Err()\<close>, after the statement has taken effect. The two error positions are told apart because
  the source wraps them differently.
\<close>

definition pool_query :: "'a stmt \<Rightarrow> (error \<Rightarrow> error) \<Rightarrow> 'a io" where
  "pool_query q wrap = do {
     r \<leftarrow> pool_exec q;
     case r of
       Inl e \<Rightarrow> throw (wrap e)
     | Inr x \<Rightarrow> do {
         s \<leftarrow> pool_exec (\<lambda>_ d. Inr ((), d));
         case s of Inl e \<Rightarrow> throw e | Inr _ \<Rightarrow> ok x } }"

text \<open>
  \<open>tx.Exec\<close>, \<open>tx.QueryRow\<close>, \<open>tx.Query\<close> inside a transaction. A transaction is modelled as running at
  one point of the order of commits, so the other sessions act at its \<open>BEGIN\<close> only.
\<close>

definition tx_exec :: "'a stmt \<Rightarrow> 'a io" where
  "tx_exec q = State (\<lambda>w. case next_tick w of (t, w') \<Rightarrow> run_reply (tick_reply t) q w')"

definition tx_query :: "'a stmt \<Rightarrow> (error \<Rightarrow> error) \<Rightarrow> 'a io" where
  "tx_query q wrap = do {
     r \<leftarrow> tx_exec q;
     case r of
       Inl e \<Rightarrow> throw (wrap e)
     | Inr x \<Rightarrow> do {
         s \<leftarrow> tx_exec (\<lambda>_ d. Inr ((), d));
         case s of Inl e \<Rightarrow> throw e | Inr _ \<Rightarrow> ok x } }"

text \<open>A loop whose body returns at the first error.\<close>

fun for_each :: "('a \<Rightarrow> unit io) \<Rightarrow> 'a list \<Rightarrow> unit io" where
  "for_each f [] = ok ()"
| "for_each f (x # xs) = do {
     r \<leftarrow> f x;
     case r of Inl e \<Rightarrow> throw e | Inr _ \<Rightarrow> for_each f xs }"

section \<open>\<open>tx.go\<close>: transactions\<close>

text \<open>What the function passed to \<open>InTx\<close> does: return nil, return an error, or panic.\<close>

datatype tx_outcome = Tx_ok | Tx_err error | Tx_panic string

text \<open>The result of \<open>InTx\<close>: nil, an error, or the panic going on after the rollback.\<close>

datatype tx_result = Committed | Failed error | Panicking string

definition rollback_to :: "db \<Rightarrow> (world, unit) state" where
  "rollback_to d0 = State (\<lambda>w. ((), w\<lparr>database := d0\<rparr>))"

definition InTx :: "(world, tx_outcome) state \<Rightarrow> (world, tx_result) state" where
  "InTx fn = do {
     b \<leftarrow> pool_exec (\<lambda>_ d. Inr ((), d));
     case b of
       Inl e \<Rightarrow> State_Monad.return (Failed (Errorf ''db: begin: %w'' [] (Some e)))
     | Inr _ \<Rightarrow> do {
         d0 \<leftarrow> State (\<lambda>w. (database w, w));
         r \<leftarrow> fn;
         case r of
           Tx_panic p \<Rightarrow> do { rollback_to d0; State_Monad.return (Panicking p) }
         | Tx_err e \<Rightarrow> do { rollback_to d0; State_Monad.return (Failed e) }
         | Tx_ok \<Rightarrow> do {
             d1 \<leftarrow> State (\<lambda>w. (database w, w));
             rollback_to d0;
             c \<leftarrow> tx_exec (\<lambda>_ _. Inr ((), d1));
             case c of
               Inl e \<Rightarrow> State_Monad.return (Failed (Errorf ''db: commit: %w'' [] (Some e)))
             | Inr _ \<Rightarrow> State_Monad.return Committed } } }"

section \<open>\<open>pool.go\<close>, \<open>migrate.go\<close>\<close>

text \<open>
  \<open>Open\<close>: creating the pool may fail (an unparsable DSN); then the ping is the first statement.
  \<open>pool_new\<close> is the driver's verdict on the DSN.
\<close>

definition Open :: "(string \<Rightarrow> error option) \<Rightarrow> string \<Rightarrow> unit io" where
  "Open pool_new dsn =
     (case pool_new dsn of
        Some e \<Rightarrow> throw (Errorf ''db: open pool: %w'' [] (Some e))
      | None \<Rightarrow> do {
          r \<leftarrow> pool_exec (\<lambda>_ d. Inr ((), d));
          case r of Inl e \<Rightarrow> throw (Errorf ''db: ping: %w'' [] (Some e)) | Inr _ \<Rightarrow> ok () })"

section \<open>Running statements\<close>

named_theorems io_simps \<open>running computations on a quiet world\<close>

text \<open>A world in which no other session interferes and the server never fails.\<close>

abbreviation quiet :: "world \<Rightarrow> bool" where
  "quiet w \<equiv> schedule w = []"

lemma next_tick_quiet [simp]: "quiet w \<Longrightarrow> next_tick w = (quiet_tick, w)"
  by (simp add: next_tick_def)

lemma world_database_same [simp]: "w\<lparr>database := database w\<rparr> = w"
  by simp

lemma run_reply_Ok:
  "run_reply Ok_reply q w =
     (case q (clock w) (database w) of Inl e \<Rightarrow> (Inl e, w) | Inr (x, d) \<Rightarrow> (Inr x, w\<lparr>database := d\<rparr>))"
  by (simp add: run_reply_def reply_of_def split: sum.splits prod.splits)

lemma run_pool_exec [io_simps]:
  "quiet w \<Longrightarrow> run_state (pool_exec q) w =
     (case q (clock w) (database w) of Inl e \<Rightarrow> (Inl e, w) | Inr (x, d) \<Rightarrow> (Inr x, w\<lparr>database := d\<rparr>))"
  by (simp add: pool_exec_def quiet_tick_def run_reply_Ok)

lemma run_tx_exec [io_simps]:
  "quiet w \<Longrightarrow> run_state (tx_exec q) w =
     (case q (clock w) (database w) of Inl e \<Rightarrow> (Inl e, w) | Inr (x, d) \<Rightarrow> (Inr x, w\<lparr>database := d\<rparr>))"
  by (simp add: tx_exec_def quiet_tick_def run_reply_Ok)

lemma run_pool_query [io_simps]:
  "quiet w \<Longrightarrow> run_state (pool_query q wrap) w =
     (case q (clock w) (database w) of
        Inl e \<Rightarrow> (Inl (wrap e), w) | Inr (x, d) \<Rightarrow> (Inr x, w\<lparr>database := d\<rparr>))"
  by (auto simp: pool_query_def io_simps split: sum.splits prod.splits)

lemma run_tx_query [io_simps]:
  "quiet w \<Longrightarrow> run_state (tx_query q wrap) w =
     (case q (clock w) (database w) of
        Inl e \<Rightarrow> (Inl (wrap e), w) | Inr (x, d) \<Rightarrow> (Inr x, w\<lparr>database := d\<rparr>))"
  by (auto simp: tx_query_def io_simps split: sum.splits prod.splits)

text \<open>
  A loop of statements whose bodies, on a quiet world, turn the database \<open>d\<close> into \<open>g x d\<close>.
\<close>

lemma run_for_each:
  assumes "quiet w"
    and "\<And>x d. x \<in> set xs \<Longrightarrow> I d \<Longrightarrow>
      run_state (f x) (w\<lparr>database := d\<rparr>) = (Inr (), w\<lparr>database := g x d\<rparr>)"
    and "\<And>x d. x \<in> set xs \<Longrightarrow> I d \<Longrightarrow> I (g x d)"
    and "I d"
  shows "run_state (for_each f xs) (w\<lparr>database := d\<rparr>) = (Inr (), w\<lparr>database := fold g xs d\<rparr>)"
  using assms(2-)
proof (induction xs arbitrary: d)
  case Nil
  then show ?case by simp
next
  case (Cons x xs)
  from Cons.prems have "run_state (f x) (w\<lparr>database := d\<rparr>) = (Inr (), w\<lparr>database := g x d\<rparr>)"
    and "I (g x d)" by simp_all
  moreover have "run_state (for_each f xs) (w\<lparr>database := g x d\<rparr>) = (Inr (), w\<lparr>database := fold g xs (g x d)\<rparr>)"
    using Cons.prems \<open>I (g x d)\<close> by (intro Cons.IH) simp_all
  ultimately show ?case by simp
qed

text \<open>The database the session sees when its next statement runs.\<close>

definition seen_db :: "world \<Rightarrow> db" where
  "seen_db w = others (fst (next_tick w)) (database w)"

lemma seen_db_quiet [simp]: "quiet w \<Longrightarrow> seen_db w = database w"
  by (simp add: seen_db_def quiet_tick_def)

lemma run_reply_cases:
  assumes "run_reply rep q w = (r, w')"
  shows "((\<exists>e. r = Inl e) \<and> w' = w) \<or>
    (\<exists>x d. q (clock w) (database w) = Inr (x, d) \<and> w' = w\<lparr>database := d\<rparr> \<and>
       (r = Inr x \<or> (\<exists>m. r = Inl (Driver m))))"
proof (cases "q (clock w) (database w)")
  case (Inl e)
  with assms show ?thesis by (cases rep) (auto simp: run_reply_def)
next
  case (Inr xd)
  obtain x d where "xd = (x, d)" by fastforce
  with assms Inr show ?thesis by (cases rep) (auto simp: run_reply_def reply_of_def)
qed

text \<open>Every statement either leaves the database the session saw, or makes its whole change.\<close>

lemma pool_exec_cases:
  assumes "run_state (pool_exec q) w = (r, w')"
  obtains (unchanged) e where "r = Inl e" "database w' = seen_db w"
  | (effect) x d where "q (clock w) (seen_db w) = Inr (x, d)" "database w' = d"
      "r = Inr x \<or> (\<exists>m. r = Inl (Driver m))"
proof -
  obtain t w1 where t: "next_tick w = (t, w1)" by fastforce
  then have clk: "clock w1 = clock w" and db: "database w1 = database w"
    by (auto simp: next_tick_def split: list.splits)
  from assms t have "run_reply (tick_reply t) q (w1\<lparr>database := others t (database w1)\<rparr>) = (r, w')"
    by (simp add: pool_exec_def)
  from run_reply_cases[OF this] consider e where "r = Inl e" "database w' = seen_db w"
    | x d where "q (clock w) (seen_db w) = Inr (x, d)" "database w' = d"
      "r = Inr x \<or> (\<exists>m. r = Inl (Driver m))"
    using t clk db by (auto simp: seen_db_def)
  then show ?thesis by cases (use that in blast)+
qed

lemma run_reply_clock: "run_reply rep q w = (r, w') \<Longrightarrow> clock w' = clock w"
  by (auto dest!: run_reply_cases)

lemma pool_exec_clock: "run_state (pool_exec q) w = (r, w') \<Longrightarrow> clock w' = clock w"
  by (auto simp: pool_exec_def next_tick_def split: prod.splits list.splits dest!: run_reply_clock)

text \<open>
  What a successful statement, query or loop of a transaction has done, under any schedule.
  \<open>tx_does m g\<close>: whenever \<open>m\<close> returns without an error, it has turned the database \<open>d\<close> into \<open>g d\<close> at the
  time of the transaction.
\<close>

definition tx_does :: "'a io \<Rightarrow> (time \<Rightarrow> db \<Rightarrow> 'a \<times> db) \<Rightarrow> bool" where
  "tx_does m g \<longleftrightarrow> (\<forall>w x w'. run_state m w = (Inr x, w') \<longrightarrow>
     clock w' = clock w \<and> (x, database w') = g (clock w) (database w))"

lemma tx_doesD:
  assumes "tx_does m g" and "run_state m w = (Inr x, w')"
  shows "clock w' = clock w \<and> (x, database w') = g (clock w) (database w)"
  using assms unfolding tx_does_def by blast

lemma next_tick_env:
  "next_tick w = (t, w') \<Longrightarrow> clock w' = clock w \<and> database w' = database w"
  by (auto simp: next_tick_def split: list.splits)

lemma tx_exec_InrD:
  assumes "run_state (tx_exec q) w = (Inr x, w')"
  shows "q (clock w) (database w) = Inr (x, database w') \<and> clock w' = clock w"
proof -
  obtain t w1 where t: "next_tick w = (t, w1)" by fastforce
  with assms have "run_reply (tick_reply t) q w1 = (Inr x, w')" by (simp add: tx_exec_def)
  from run_reply_cases[OF this] next_tick_env[OF t] show ?thesis by auto
qed

lemma tx_does_exec:
  assumes "\<And>now d x d'. q now d = Inr (x, d') \<Longrightarrow> (x, d') = g now d"
  shows "tx_does (tx_exec q) g"
  unfolding tx_does_def using tx_exec_InrD[of q] assms by blast

lemma tx_does_ok: "tx_does (ok x) (\<lambda>_ d. (x, d))"
  by (simp add: tx_does_def)

lemma tx_does_throw: "tx_does (throw e) g"
  by (simp add: tx_does_def)

text \<open>The error handling of the source: return the (wrapped) error, or go on with the value.\<close>

lemma tx_does_bind:
  assumes "tx_does m g" and "\<And>x. tx_does (k x) (h x)"
    and "\<And>now d x d'. g now d = (x, d') \<Longrightarrow> h x now d' = f now d"
  shows "tx_does (do { r \<leftarrow> m; case r of Inl e \<Rightarrow> throw (wrap e) | Inr x \<Rightarrow> k x }) f"
  unfolding tx_does_def
proof (intro allI impI)
  fix w y w'
  assume run: "run_state (do { r \<leftarrow> m; case r of Inl e \<Rightarrow> throw (wrap e) | Inr x \<Rightarrow> k x }) w = (Inr y, w')"
  obtain r w1 where m: "run_state m w = (r, w1)" by fastforce
  with run obtain x where r: "r = Inr x" by (cases r) auto
  from m r run have kx: "run_state (k x) w1 = (Inr y, w')" by simp
  from tx_doesD[OF assms(1)] m r have 1: "clock w1 = clock w" "(x, database w1) = g (clock w) (database w)"
    by auto
  from tx_doesD[OF assms(2) kx] have 2: "clock w' = clock w1" "(y, database w') = h x (clock w1) (database w1)"
    by auto
  from 1 2 assms(3)[of "clock w" "database w" x "database w1"]
  show "clock w' = clock w \<and> (y, database w') = f (clock w) (database w)" by simp
qed

lemma tx_does_for_each:
  assumes "\<And>x. x \<in> set xs \<Longrightarrow> tx_does (f x) (\<lambda>now d. ((), g x now d))"
  shows "tx_does (for_each f xs) (\<lambda>now d. ((), fold (\<lambda>x. g x now) xs d))"
  using assms
proof (induction xs)
  case Nil
  then show ?case by (simp add: tx_does_ok)
next
  case (Cons x xs)
  show ?case
    unfolding for_each.simps
    by (rule tx_does_bind[where wrap = "\<lambda>e. e"]) (use Cons in auto)
qed

section \<open>Transactions are atomic\<close>

lemma run_InTx_commit:
  assumes "quiet w" and "run_state fn w = (Tx_ok, w')" and "quiet w'"
  shows "run_state (InTx fn) w = (Committed, w')"
  using assms by (simp add: InTx_def rollback_to_def io_simps)

lemma run_InTx_error:
  assumes "quiet w" and "run_state fn w = (Tx_err e, w')"
  shows "run_state (InTx fn) w = (Failed e, w'\<lparr>database := database w\<rparr>)"
  using assms by (simp add: InTx_def rollback_to_def io_simps)

text \<open>
  For every schedule: a transaction that reports success has made exactly the changes of its body;
  one that panics has made none; one that reports an error has made none, or all of them (when the
  acknowledgement of the commit was lost).
\<close>

lemma InTx_atomic:
  assumes run: "run_state (InTx fn) w = (r, w')"
  shows "(r \<noteq> Committed \<and> database w' = seen_db w) \<or>
    (\<exists>w1 w2. database w1 = seen_db w \<and> clock w1 = clock w \<and> run_state fn w1 = (Tx_ok, w2) \<and>
       database w' = database w2 \<and> (r = Committed \<or> (\<exists>e. r = Failed e)))"
proof -
  obtain b w1 where b: "run_state (pool_exec (\<lambda>_ d. Inr ((), d))) w = (b, w1)" by fastforce
  from b have "clock w1 = clock w" by (rule pool_exec_clock)
  moreover from b have "database w1 = seen_db w" by (cases rule: pool_exec_cases) auto
  ultimately have db1: "database w1 = seen_db w" "clock w1 = clock w" by simp_all
  show ?thesis
  proof (cases b)
    case (Inl e)
    with run b db1 show ?thesis by (auto simp: InTx_def)
  next
    case (Inr u)
    obtain res w2 where fn: "run_state fn w1 = (res, w2)" by fastforce
    show ?thesis
    proof (cases res)
      case Tx_ok
      obtain t w3 where t: "next_tick (w2\<lparr>database := database w1\<rparr>) = (t, w3)" by fastforce
      then have db3: "database w3 = database w1"
        by (auto simp: next_tick_def split: list.splits)
      from run b Inr fn Tx_ok t show ?thesis
        using db1 db3
        by (auto simp: InTx_def rollback_to_def tx_exec_def run_reply_def reply_of_def split: reply.splits)
    qed (use run b Inr fn db1 in \<open>auto simp: InTx_def rollback_to_def\<close>)
  qed
qed

section \<open>Other sessions\<close>

text \<open>The other sessions of the schedule keep the property \<open>I\<close> of the database.\<close>

definition others_keep :: "(db \<Rightarrow> bool) \<Rightarrow> world \<Rightarrow> bool" where
  "others_keep I w \<longleftrightarrow> I (database w) \<and> (\<forall>t \<in> set (schedule w). \<forall>d. I d \<longrightarrow> I (others t d))"

lemma others_keep_quiet [simp]: "quiet w \<Longrightarrow> others_keep I w \<longleftrightarrow> I (database w)"
  by (simp add: others_keep_def)

lemma others_keep_seen: "others_keep I w \<Longrightarrow> I (seen_db w)"
  by (auto simp: others_keep_def seen_db_def next_tick_def quiet_tick_def split: list.splits)

lemma others_keep_exec:
  assumes run: "run_state (pool_exec q) w = (r, w')" and keep: "others_keep I w"
    and q: "\<And>now d x d'. q now d = Inr (x, d') \<Longrightarrow> I d \<Longrightarrow> I d'"
  shows "others_keep I w' \<and> I (seen_db w)"
proof -
  obtain t w1 where t: "next_tick w = (t, w1)" by fastforce
  have w1: "schedule w1 = tl (schedule w)" "database w1 = database w" "seen_db w = others t (database w)"
    using t by (auto simp: next_tick_def seen_db_def split: list.splits)
  have seen: "I (others t (database w))"
    using t keep by (auto simp: others_keep_def next_tick_def quiet_tick_def split: list.splits)
  from run t have "run_reply (tick_reply t) q (w1\<lparr>database := others t (database w1)\<rparr>) = (r, w')"
    by (simp add: pool_exec_def)
  from run_reply_cases[OF this] seen q w1 have "I (database w')" and "schedule w' = tl (schedule w)"
    by auto
  moreover have "set (tl (schedule w)) \<subseteq> set (schedule w)" by (cases "schedule w") auto
  ultimately show ?thesis using keep seen w1 by (auto simp: others_keep_def)
qed

text \<open>A computation keeps what the other sessions and its own statements keep.\<close>

definition keeps :: "(db \<Rightarrow> bool) \<Rightarrow> (world, 'a) state \<Rightarrow> bool" where
  "keeps I m \<longleftrightarrow> (\<forall>w. others_keep I w \<longrightarrow> others_keep I (snd (run_state m w)))"

lemma keepsD: "keeps I m \<Longrightarrow> others_keep I w \<Longrightarrow> others_keep I (snd (run_state m w))"
  by (simp add: keeps_def)

named_theorems keeps_intros \<open>computations that keep a property of the database\<close>

lemma keeps_sum [keeps_intros]: "(\<And>e. keeps I (f e)) \<Longrightarrow> (\<And>x. keeps I (g x)) \<Longrightarrow> keeps I (case r of Inl e \<Rightarrow> f e | Inr x \<Rightarrow> g x)"
  by (cases r) simp_all

lemma keeps_return [keeps_intros]: "keeps I (State_Monad.return x)"
  by (simp add: keeps_def)

lemma keeps_bind [keeps_intros]: "keeps I m \<Longrightarrow> (\<And>x. keeps I (k x)) \<Longrightarrow> keeps I (m \<bind> k)"
  by (auto simp: keeps_def split: prod.splits dest: spec)

lemma keeps_exec [keeps_intros]:
  assumes "\<And>now d x d'. q now d = Inr (x, d') \<Longrightarrow> I d \<Longrightarrow> I d'"
  shows "keeps I (pool_exec q)"
  unfolding keeps_def using others_keep_exec[of q _ _ _ I] assms by (metis prod.collapse)

lemma keeps_query [keeps_intros]:
  assumes "\<And>now d x d'. q now d = Inr (x, d') \<Longrightarrow> I d \<Longrightarrow> I d'"
  shows "keeps I (pool_query q wrap)"
  unfolding pool_query_def
  by (intro keeps_intros) (auto intro: assms)

lemma keeps_for_each [keeps_intros]: "(\<And>x. x \<in> set xs \<Longrightarrow> keeps I (f x)) \<Longrightarrow> keeps I (for_each f xs)"
  by (induction xs) (auto intro!: keeps_intros split: sum.splits)

text \<open>A step that leaves the database and the schedule alone.\<close>

lemma keeps_local [keeps_intros]:
  "(\<And>w. database (snd (f w)) = database w \<and> schedule (snd (f w)) = schedule w) \<Longrightarrow> keeps I (State f)"
  by (simp add: keeps_def others_keep_def)

end
