(* ===== verification/Ids.thy ===== *)
theory Ids
  imports Pool Sha256
begin

text \<open>
  Identifiers (\<^verbatim>\<open>internal/platform/id/id.go\<close>) and credentials (\<^verbatim>\<open>internal/platform/auth/apikey.go\<close>).
  The text form of a ULID belongs to the library oklog/ulid and is a parameter of \<open>Derive\<close>; the hash
  is SHA-256. Fresh ids and random bytes come from the sources of the world.
\<close>

unbundle bit_operations_syntax

section \<open>\<open>id.go\<close>\<close>

definition id_New :: "(world, string) state" where
  "id_New = State (\<lambda>w. (id_source w (id_pos w), w\<lparr>id_pos := Suc (id_pos w)\<rparr>))"

text \<open>The bytes written to the hash: the namespace, then a zero byte before every part.\<close>

definition derive_preimage :: "string \<Rightarrow> string list \<Rightarrow> byte list" where
  "derive_preimage namespace parts = bytes_of namespace @ concat (map (\<lambda>p. 0 # bytes_of p) parts)"

definition Derive :: "(byte list \<Rightarrow> string) \<Rightarrow> string \<Rightarrow> string list \<Rightarrow> string" where
  "Derive ulid namespace parts = ulid (take 16 (sha256 (derive_preimage namespace parts)))"

definition DeriveWithPrefix :: "(byte list \<Rightarrow> string) \<Rightarrow> string \<Rightarrow> string \<Rightarrow> string list \<Rightarrow> string" where
  "DeriveWithPrefix ulid prefix namespace parts = prefix @ Derive ulid namespace parts"

section \<open>\<open>apikey.go\<close>\<close>

definition rand_Read :: "nat \<Rightarrow> (world, byte list) state" where
  "rand_Read n = State (\<lambda>w. (map (\<lambda>i. rand_source w (rand_pos w + i)) [0 ..< n],
     w\<lparr>rand_pos := rand_pos w + n\<rparr>))"

definition randHex :: "nat \<Rightarrow> (world, string) state" where
  "randHex n = do { b \<leftarrow> rand_Read n; State_Monad.return (hex_EncodeToString b) }"

definition HashAPIKey :: "string \<Rightarrow> string" where
  "HashAPIKey plaintext = hex_EncodeToString (sha256 (bytes_of plaintext))"

definition NewAPIKey :: "(world, string \<times> string) state" where
  "NewAPIKey = do { plaintext \<leftarrow> randHex 32; State_Monad.return (plaintext, HashAPIKey plaintext) }"

text \<open>
  \<open>subtle.ConstantTimeCompare\<close>: 0 on different lengths, otherwise all byte differences are or-ed
  together and compared with zero once.
\<close>

definition ConstantTimeCompare :: "byte list \<Rightarrow> byte list \<Rightarrow> int" where
  "ConstantTimeCompare x y =
     (if length x \<noteq> length y then 0
      else if fold (\<lambda>(a, b) v. v OR (a XOR b)) (zip x y) 0 = 0 then 1 else 0)"

definition VerifyAPIKey :: "string \<Rightarrow> string \<Rightarrow> bool" where
  "VerifyAPIKey plaintext hash =
     (ConstantTimeCompare (bytes_of (HashAPIKey plaintext)) (bytes_of hash) = 1)"

definition NewWebhookSecret :: "(world, string) state" where
  "NewWebhookSecret = randHex 32"

section \<open>Derived ids\<close>

lemma bytes_of_no_zero: "CHR 0x00 \<notin> set s \<Longrightarrow> 0 \<notin> set (bytes_of s)"
proof
  assume s: "CHR 0x00 \<notin> set s" and "0 \<in> set (bytes_of s)"
  then obtain c where c: "c \<in> set s" "(of_nat (of_char c) :: byte) = 0"
    by (auto simp: bytes_of_def)
  then have "(of_nat (of_char c) :: byte) = of_nat (of_char (CHR 0x00))" by simp
  then have "c = CHR 0x00" by (rule injD[OF inj_char_byte])
  with s c show False by simp
qed

text \<open>Splitting at the first separator is unambiguous when the left part has none.\<close>

lemma append_sep_inj:
  assumes "x \<notin> set as" and "x \<notin> set bs" and "as @ x # us = bs @ x # vs"
  shows "as = bs \<and> us = vs"
  using assms by (induction as arbitrary: bs) (case_tac bs; auto)+

lemma concat_sep_inj:
  assumes "\<forall>p \<in> set ps. z \<notin> set p" and "\<forall>q \<in> set qs. z \<notin> set q"
    and "a @ concat (map (\<lambda>p. z # p) ps) = b @ concat (map (\<lambda>p. z # p) qs)"
    and "z \<notin> set a" and "z \<notin> set b"
  shows "a = b \<and> ps = qs"
  using assms
proof (induction ps arbitrary: a b qs)
  case Nil
  then show ?case
    by (cases qs) auto
next
  case (Cons p ps)
  show ?case
  proof (cases qs)
    case Nil
    with Cons.prems show ?thesis by auto
  next
    case (Cons q qs')
    from Cons.prems(3) have
      "a @ z # (p @ concat (map (\<lambda>p. z # p) ps)) = b @ z # (q @ concat (map (\<lambda>p. z # p) qs'))"
      using Cons by simp
    from append_sep_inj[OF Cons.prems(4,5) this]
    have "a = b" and "p @ concat (map (\<lambda>p. z # p) ps) = q @ concat (map (\<lambda>p. z # p) qs')"
      by simp_all
    moreover from this(2) have "p = q \<and> ps = qs'"
      using Cons.prems(1,2) Cons by (intro Cons.IH) simp_all
    ultimately show ?thesis using Cons by simp
  qed
qed

lemma derive_preimage_inj:
  assumes "derive_preimage n ps = derive_preimage m qs"
    and "\<forall>s \<in> {n, m} \<union> set ps \<union> set qs. CHR 0x00 \<notin> set s"
  shows "n = m \<and> ps = qs"
proof -
  have "bytes_of n = bytes_of m \<and> map bytes_of ps = map bytes_of qs"
    using assms
    by (intro concat_sep_inj[where z = 0]) (auto simp: derive_preimage_def comp_def bytes_of_no_zero)
  then show ?thesis
    using inj_bytes_of by (auto simp: inj_def intro: map_injective)
qed

section \<open>Keys\<close>

lemma fold_or_zero_iff:
  "fold (\<lambda>(a, b) v. v OR (a XOR b)) ps (v :: byte) = 0 \<longleftrightarrow> v = 0 \<and> (\<forall>(a, b) \<in> set ps. a = b)"
proof (induction ps arbitrary: v)
  case Nil
  then show ?case by simp
next
  case (Cons p ps)
  obtain a b where p: "p = (a, b)" by fastforce
  have "v OR (a XOR b) = 0 \<longleftrightarrow> v = 0 \<and> a XOR b = 0"
    by (auto simp: bit_eq_iff bit_or_iff)
  moreover have "a XOR b = 0 \<longleftrightarrow> a = b"
    by (auto simp: bit_eq_iff bit_xor_iff)
  ultimately show ?case by (auto simp: Cons.IH p)
qed

lemma ConstantTimeCompare_eq: "ConstantTimeCompare x y = (if x = y then 1 else 0)"
proof (cases "length x = length y")
  case True
  then have "(\<forall>(a, b) \<in> set (zip x y). a = b) \<longleftrightarrow> x = y"
    by (induction x y rule: list_induct2) auto
  with True show ?thesis by (simp add: ConstantTimeCompare_def fold_or_zero_iff)
next
  case False
  then show ?thesis by (auto simp: ConstantTimeCompare_def)
qed

lemma VerifyAPIKey_iff: "VerifyAPIKey plaintext hash \<longleftrightarrow> HashAPIKey plaintext = hash"
  using inj_bytes_of by (auto simp: VerifyAPIKey_def ConstantTimeCompare_eq inj_def)

lemma length_hex_Encode [simp]: "length (hex_EncodeToString bs) = 2 * length bs"
  by (induction bs) (auto simp: hex_EncodeToString_def)

lemma nth_hex_inj: "i < 16 \<Longrightarrow> j < 16 \<Longrightarrow> ''0123456789abcdef'' ! i = ''0123456789abcdef'' ! j \<Longrightarrow> i = j"
  by (auto simp: nth_eq_iff_index_eq)

lemma hex_Encode_inj: "hex_EncodeToString bs = hex_EncodeToString cs \<Longrightarrow> bs = cs"
proof (induction bs arbitrary: cs)
  case Nil
  then show ?case by (cases cs) (auto simp: hex_EncodeToString_def)
next
  case (Cons b bs)
  then obtain c cs' where cs: "cs = c # cs'" by (cases cs) (auto simp: hex_EncodeToString_def)
  have "unat x < 2 ^ LENGTH(8)" for x :: byte by (rule unsigned_less)
  then have lt: "unat x div 16 < 16" "unat x mod 16 < 16" for x :: byte
    by (simp_all add: less_mult_imp_div_less)
  from Cons.prems cs have "unat b div 16 = unat c div 16" and "unat b mod 16 = unat c mod 16"
    by (auto simp: hex_EncodeToString_def intro!: nth_hex_inj lt)
  then have "unat b = unat c" by (metis div_mult_mod_eq)
  then have "b = c" by (rule unsigned_word_eqI)
  moreover from Cons.prems cs have "hex_EncodeToString bs = hex_EncodeToString cs'"
    by (simp add: hex_EncodeToString_def)
  ultimately show ?case using Cons.IH cs by simp
qed

end
