(* ===== verification/Gostd.thy ===== *)
theory Gostd
  imports Prelude "HOL-Library.Monad_Syntax"
begin

text \<open>
  What padma uses of Go's standard library with a textual format: decimal numbers (\<open>strconv.Atoi\<close>, the
  \<open>%d\<close> verb), instants in RFC 3339 form (\<open>time.Format\<close>, \<open>time.Parse\<close> with \<open>RFC3339\<close> and \<open>RFC3339Nano\<close>),
  unpadded URL-safe base64, \<open>strings.Cut\<close> and the text of an error. The lemmas are the round trips the
  cursor codec rests on.
\<close>

section \<open>Decimal digits\<close>

definition digit :: "nat \<Rightarrow> char" where
  "digit n = char_of (48 + n)"

definition isDigit :: "char \<Rightarrow> bool" where
  "isDigit c \<longleftrightarrow> 48 \<le> (of_char c :: nat) \<and> (of_char c :: nat) \<le> 57"

definition digit_val :: "char \<Rightarrow> nat" where
  "digit_val c = of_char c - 48"

definition dec_value :: "string \<Rightarrow> nat" where
  "dec_value ds = foldl (\<lambda>a c. 10 * a + digit_val c) 0 ds"

text \<open>\<open>n\<close> in exactly \<open>k\<close> digits, and in as many as it needs.\<close>

fun pad :: "nat \<Rightarrow> nat \<Rightarrow> string" where
  "pad 0 n = []"
| "pad (Suc k) n = pad k (n div 10) @ [digit (n mod 10)]"

fun dec :: "nat \<Rightarrow> string" where
  "dec n = (if n < 10 then [digit n] else dec (n div 10) @ [digit (n mod 10)])"

declare dec.simps [simp del]

definition dec_int :: "int \<Rightarrow> string" where
  "dec_int v = (if v < 0 then CHR ''-'' # dec (nat (- v)) else dec (nat v))"

text \<open>\<open>strconv.Atoi\<close>: an optional sign, at least one digit, and a value that fits 64 bits.\<close>

definition Atoi :: "string \<Rightarrow> error + int" where
  "Atoi s =
     (let (neg, ds) = (case s of c # cs \<Rightarrow> if c = CHR ''-'' then (True, cs) else if c = CHR ''+'' then (False, cs)
                                 else (False, s) | [] \<Rightarrow> (False, []));
          v = (if neg then - int (dec_value ds) else int (dec_value ds))
      in if ds = [] \<or> \<not> list_all isDigit ds
         then Inl (Errorf ''strconv.Atoi: parsing %q: invalid syntax'' [s] None)
         else if v < - (2 ^ 63) \<or> 2 ^ 63 \<le> v
         then Inl (Errorf ''strconv.Atoi: parsing %q: value out of range'' [s] None)
         else Inr v)"

lemma digit_facts [simp]:
  "n < 10 \<Longrightarrow> digit_val (digit n) = n" "n < 10 \<Longrightarrow> isDigit (digit n)"
  by (simp_all add: digit_def digit_val_def isDigit_def)

lemma length_pad [simp]: "length (pad k n) = k"
  by (induction k arbitrary: n) simp_all

lemma pad_digits: "list_all isDigit (pad k n)"
  by (induction k arbitrary: n) simp_all

lemma dec_value_snoc [simp]: "dec_value (ds @ [c]) = 10 * dec_value ds + digit_val c"
  by (simp add: dec_value_def)

lemma dec_value_pad: "dec_value (pad k n) = n mod 10 ^ k"
proof (induction k arbitrary: n)
  case 0
  then show ?case by (simp add: dec_value_def)
next
  case (Suc k)
  have "10 * (n div 10 mod 10 ^ k) + n mod 10 = n mod (10 * 10 ^ k)"
    by (simp add: mod_mult2_eq)
  with Suc show ?case by simp
qed

lemma dec_value_dec: "dec_value (dec n) = n"
proof (induction n rule: dec.induct)
  case (1 n)
  then show ?case by (subst dec.simps) (auto simp: dec_value_def)
qed

lemma dec_digits: "list_all isDigit (dec n)"
proof (induction n rule: dec.induct)
  case (1 n)
  then show ?case by (subst dec.simps) auto
qed

lemma dec_nonempty [simp]: "dec n \<noteq> []"
  by (subst dec.simps) simp

lemma not_isDigit [simp]: "\<not> isDigit (CHR ''-'')" "\<not> isDigit (CHR ''+'')" "\<not> isDigit (CHR ''Z'')"
  "\<not> isDigit (CHR '':'')" "\<not> isDigit (CHR ''T'')" "\<not> isDigit (CHR ''.'')" "\<not> isDigit (CHR ''|'')"
  by (simp_all add: isDigit_def)

section \<open>Errors as text\<close>

text \<open>\<open>%q\<close>, for text without quotes, backslashes and control characters.\<close>

definition quoted :: "string \<Rightarrow> string" where
  "quoted s = CHR 0x22 # s @ [CHR 0x22]"

text \<open>Formatting with the operands in order; \<open>w\<close> is the text of the operand of \<open>%w\<close>.\<close>

fun sprintf :: "string \<Rightarrow> string list \<Rightarrow> string \<Rightarrow> string" where
  "sprintf [] as w = []"
| "sprintf (c # cs) as w =
     (if c = CHR ''%'' then
        (case cs of
           [] \<Rightarrow> [c]
         | v # cs' \<Rightarrow>
             if v = CHR ''w'' then w @ sprintf cs' as w
             else (case as of
                 [] \<Rightarrow> sprintf cs' as w
               | a # as' \<Rightarrow> (if v = CHR ''q'' then quoted a else a) @ sprintf cs' as' w))
      else c # sprintf cs as w)"

text \<open>\<open>err.Error()\<close>.\<close>

primrec error_text :: "error \<Rightarrow> string" where
  "error_text (Sentinel s) = s"
| "error_text (Driver s) = s"
| "error_text (Errorf f as w) = sprintf f as (case map_option error_text w of None \<Rightarrow> [] | Some t \<Rightarrow> t)"

section \<open>The calendar\<close>

definition leap :: "int \<Rightarrow> bool" where
  "leap y \<longleftrightarrow> 4 dvd y \<and> (\<not> 100 dvd y \<or> 400 dvd y)"

text \<open>Days from 1 January of the year 1 to 1 January of \<open>y\<close>.\<close>

definition days_before_year :: "int \<Rightarrow> int" where
  "days_before_year y = 365 * (y - 1) + (y - 1) div 4 - (y - 1) div 100 + (y - 1) div 400"

definition month_starts :: "int list" where
  "month_starts = [0, 31, 59, 90, 120, 151, 181, 212, 243, 273, 304, 334, 365]"

text \<open>The day of the year on which month \<open>m\<close> (1 to 13) begins.\<close>

definition month_start :: "bool \<Rightarrow> nat \<Rightarrow> int" where
  "month_start lp m = month_starts ! (m - 1) + (if lp \<and> 2 < m then 1 else 0)"

definition daysIn :: "bool \<Rightarrow> nat \<Rightarrow> int" where
  "daysIn lp m = month_start lp (m + 1) - month_start lp m"

definition days_of_civil :: "int \<Rightarrow> nat \<Rightarrow> int \<Rightarrow> int" where
  "days_of_civil y m d = days_before_year y + month_start (leap y) m + d - 1"

text \<open>The year and the day of the year, by cycles of 400, 100, 4 and 1 years.\<close>

definition year_day :: "int \<Rightarrow> int \<times> int" where
  "year_day z =
     (let e = z div 146097; r = z mod 146097;
          a = r div 36524 - r div 36524 div 4; r1 = r - 36524 * a;
          b = r1 div 1461; r2 = r1 mod 1461;
          c = r2 div 365 - r2 div 365 div 4
      in (400 * e + 100 * a + 4 * b + c + 1, r2 - 365 * c))"

definition month_of :: "bool \<Rightarrow> int \<Rightarrow> nat" where
  "month_of lp yday = length (filter (\<lambda>m. month_start lp m \<le> yday) [1..<13])"

definition civil_of_days :: "int \<Rightarrow> int \<times> nat \<times> int" where
  "civil_of_days z = (case year_day z of (y, yd) \<Rightarrow>
     let m = month_of (leap y) yd in (y, m, yd - month_start (leap y) m + 1))"

text \<open>The round trip between days and dates.\<close>

lemma cycle_digit:
  fixes r n k :: int
  assumes "0 \<le> r" and "r \<le> 4 * n" and "0 < n"
  shows "0 \<le> r div n - r div n div 4 \<and> r div n - r div n div 4 \<le> 3 \<and>
    n * (r div n - r div n div 4) \<le> r \<and>
    (r < n * (r div n - r div n div 4) + n \<or> r = 4 * n \<and> r div n - r div n div 4 = 3)"
proof -
  let ?q = "r div n"
  have "0 \<le> ?q" using assms by (simp add: pos_imp_zdiv_nonneg_iff)
  have "?q \<le> 4"
  proof -
    have "?q \<le> (4 * n) div n" using assms by (intro zdiv_mono1) auto
    with assms show ?thesis by simp
  qed
  have rr: "r = n * ?q + r mod n" "0 \<le> r mod n" "r mod n < n" using assms by simp_all
  consider "?q = 0" | "?q = 1" | "?q = 2" | "?q = 3" | "?q = 4" using \<open>0 \<le> ?q\<close> \<open>?q \<le> 4\<close> by linarith
  then show ?thesis
  proof cases
    case 5
    with rr(1) have "r = n * 4 + r mod n" by simp
    with rr(2) assms(2) have "r = 4 * n" by linarith
    with 5 show ?thesis using assms by simp
  next
    case 1 with rr show ?thesis by simp
  next
    case 2 with rr show ?thesis by simp
  next
    case 3 with rr show ?thesis by simp
  next
    case 4 with rr show ?thesis by simp
  qed
qed

lemma year_day_correct:
  assumes "year_day z = (y, yd)"
  shows "days_before_year y + yd = z \<and> 0 \<le> yd \<and> yd \<le> (if leap y then 365 else 364)"
proof -
  define e r where "e = z div 146097" and "r = z mod 146097"
  define a r1 where "a = r div 36524 - r div 36524 div 4" and "r1 = r - 36524 * a"
  define b r2 where "b = r1 div 1461" and "r2 = r1 mod 1461"
  define c where "c = r2 div 365 - r2 div 365 div 4"
  have z: "z = 146097 * e + r" "0 \<le> r" "r \<le> 4 * 36524" by (auto simp: e_def r_def)
  have A: "0 \<le> a" "a \<le> 3" "0 \<le> r1" "r1 < 36524 \<or> r1 = 36524 \<and> a = 3"
    using cycle_digit[OF z(2,3), folded a_def] by (auto simp: r1_def)
  then have B: "r1 = 1461 * b + r2" "0 \<le> b" "b \<le> 24" "0 \<le> r2" "r2 \<le> 4 * 365"
    by (auto simp: b_def r2_def)
  have C: "0 \<le> c" "c \<le> 3" "365 * c \<le> r2" "r2 < 365 * c + 365 \<or> r2 = 1460 \<and> c = 3"
    using cycle_digit[OF B(4,5), folded c_def] by simp_all
  have "(400 * e + 100 * a + 4 * b + c + 1, r2 - 365 * c) = (y, yd)"
    using assms unfolding year_day_def Let_def c_def r2_def b_def r1_def a_def r_def e_def .
  then have y: "y = 400 * e + 100 * a + 4 * b + c + 1" and yd: "yd = r2 - 365 * c" by auto
  have d: "(y - 1) div 4 = 100 * e + 25 * a + b" "(y - 1) div 100 = 4 * e + a" "(y - 1) div 400 = e"
    using A(1,2) B(2,3) C(1,2)
    by (intro int_div_pos_eq[where r = c] int_div_pos_eq[where r = "4 * b + c"]
        int_div_pos_eq[where r = "100 * a + 4 * b + c"]; simp add: y)+
  have "days_before_year y + yd = z"
    unfolding days_before_year_def d using y yd z(1) B(1) by (simp add: r1_def)
  moreover have "leap y" if "yd = 365"
  proof -
    from that yd C have c3: "c = 3" and "r2 = 1460" by auto
    with A(4) B(1,3) have ba: "b < 24 \<or> b = 24 \<and> a = 3" by linarith
    have "y = 4 * (100 * e + 25 * a + b + 1)" using y c3 by simp
    then have "4 dvd y" by simp
    moreover have "y mod 100 = 4 * (b + 1)" if "b < 24"
      using that B(2) y c3 by (intro int_mod_pos_eq[where q = "4 * e + a"]) auto
    then have "\<not> 100 dvd y" if "b < 24" using that B(2) by (simp add: dvd_eq_mod_eq_0)
    moreover have "400 dvd y" if "b = 24 \<and> a = 3" using that y c3 by (intro dvdI[where k = "e + 1"]) simp
    ultimately show ?thesis using ba by (auto simp: leap_def)
  qed
  ultimately show ?thesis using yd C by auto
qed

lemma month_upt: "[1..<13] = [1, 2, 3, 4, 5, 6, 7, 8, 9, 10, 11, 12::nat]"
  by (simp add: upt_rec)

lemma month_start_mono: "1 \<le> i \<Longrightarrow> i \<le> j \<Longrightarrow> j \<le> 13 \<Longrightarrow> month_start lp i \<le> month_start lp j"
proof -
  assume ij: "1 \<le> i" "i \<le> j" "j \<le> 13"
  have "sorted month_starts" by (simp add: month_starts_def)
  moreover have "j - 1 < length month_starts" using ij by (simp add: month_starts_def)
  ultimately have "month_starts ! (i - 1) \<le> month_starts ! (j - 1)"
    using ij by (intro sorted_nth_mono) simp_all
  with ij show ?thesis by (simp add: month_start_def)
qed

text \<open>The months that have begun by a day are an initial segment of the year.\<close>

lemma length_filter_le_upt:
  fixes f :: "nat \<Rightarrow> int"
  assumes "\<And>i j. a \<le> i \<Longrightarrow> i \<le> j \<Longrightarrow> j < b \<Longrightarrow> f i \<le> f j"
    and "k = a + length (filter (\<lambda>i. f i \<le> x) [a..<b])"
  shows "(\<forall>i. a \<le> i \<and> i < k \<longrightarrow> f i \<le> x) \<and> (k < b \<longrightarrow> x < f k) \<and> (a \<le> b \<longrightarrow> k \<le> b)"
  using assms
proof (induction b arbitrary: k)
  case 0
  then show ?case by simp
next
  case (Suc b)
  define k' where "k' = a + length (filter (\<lambda>i. f i \<le> x) [a..<b])"
  have IH: "(\<forall>i. a \<le> i \<and> i < k' \<longrightarrow> f i \<le> x) \<and> (k' < b \<longrightarrow> x < f k') \<and> (a \<le> b \<longrightarrow> k' \<le> b)"
    using Suc.IH[OF _ k'_def] Suc.prems(1) by simp
  show ?case
  proof (cases "a \<le> b \<and> f b \<le> x")
    case True
    have "k' = b"
    proof (rule ccontr)
      assume "k' \<noteq> b"
      with IH True have "k' < b" "x < f k'" by auto
      moreover have "f k' \<le> f b" using Suc.prems(1)[of k' b] \<open>k' < b\<close> by (simp add: k'_def)
      ultimately show False using True by simp
    qed
    moreover from True Suc.prems(2) have "k = Suc k'" by (simp add: k'_def)
    ultimately have "k = Suc b" by simp
    with \<open>k' = b\<close> True IH show ?thesis by (auto simp: less_Suc_eq)
  next
    case False
    then have "k = k'" using Suc.prems(2) by (auto simp: k'_def)
    moreover have "a \<le> k'" "b < a \<Longrightarrow> k' = a" by (simp_all add: k'_def)
    ultimately show ?thesis using False IH by (cases "k' = b") auto
  qed
qed

lemma month_of_correct:
  assumes "0 \<le> yd" and "yd \<le> (if lp then 365 else 364)" and "m = month_of lp yd"
  shows "1 \<le> m \<and> m \<le> 12 \<and> month_start lp m \<le> yd \<and> yd < month_start lp (m + 1)"
proof -
  have m: "1 + m = 1 + length (filter (\<lambda>i. month_start lp i \<le> yd) [1..<13])"
    using assms(3) by (simp add: month_of_def)
  note seg = length_filter_le_upt[OF _ m]
  have seg': "(\<forall>i. 1 \<le> i \<and> i < 1 + m \<longrightarrow> month_start lp i \<le> yd) \<and>
      (1 + m < 13 \<longrightarrow> yd < month_start lp (1 + m)) \<and> 1 + m \<le> 13"
    using seg month_start_mono by simp
  have "1 \<le> m"
  proof (rule ccontr)
    assume "\<not> 1 \<le> m"
    then have "m = 0" by simp
    with seg' have "yd < month_start lp 1" by simp
    with assms(1) show False by (simp add: month_start_def month_starts_def)
  qed
  moreover have "yd < month_start lp 13"
    using assms(2) by (simp add: month_start_def month_starts_def split: if_splits)
  ultimately show ?thesis using seg' by (cases "m = 12") auto
qed

lemma civil_of_days_correct:
  assumes "civil_of_days z = (y, m, d)"
  shows "days_of_civil y m d = z \<and> 1 \<le> m \<and> m \<le> 12 \<and> 1 \<le> d \<and> d \<le> daysIn (leap y) m"
proof -
  obtain y' yd where yy: "year_day z = (y', yd)" by fastforce
  with assms have "y = y'" "m = month_of (leap y) yd" "d = yd - month_start (leap y) m + 1"
    by (auto simp: civil_of_days_def Let_def)
  with year_day_correct[OF yy] month_of_correct[of yd "leap y" m]
  show ?thesis by (auto simp: days_of_civil_def daysIn_def)
qed

lemma daysIn_le: "1 \<le> m \<Longrightarrow> m \<le> 12 \<Longrightarrow> daysIn lp m \<le> 31"
proof -
  assume "1 \<le> m" "m \<le> 12"
  then have "m \<in> set [1..<13]" by simp
  then show ?thesis unfolding month_upt by (auto simp: daysIn_def month_start_def month_starts_def)
qed

section \<open>\<open>time.RFC3339Nano\<close>\<close>

definition unix_epoch_days :: int where
  "unix_epoch_days = 719162"

definition instant :: "int \<Rightarrow> nat \<Rightarrow> int \<Rightarrow> int \<Rightarrow> int \<Rightarrow> time" where
  "instant y m d sec_of_day ns =
     ((days_of_civil y m d - unix_epoch_days) * 86400 + sec_of_day) * 1000000000 + ns"

text \<open>The zero \<open>time.Time\<close>: 1 January of the year 1.\<close>

definition zero_time :: time where
  "zero_time = - 62135596800 * 1000000000"

text \<open>A year is printed in at least four digits.\<close>

definition year_text :: "int \<Rightarrow> string" where
  "year_text y =
     (let n = nat \<bar>y\<bar>; ds = (if n < 10000 then pad 4 n else dec n) in if y < 0 then CHR ''-'' # ds else ds)"

text \<open>The fraction of a second without its trailing zeros, with its dot; nothing for a whole second.\<close>

definition drop_zeros :: "string \<Rightarrow> string" where
  "drop_zeros ds = rev (dropWhile (\<lambda>c. c = CHR ''0'') (rev ds))"

definition frac_text :: "nat \<Rightarrow> string" where
  "frac_text ns = (if ns = 0 then [] else CHR ''.'' # drop_zeros (pad 9 ns))"

text \<open>\<open>t.UTC().Format(time.RFC3339Nano)\<close>.\<close>

definition Format_RFC3339Nano :: "time \<Rightarrow> string" where
  "Format_RFC3339Nano t =
     (let secs = t div 1000000000; ns = nat (t mod 1000000000); sod = nat (secs mod 86400)
      in case civil_of_days (secs div 86400 + unix_epoch_days) of (y, m, d) \<Rightarrow>
        year_text y @ ''-'' @ pad 2 m @ ''-'' @ pad 2 (nat d) @ ''T'' @ pad 2 (sod div 3600) @ '':'' @
        pad 2 (sod div 60 mod 60) @ '':'' @ pad 2 (sod mod 60) @ frac_text ns @ ''Z'')"

text \<open>The pieces of \<open>time.Parse\<close>: a number of \<open>k\<close> digits, one of one or two digits, a literal.\<close>

definition getnum :: "nat \<Rightarrow> string \<Rightarrow> (nat \<times> string) option" where
  "getnum k s = (if length s < k \<or> \<not> list_all isDigit (take k s) then None
     else Some (dec_value (take k s), drop k s))"

definition getnum12 :: "string \<Rightarrow> (nat \<times> string) option" where
  "getnum12 s = (case getnum 2 s of Some r \<Rightarrow> Some r | None \<Rightarrow> getnum 1 s)"

definition lit :: "char \<Rightarrow> string \<Rightarrow> string option" where
  "lit c s = (case s of x # xs \<Rightarrow> if x = c then Some xs else None | [] \<Rightarrow> None)"

definition guard :: "bool \<Rightarrow> unit option" where
  "guard b = (if b then Some () else None)"

text \<open>At most nine digits of a fraction count; a separator without a digit is left unread.\<close>

definition getfrac :: "string \<Rightarrow> nat \<times> string" where
  "getfrac s = (case s of
     c # x # xs \<Rightarrow>
       if (c = CHR ''.'' \<or> c = CHR '','') \<and> isDigit x
       then (let ds = takeWhile isDigit (x # xs); ds9 = take 9 ds
             in (dec_value (ds9 @ replicate (9 - length ds9) (CHR ''0'')), dropWhile isDigit (x # xs)))
       else (0, s)
   | _ \<Rightarrow> (0, s))"

text \<open>\<open>Z\<close>, or an offset of at most 24 hours and 60 minutes.\<close>

definition getzone :: "string \<Rightarrow> (int \<times> string) option" where
  "getzone s = (case s of
     [] \<Rightarrow> None
   | c # cs \<Rightarrow>
       if c = CHR ''Z'' then Some (0, cs)
       else if c = CHR ''+'' \<or> c = CHR ''-'' then do {
         (h, s) \<leftarrow> getnum 2 cs;
         s \<leftarrow> lit (CHR '':'') s;
         (m, s) \<leftarrow> getnum 2 s;
         guard (h \<le> 24 \<and> m \<le> 60);
         Some ((if c = CHR ''-'' then - 1 else 1) * int (h * 3600 + m * 60), s) }
       else None)"

definition parse_time :: "string \<Rightarrow> time option" where
  "parse_time s = do {
     (y, s) \<leftarrow> getnum 4 s;
     s \<leftarrow> lit (CHR ''-'') s;
     (m, s) \<leftarrow> getnum 2 s;
     guard (1 \<le> m \<and> m \<le> 12);
     s \<leftarrow> lit (CHR ''-'') s;
     (d, s) \<leftarrow> getnum 2 s;
     s \<leftarrow> lit (CHR ''T'') s;
     (h, s) \<leftarrow> getnum12 s;
     guard (h < 24);
     s \<leftarrow> lit (CHR '':'') s;
     (mi, s) \<leftarrow> getnum 2 s;
     guard (mi < 60);
     s \<leftarrow> lit (CHR '':'') s;
     (sec, s) \<leftarrow> getnum 2 s;
     guard (sec < 60);
     (ns, s) \<leftarrow> Some (getfrac s);
     (off, s) \<leftarrow> getzone s;
     guard (s = []);
     guard (1 \<le> d \<and> int d \<le> daysIn (leap (int y)) m);
     Some (instant (int y) m (int d) (int (h * 3600 + mi * 60 + sec) - off) (int ns)) }"

text \<open>\<open>time.Parse\<close> with the layouts \<open>RFC3339\<close> and \<open>RFC3339Nano\<close>, which accept the same texts.\<close>

definition Parse_RFC3339 :: "string \<Rightarrow> error + time" where
  "Parse_RFC3339 s = (case parse_time s of
     None \<Rightarrow> Inl (Errorf ''parsing time %q: cannot parse'' [s] None) | Some t \<Rightarrow> Inr t)"

text \<open>What is printed parses back.\<close>

lemma getnum_pad: "n < 10 ^ k \<Longrightarrow> getnum k (pad k n @ s) = Some (n, s)"
  by (simp add: getnum_def pad_digits dec_value_pad)

lemma getnum12_pad: "n < 100 \<Longrightarrow> getnum12 (pad 2 n @ s) = Some (n, s)"
  using getnum_pad[of n 2 s] by (simp add: getnum12_def)

lemma lit_same [simp]: "lit c (c # s) = Some s"
  by (simp add: lit_def)

lemma drop_zeros_pad: "drop_zeros ds @ replicate (length ds - length (drop_zeros ds)) (CHR ''0'') = ds"
proof -
  let ?r = "rev ds" and ?z = "\<lambda>c. c = CHR ''0''"
  have "takeWhile ?z xs = replicate (length (takeWhile ?z xs)) (CHR ''0'')" for xs
    by (induction xs) auto
  moreover have "length (takeWhile ?z ?r) = length ds - length (drop_zeros ds)"
    using takeWhile_dropWhile_id[of ?z ?r] unfolding drop_zeros_def
    by (metis add_diff_cancel_right' length_append length_rev)
  ultimately have "rev (takeWhile ?z ?r) = replicate (length ds - length (drop_zeros ds)) (CHR ''0'')"
    by (metis rev_replicate)
  then show ?thesis
    using takeWhile_dropWhile_id[of ?z ?r] unfolding drop_zeros_def by (metis rev_append rev_rev_ident)
qed

lemma length_drop_zeros: "length (drop_zeros ds) \<le> length ds"
  using length_dropWhile_le[of _ "rev ds"] by (simp add: drop_zeros_def)

lemma drop_zeros_digits: "list_all isDigit ds \<Longrightarrow> list_all isDigit (drop_zeros ds)"
  by (auto simp: drop_zeros_def list_all_iff dest: set_dropWhileD)

lemma drop_zeros_nonempty:
  assumes "dec_value ds \<noteq> 0"
  shows "drop_zeros ds \<noteq> []"
proof
  assume "drop_zeros ds = []"
  with drop_zeros_pad[of ds] have "ds = replicate (length ds) (CHR ''0'')" by simp
  moreover have "dec_value (replicate n (CHR ''0'')) = 0" for n
    by (induction n) (simp_all add: dec_value_def digit_val_def)
  ultimately show False using assms by metis
qed

lemma getfrac_frac_text: "ns < 10 ^ 9 \<Longrightarrow> getfrac (frac_text ns @ ''Z'') = (ns, ''Z'')"
proof (cases "ns = 0")
  case True
  then show ?thesis by (simp add: frac_text_def getfrac_def)
next
  case False
  assume ns: "ns < 10 ^ 9"
  let ?ds = "drop_zeros (pad 9 ns)"
  have val: "dec_value (pad 9 ns) = ns" using ns by (simp add: dec_value_pad)
  with False have ne: "?ds \<noteq> []" by (intro drop_zeros_nonempty) simp
  have dig: "list_all isDigit ?ds" by (intro drop_zeros_digits pad_digits)
  have len: "length ?ds \<le> 9" using length_drop_zeros[of "pad 9 ns"] by simp
  obtain x xs where x: "?ds = x # xs" using ne by (cases ?ds) auto
  have "takeWhile isDigit (?ds @ ''Z'') = ?ds" "dropWhile isDigit (?ds @ ''Z'') = ''Z''"
    using dig by (simp_all add: list_all_iff takeWhile_append2 dropWhile_append2)
  moreover have "dec_value (?ds @ replicate (9 - length ?ds) (CHR ''0'')) = ns"
    using drop_zeros_pad[of "pad 9 ns"] val by simp
  ultimately show ?thesis
    using False x dig len by (simp add: frac_text_def getfrac_def Let_def)
qed

lemma parse_Format:
  assumes "civil_of_days (t div 1000000000 div 86400 + unix_epoch_days) = (y, m, d)" and "0 \<le> y" and "y < 10000"
  shows "Parse_RFC3339 (Format_RFC3339Nano t) = Inr t"
proof -
  define secs ns sod where "secs = t div 1000000000" and "ns = nat (t mod 1000000000)" and "sod = nat (secs mod 86400)"
  note civil = civil_of_days_correct[OF assms(1)]
  define h mi se where "h = sod div 3600" and "mi = sod div 60 mod 60" and "se = sod mod 60"
  have bounds: "ns < 10 ^ 9" "h < 24" "mi < 60" "se < 60"
    by (auto simp: ns_def sod_def h_def mi_def se_def nat_less_iff less_mult_imp_div_less)
  have dd: "nat d < 100" "int (nat d) = d" "Suc 0 \<le> nat d" using civil daysIn_le[of m "leap y"] by auto
  have ym: "nat y < 10 ^ 4" "int (nat y) = y" "year_text y = pad 4 (nat y)" "m < 100"
    using assms(2,3) civil by (auto simp: year_text_def Let_def nat_less_iff)
  have "sod div 60 div 60 * 3600 + sod div 60 mod 60 * 60 + sod mod 60 =
      (sod div 60 div 60 * 60 + sod div 60 mod 60) * 60 + sod mod 60" by (simp only: distrib_right)
  then have "h * 3600 + mi * 60 + se = sod"
    by (simp add: h_def mi_def se_def div_mult2_eq[of sod 60 60, simplified])
  then have t: "instant y m d (int (h * 3600 + mi * 60 + se)) (int ns) = t"
    using civil by (simp add: instant_def sod_def secs_def ns_def)
  have "Format_RFC3339Nano t = pad 4 (nat y) @ CHR ''-'' # pad 2 m @ CHR ''-'' # pad 2 (nat d) @ CHR ''T'' #
      pad 2 h @ CHR '':'' # pad 2 mi @ CHR '':'' # pad 2 se @ (frac_text ns @ ''Z'')"
    using assms(1) ym(3) by (simp add: Format_RFC3339Nano_def Let_def secs_def ns_def sod_def h_def mi_def se_def)
  moreover have "parse_time \<dots> = Some t"
    using bounds dd ym civil t
    by (simp only: parse_time_def)
       (simp add: getnum_pad getnum12_pad guard_def getfrac_frac_text getzone_def del: pad.simps)
  ultimately show ?thesis by (simp add: Parse_RFC3339_def)
qed

section \<open>\<open>base64.RawURLEncoding\<close>\<close>

definition b64_alphabet :: string where
  "b64_alphabet = ''ABCDEFGHIJKLMNOPQRSTUVWXYZabcdefghijklmnopqrstuvwxyz0123456789-_''"

definition b64_char :: "nat \<Rightarrow> char" where
  "b64_char n = b64_alphabet ! n"

definition b64_val :: "char \<Rightarrow> nat option" where
  "b64_val c = (let n = (of_char c :: nat) in
     if 65 \<le> n \<and> n \<le> 90 then Some (n - 65) else if 97 \<le> n \<and> n \<le> 122 then Some (n - 71)
     else if 48 \<le> n \<and> n \<le> 57 then Some (n + 4) else if n = 45 then Some 62 else if n = 95 then Some 63 else None)"

text \<open>Three bytes are four digits; one or two bytes at the end are two or three digits.\<close>

fun b64_nums :: "string \<Rightarrow> nat list" where
  "b64_nums (a # b # c # cs) =
     (of_char a div 4) # (of_char a mod 4 * 16 + of_char b div 16) # (of_char b mod 16 * 4 + of_char c div 64) #
     (of_char c mod 64) # b64_nums cs"
| "b64_nums [a, b] = [of_char a div 4, of_char a mod 4 * 16 + of_char b div 16, of_char b mod 16 * 4]"
| "b64_nums [a] = [of_char a div 4, of_char a mod 4 * 16]"
| "b64_nums [] = []"

definition b64_encode :: "string \<Rightarrow> string" where
  "b64_encode s = map b64_char (b64_nums s)"

text \<open>The decoder drops the unused low bits of the last digit without looking at them.\<close>

fun b64_digits :: "nat list \<Rightarrow> string option" where
  "b64_digits (w # x # y # z # ds) =
     map_option (\<lambda>s. char_of (4 * w + x div 16) # char_of (x mod 16 * 16 + y div 4) # char_of (y mod 4 * 64 + z) # s)
       (b64_digits ds)"
| "b64_digits [w, x, y] = Some [char_of (4 * w + x div 16), char_of (x mod 16 * 16 + y div 4)]"
| "b64_digits [w, x] = Some [char_of (4 * w + x div 16)]"
| "b64_digits [w] = None"
| "b64_digits [] = Some []"

text \<open>\<open>DecodeString\<close>, which skips line breaks.\<close>

definition b64_decode :: "string \<Rightarrow> error + string" where
  "b64_decode s =
     (let cs = filter (\<lambda>c. c \<noteq> CHR 0x0A \<and> c \<noteq> CHR 0x0D) s; vs = map b64_val cs
      in case (if None \<in> set vs then None else b64_digits (map the vs)) of
           None \<Rightarrow> Inl (Driver ''illegal base64 data'') | Some t \<Rightarrow> Inr t)"

lemma b64_val_char: "n < 64 \<Longrightarrow> b64_val (b64_char n) = Some n"
proof -
  assume "n < 64"
  have "list_all (\<lambda>n. b64_val (b64_char n) = Some n) [0..<64]"
    by (simp add: upt_rec b64_char_def b64_alphabet_def b64_val_def)
  with \<open>n < 64\<close> show ?thesis by (simp add: list_all_iff)
qed

lemma b64_char_no_break: "n < 64 \<Longrightarrow> b64_char n \<noteq> CHR 0x0A \<and> b64_char n \<noteq> CHR 0x0D"
  using b64_val_char[of n] by (auto simp: b64_val_def)

lemma b64_nums_bound: "list_all (\<lambda>n. n < 64) (b64_nums s)"
proof -
  have "of_char x div 4 < (64 :: nat)" "of_char x mod 4 * 16 + of_char y div 16 < (64 :: nat)"
    "of_char y mod 16 * 4 + of_char z div 64 < (64 :: nat)" for x y z :: char
    using less_mult_imp_div_less[of "of_char y :: nat" 16 16] less_mult_imp_div_less[of "of_char z :: nat" 4 64]
      less_mult_imp_div_less[of "of_char x :: nat" 64 4]
      mod_less_divisor[of 4 "of_char x :: nat"] mod_less_divisor[of 16 "of_char y :: nat"] by simp_all
  then show ?thesis by (induction s rule: b64_nums.induct) simp_all
qed

lemma b64_digits_nums: "b64_digits (b64_nums s) = Some s"
proof -
  have q: "of_char x div 16 < (16 :: nat)" "of_char x div 64 < (4 :: nat)" for x :: char
    by (simp_all add: less_mult_imp_div_less)
  show ?thesis
    by (induction s rule: b64_nums.induct) (simp_all add: q div_less mod_less)
qed

lemma b64_roundtrip: "b64_decode (b64_encode s) = Inr s"
proof -
  have lt: "n < 64" if "n \<in> set (b64_nums s)" for n
    using b64_nums_bound[of s] that by (simp add: list_all_iff)
  have "filter (\<lambda>c. c \<noteq> CHR 0x0A \<and> c \<noteq> CHR 0x0D) (b64_encode s) = b64_encode s"
    using lt b64_char_no_break by (auto simp: b64_encode_def filter_id_conv)
  moreover have "map b64_val (b64_encode s) = map Some (b64_nums s)"
    using lt b64_val_char by (simp add: b64_encode_def)
  moreover have "None \<notin> set (map Some (b64_nums s))" "map the (map Some (b64_nums s)) = b64_nums s"
    by (auto simp: comp_def)
  ultimately show ?thesis
    unfolding b64_decode_def Let_def by (simp only: if_False b64_digits_nums option.case)
qed

section \<open>\<open>strings.Cut\<close>\<close>

text \<open>The text before and after the first separator.\<close>

definition Cut :: "string \<Rightarrow> char \<Rightarrow> (string \<times> string) option" where
  "Cut s sep = (if sep \<in> set s then Some (takeWhile (\<lambda>c. c \<noteq> sep) s, tl (dropWhile (\<lambda>c. c \<noteq> sep) s)) else None)"

lemma Cut_append: "sep \<notin> set a \<Longrightarrow> Cut (a @ sep # b) sep = Some (a, b)"
proof -
  assume "sep \<notin> set a"
  then have "takeWhile (\<lambda>c. c \<noteq> sep) (a @ sep # b) = a" "dropWhile (\<lambda>c. c \<noteq> sep) (a @ sep # b) = sep # b"
    by (induction a) auto
  then show ?thesis by (simp add: Cut_def)
qed

section \<open>\<open>time.RFC3339\<close>\<close>

text \<open>\<open>t.UTC().Format(time.RFC3339)\<close>, and the layout \<open>2006-01-02T15:04:05Z\<close>: no fraction of a second.\<close>

definition Format_RFC3339 :: "time \<Rightarrow> string" where
  "Format_RFC3339 t = Format_RFC3339Nano (1000000000 * (t div 1000000000))"

end
