(* ===== verification/Httpx.thy ===== *)
theory Httpx
  imports Pool Gostd
begin

text \<open>
  The HTTP helpers of \<^verbatim>\<open>internal/platform/httpx/httpx.go\<close>. A response body is kept as the JSON value that
  is encoded; a request carries the JSON value of its body, or the error of the decoder's syntax
  phase, and the mapping of that value to a Go struct (unknown fields, wrong types, case-insensitive
  names, \<open>null\<close>) is modelled here. Query parameters, path parameters and headers are functions that
  return the empty string for what is absent, as \<open>Get\<close> does.
\<close>

section \<open>JSON values\<close>

text \<open>
  \<open>JRaw\<close> is a \<open>json.RawMessage\<close>, JSON text that is passed through. \<open>JTime\<close> is an encoded \<open>time.Time\<close>; its text
  depends on the time zone of the process.
\<close>

datatype json =
    JNull
  | JBool bool
  | JNum int
  | JStr string
  | JRaw string
  | JTime time
  | JArr "json list"
  | JObj "(string \<times> json) list"

text \<open>A struct field with \<open>omitempty\<close>.\<close>

definition omit_empty :: "string \<Rightarrow> string \<Rightarrow> (string \<times> json) list" where
  "omit_empty name v = (if v = '''' then [] else [(name, JStr v)])"

text \<open>A \<open>*time.Time\<close> field with \<open>omitempty\<close>.\<close>

definition omit_nil :: "string \<Rightarrow> time option \<Rightarrow> (string \<times> json) list" where
  "omit_nil name v = (case v of None \<Rightarrow> [] | Some t \<Rightarrow> [(name, JTime t)])"

text \<open>A nil slice without \<open>omitempty\<close> is encoded as \<open>null\<close>, other slices as arrays.\<close>

definition slice_json :: "('a \<Rightarrow> json) \<Rightarrow> 'a list \<Rightarrow> json" where
  "slice_json f xs = (if xs = [] then JNull else JArr (map f xs))"

section \<open>Requests and responses\<close>

record request =
  req_query :: "string \<Rightarrow> string"
  req_param :: "string \<Rightarrow> string"
  req_header :: "string \<Rightarrow> string"
  req_body :: "error + json"

datatype body = NoBody | JSONBody json | Bytes string

record response =
  status :: int
  headers :: "(string \<times> string) list"
  rbody :: body

definition JSON :: "int \<Rightarrow> json \<Rightarrow> response" where
  "JSON st v = \<lparr>status = st, headers = [(''Content-Type'', ''application/json'')], rbody = JSONBody v\<rparr>"

definition Error :: "int \<Rightarrow> string \<Rightarrow> response" where
  "Error st msg = JSON st (JObj [(''error'', JStr msg)])"

abbreviation respond :: "response \<Rightarrow> (world, response) state" where
  "respond r \<equiv> State_Monad.return r"

abbreviation (input) "StatusOK \<equiv> 200 :: int"
abbreviation (input) "StatusCreated \<equiv> 201 :: int"
abbreviation (input) "StatusAccepted \<equiv> 202 :: int"
abbreviation (input) "StatusNoContent \<equiv> 204 :: int"
abbreviation (input) "StatusBadRequest \<equiv> 400 :: int"
abbreviation (input) "StatusUnauthorized \<equiv> 401 :: int"
abbreviation (input) "StatusNotFound \<equiv> 404 :: int"
abbreviation (input) "StatusConflict \<equiv> 409 :: int"
abbreviation (input) "StatusInternalServerError \<equiv> 500 :: int"

text \<open>The reply padma's handlers share: \<open>httpx.Error(w, http.StatusInternalServerError, err.Error())\<close>.\<close>

definition internal_error :: "error \<Rightarrow> (world, response) state" where
  "internal_error e = respond (Error StatusInternalServerError (error_text e))"

section \<open>Decoding a body into a struct\<close>

text \<open>
  The kinds of fields padma's request structs have. A decoded struct is the list of the values of
  its fields, in order.
\<close>

datatype field_kind = FString | FStrings

datatype field_value = VString string | VStrings "string list"

definition zero_value :: "field_kind \<Rightarrow> field_value" where
  "zero_value k = (case k of FString \<Rightarrow> VString [] | FStrings \<Rightarrow> VStrings [])"

primrec json_kind :: "json \<Rightarrow> string" where
  "json_kind JNull = ''null''"
| "json_kind (JBool b) = ''bool''"
| "json_kind (JNum n) = ''number''"
| "json_kind (JStr s) = ''string''"
| "json_kind (JRaw s) = ''raw''"
| "json_kind (JTime t) = ''string''"
| "json_kind (JArr xs) = ''array''"
| "json_kind (JObj kvs) = ''object''"

definition type_error :: "json \<Rightarrow> string \<Rightarrow> string \<Rightarrow> error" where
  "type_error v field ty =
     Errorf ''json: cannot unmarshal %s into Go struct field %s of type %s'' [json_kind v, field, ty] None"

text \<open>An element of a \<open>[]string\<close>; \<open>null\<close> leaves the zero value.\<close>

definition decode_element :: "string \<Rightarrow> json \<Rightarrow> error option \<times> string" where
  "decode_element field v = (case v of
     JStr s \<Rightarrow> (None, s) | JNull \<Rightarrow> (None, []) | _ \<Rightarrow> (Some (type_error v field ''string''), []))"

text \<open>One field: its new value and the error of a value that does not fit.\<close>

definition decode_field :: "string \<Rightarrow> json \<Rightarrow> field_value \<Rightarrow> error option \<times> field_value" where
  "decode_field field v old = (case old of
     VString s \<Rightarrow> (case v of
         JStr t \<Rightarrow> (None, VString t)
       | JNull \<Rightarrow> (None, VString s)
       | _ \<Rightarrow> (Some (type_error v field ''string''), VString s))
   | VStrings ss \<Rightarrow> (case v of
         JArr xs \<Rightarrow>
           (let rs = map (decode_element field) xs
            in (case List.map_filter fst rs of [] \<Rightarrow> None | e # _ \<Rightarrow> Some e, VStrings (map snd rs)))
       | JNull \<Rightarrow> (None, VStrings [])
       | _ \<Rightarrow> (Some (type_error v field ''[]string''), VStrings ss)))"

definition to_lower :: "char \<Rightarrow> char" where
  "to_lower c = (if 65 \<le> (of_char c :: nat) \<and> (of_char c :: nat) \<le> 90 then char_of ((of_char c :: nat) + 32) else c)"

text \<open>The index of the field a key names: an exact match first, then one that ignores case.\<close>

definition field_index :: "string list \<Rightarrow> string \<Rightarrow> nat option" where
  "field_index names key =
     (case find (\<lambda>i. names ! i = key) [0..<length names] of
        Some i \<Rightarrow> Some i
      | None \<Rightarrow> find (\<lambda>i. map to_lower (names ! i) = map to_lower key) [0..<length names])"

text \<open>The members of the object in order; the first error is kept and decoding goes on.\<close>

fun decode_members ::
    "string list \<Rightarrow> (string \<times> json) list \<Rightarrow> error option \<times> field_value list \<Rightarrow> error option \<times> field_value list" where
  "decode_members names [] acc = acc"
| "decode_members names ((k, v) # kvs) (err, vals) =
     (case field_index names k of
        None \<Rightarrow> decode_members names kvs
                  (coalesce2 err (Some (Errorf ''json: unknown field %q'' [k] None)), vals)
      | Some i \<Rightarrow> (case decode_field (names ! i) v (vals ! i) of
          (e, x) \<Rightarrow> decode_members names kvs (coalesce2 err e, vals[i := x])))"

definition DecodeJSON :: "request \<Rightarrow> (string \<times> field_kind) list \<Rightarrow> error + field_value list" where
  "DecodeJSON r flds =
     (let zero = map (zero_value \<circ> snd) flds
      in case req_body r of
           Inl e \<Rightarrow> Inl e
         | Inr v \<Rightarrow> (case v of
             JObj kvs \<Rightarrow> (case decode_members (map fst flds) kvs (None, zero) of
                (None, vals) \<Rightarrow> Inr vals | (Some e, _) \<Rightarrow> Inl e)
           | JNull \<Rightarrow> Inr zero
           | _ \<Rightarrow> Inl (Errorf ''json: cannot unmarshal %s into Go value'' [json_kind v] None)))"

definition str_field :: "field_value list \<Rightarrow> nat \<Rightarrow> string" where
  "str_field vals i = (case vals ! i of VString s \<Rightarrow> s | VStrings _ \<Rightarrow> [])"

definition strs_field :: "field_value list \<Rightarrow> nat \<Rightarrow> string list" where
  "strs_field vals i = (case vals ! i of VStrings ss \<Rightarrow> ss | VString _ \<Rightarrow> [])"

section \<open>Query parameters\<close>

definition QueryTime :: "request \<Rightarrow> string \<Rightarrow> error + time option" where
  "QueryTime r key =
     (let v = req_query r key in
      if v = '''' then Inr None
      else case Parse_RFC3339 v of Inl e \<Rightarrow> Inl e | Inr t \<Rightarrow> Inr (Some t))"

definition QueryInt :: "request \<Rightarrow> string \<Rightarrow> int \<Rightarrow> int" where
  "QueryInt r key def =
     (let v = req_query r key in
      if v = '''' then def else case Atoi v of Inl _ \<Rightarrow> def | Inr n \<Rightarrow> n)"

section \<open>What decoding guarantees\<close>

lemma length_decode_members: "length (snd (decode_members names kvs acc)) = length (snd acc)"
proof (induction names kvs acc rule: decode_members.induct)
  case (1 names acc)
  then show ?case by simp
next
  case (2 names k v kvs err vals)
  then show ?case by (auto split: option.splits prod.splits)
qed

lemma decode_members_keeps_error:
  "fst acc \<noteq> None \<Longrightarrow> fst (decode_members names kvs acc) \<noteq> None"
proof (induction names kvs acc rule: decode_members.induct)
  case (1 names acc)
  then show ?case by simp
next
  case (2 names k v kvs err vals)
  then show ?case by (auto split: option.splits prod.splits)
qed

text \<open>A body with a field the struct does not have is refused.\<close>

lemma decode_members_unknown:
  assumes "(k, v) \<in> set kvs" and "field_index names k = None"
  shows "fst (decode_members names kvs acc) \<noteq> None"
  using assms
proof (induction names kvs acc rule: decode_members.induct)
  case (1 names acc)
  then show ?case by simp
next
  case (2 names k' v' kvs err vals)
  show ?case
  proof (cases "k' = k")
    case True
    have "fst (decode_members names kvs (coalesce2 err (Some (Errorf ''json: unknown field %q'' [k] None)), vals)) \<noteq> None"
      by (rule decode_members_keeps_error) (cases err; simp)
    with True 2(4) show ?thesis by simp
  next
    case False
    with 2 show ?thesis by (auto split: option.splits prod.splits)
  qed
qed

end
