(* ===== verification/Merchant.thy ===== *)
theory Merchant
  imports Ids Httpx
begin

text \<open>
  The merchant backend's service, \<^verbatim>\<open>internal/merchant\<close>: orders backed by Fiber invoices
  (\<^verbatim>\<open>orders.go\<close>), keysend refunds (\<^verbatim>\<open>refunds.go\<close>), settlement and reconciliation (\<^verbatim>\<open>settlement.go\<close>)
  and the provisioning of merchants (\<^verbatim>\<open>provision.go\<close>). The node is the parameter record \<open>fiber_rpc\<close>:
  its answer to a call may depend on all calls made before, which the world records.
\<close>

section \<open>\<open>merchant.go\<close>\<close>

record invoice =
  in_PaymentHash :: string
  in_Address :: string

record fiber_rpc =
  node_NewInvoice :: "rpc_call list \<Rightarrow> new_invoice_params \<Rightarrow> error + invoice"
  node_SendPayment :: "rpc_call list \<Rightarrow> send_payment_params \<Rightarrow> error + string"

definition NewInvoice :: "fiber_rpc \<Rightarrow> new_invoice_params \<Rightarrow> invoice io" where
  "NewInvoice N p = State (\<lambda>w. (node_NewInvoice N (rpc_log w) p, w\<lparr>rpc_log := rpc_log w @ [CallNewInvoice p]\<rparr>))"

text \<open>Of the returned payment only the hash is read.\<close>

definition SendPayment :: "fiber_rpc \<Rightarrow> send_payment_params \<Rightarrow> string io" where
  "SendPayment N p = State (\<lambda>w. (node_SendPayment N (rpc_log w) p, w\<lparr>rpc_log := rpc_log w @ [CallSendPayment p]\<rparr>))"

record order =
  or_ID :: string
  or_MerchantID :: string
  or_ExternalOrderID :: string
  or_InvoicePaymentHash :: string
  or_Amount :: string
  or_Asset :: string
  or_Status :: string
  or_CreatedAt :: string
  or_PaidAt :: "string option"

record refund =
  re_ID :: string
  re_OrderID :: string
  re_Amount :: string
  re_Asset :: string
  re_Reason :: string
  re_Status :: string
  re_FiberPaymentHash :: string

record settlement_line =
  sl_Asset :: string
  sl_Gross :: string
  sl_Fees :: string
  sl_Net :: string
  sl_Period :: string

section \<open>\<open>orders.go\<close>\<close>

definition merchant_ErrNotFound :: error where
  "merchant_ErrNotFound = Sentinel ''merchant: not found''"

definition ErrInvalidState :: error where
  "ErrInvalidState = Sentinel ''merchant: invalid state for operation''"

text \<open>A scanned row; \<open>COALESCE\<close> is part of \<open>orderSelect\<close>.\<close>

definition scan_order :: "fibertypes \<Rightarrow> postgres \<Rightarrow> order_row \<Rightarrow> order" where
  "scan_order F P r = \<lparr>or_ID = o_id r, or_MerchantID = o_merchant_id r,
     or_ExternalOrderID = coalesce (o_external_order_id r) '''',
     or_InvoicePaymentHash = coalesce (o_invoice_payment_hash r) '''',
     or_Amount = (if nValid (scan_numeric P (o_amount r))
       then (case NumericToAmount F (scan_numeric P (o_amount r)) of Inl _ \<Rightarrow> '''' | Inr a \<Rightarrow> Hex F a) else ''''),
     or_Asset = coalesce (o_asset r) '''', or_Status = o_status r,
     or_CreatedAt = Format_RFC3339 (o_created_at r), or_PaidAt = map_option Format_RFC3339 (o_paid_at r)\<rparr>"

text \<open>\<open>scanOrder\<close> of the row a query for \<open>hit\<close> returns.\<close>

definition scanOrder :: "fibertypes \<Rightarrow> postgres \<Rightarrow> (order_row \<Rightarrow> bool) \<Rightarrow> order io" where
  "scanOrder F P hit = do {
     r \<leftarrow> pool_exec (on_schema 3 (\<lambda>_ d. case find hit (merchant_orders d) of
            None \<Rightarrow> Inl ErrNoRows | Some x \<Rightarrow> Inr (x, d)));
     case r of
       Inl e \<Rightarrow> if errors_Is e ErrNoRows then throw merchant_ErrNotFound
                else throw (Errorf ''merchant: scan order: %w'' [] (Some e))
     | Inr x \<Rightarrow> ok (scan_order F P x) }"

definition GetOrder :: "fibertypes \<Rightarrow> postgres \<Rightarrow> string \<Rightarrow> string \<Rightarrow> order io" where
  "GetOrder F P merchantID orderID = scanOrder F P (\<lambda>x. o_id x = orderID \<and> o_merchant_id x = merchantID)"

definition orderByExternalID :: "fibertypes \<Rightarrow> postgres \<Rightarrow> string \<Rightarrow> string \<Rightarrow> order io" where
  "orderByExternalID F P merchantID extID =
     scanOrder F P (\<lambda>x. o_merchant_id x = merchantID \<and> o_external_order_id x = Some extID)"

definition order_ins :: "string \<Rightarrow> string \<Rightarrow> string \<Rightarrow> string \<Rightarrow> amount \<Rightarrow> string \<Rightarrow> time \<Rightarrow> order_row" where
  "order_ins orderID merchantID extID hash amount asset now =
     \<lparr>o_id = orderID, o_merchant_id = merchantID, o_external_order_id = (if extID = '''' then None else Some extID),
      o_invoice_payment_hash = Some hash, o_amount = numeric_arg amount, o_asset = Some asset,
      o_status = ''pending'', o_created_at = now, o_paid_at = None\<rparr>"

text \<open>
  \<open>ON CONFLICT (merchant_id, external_order_id) DO NOTHING\<close>: NULLs do not conflict, and a conflict of
  the primary key or a missing merchant is an error.
\<close>

definition insert_order_stmt :: "(time \<Rightarrow> order_row) \<Rightarrow> unit stmt" where
  "insert_order_stmt row = on_schema 3 (\<lambda>now d.
     let x = row now in
     if order_ext_key x \<noteq> None \<and> order_ext_key x \<in> order_ext_key ` set (merchant_orders d) then Inr ((), d)
     else if o_id x \<in> o_id ` set (merchant_orders d) then Inl duplicate_key
     else if o_merchant_id x \<notin> m_id ` set (merchants d) then Inl undefined_key
     else Inr ((), d\<lparr>merchant_orders := merchant_orders d @ [x]\<rparr>))"

text \<open>The insert, the check for a concurrent winner and the final read, after the invoice exists.\<close>

definition place_order ::
    "fibertypes \<Rightarrow> postgres \<Rightarrow> string \<Rightarrow> string \<Rightarrow> amount \<Rightarrow> string \<Rightarrow> invoice \<Rightarrow> (order \<times> invoice) io" where
  "place_order F P merchantID extID amount asset iv = do {
     orderID \<leftarrow> id_New;
     r \<leftarrow> pool_exec (insert_order_stmt (order_ins orderID merchantID extID (in_PaymentHash iv) amount asset));
     case r of
       Inl e \<Rightarrow> throw (Errorf ''merchant: insert order: %w'' [] (Some e))
     | Inr _ \<Rightarrow> do {
         ex \<leftarrow> (if extID \<noteq> '''' then orderByExternalID F P merchantID extID else throw merchant_ErrNotFound);
         case ex of
           Inr existing \<Rightarrow> ok (existing, iv)
         | Inl _ \<Rightarrow> do {
             g \<leftarrow> GetOrder F P merchantID orderID;
             case g of Inl e \<Rightarrow> throw e | Inr ord \<Rightarrow> ok (ord, iv) } } }"

definition mint_order ::
    "fibertypes \<Rightarrow> postgres \<Rightarrow> fiber_rpc \<Rightarrow> string \<Rightarrow> string \<Rightarrow> amount \<Rightarrow> string \<Rightarrow> (order \<times> invoice) io" where
  "mint_order F P N merchantID extID amount asset = do {
     r \<leftarrow> NewInvoice N \<lparr>nip_Amount = amount, nip_Description = ''order '' @ extID\<rparr>;
     case r of
       Inl e \<Rightarrow> throw (Errorf ''merchant: new invoice: %w'' [] (Some e))
     | Inr iv \<Rightarrow> place_order F P merchantID extID amount asset iv }"

definition CreateOrder ::
    "fibertypes \<Rightarrow> postgres \<Rightarrow> fiber_rpc \<Rightarrow> string \<Rightarrow> string \<Rightarrow> string \<Rightarrow> string \<Rightarrow> (order \<times> invoice) io" where
  "CreateOrder F P N merchantID extID amountHex asset0 =
     (case ParseAmount F amountHex of
        (_, Some m) \<Rightarrow> throw (Errorf ''%w: amount: %s'' [m] (Some ErrInvalidState))
      | (amount, None) \<Rightarrow>
          (let asset = (if asset0 = '''' then ''CKB'' else asset0) in
           if extID = '''' then mint_order F P N merchantID extID amount asset
           else do {
             r \<leftarrow> orderByExternalID F P merchantID extID;
             case r of
               Inr existing \<Rightarrow> ok (existing, \<lparr>in_PaymentHash = or_InvoicePaymentHash existing, in_Address = ''''\<rparr>)
             | Inl e \<Rightarrow> if errors_Is e merchant_ErrNotFound then mint_order F P N merchantID extID amount asset
                       else throw e }))"

section \<open>\<open>refunds.go\<close>\<close>

definition payerPubkey :: "string \<Rightarrow> string io" where
  "payerPubkey paymentHash = do {
     r \<leftarrow> pool_exec (on_schema 1 (\<lambda>_ d. case lookup_row pay_hash paymentHash (payments d) of
            None \<Rightarrow> Inl ErrNoRows | Some p \<Rightarrow> Inr (pay_peer p, d)));
     let none = Errorf ''%w: no payer pubkey captured for this order'' [] (Some ErrInvalidState);
     case r of
       Inl e \<Rightarrow> if errors_Is e ErrNoRows then throw none
                else throw (Errorf ''merchant: lookup payer: %w'' [] (Some e))
     | Inr peer \<Rightarrow> (case peer of None \<Rightarrow> throw none | Some s \<Rightarrow> if s = '''' then throw none else ok s) }"

definition refund_ins :: "string \<Rightarrow> string \<Rightarrow> amount \<Rightarrow> string \<Rightarrow> string \<Rightarrow> string \<Rightarrow> time \<Rightarrow> refund_row" where
  "refund_ins refundID orderID amount asset reason hash now =
     \<lparr>rf_id = refundID, rf_order_id = orderID, rf_amount = numeric_arg amount, rf_asset = Some asset,
      rf_reason = Some reason, rf_status = Some ''sent'', rf_fiber_payment_hash = Some hash, rf_created_at = now\<rparr>"

definition insert_refund_stmt :: "(time \<Rightarrow> refund_row) \<Rightarrow> unit stmt" where
  "insert_refund_stmt row = on_schema 3 (\<lambda>now d.
     let x = row now in
     if rf_id x \<in> rf_id ` set (refunds d) then Inl duplicate_key
     else if rf_order_id x \<notin> o_id ` set (merchant_orders d) then Inl undefined_key
     else Inr ((), d\<lparr>refunds := refunds d @ [x]\<rparr>))"

definition mark_refunded_stmt :: "string \<Rightarrow> unit stmt" where
  "mark_refunded_stmt orderID = on_schema 3 (\<lambda>_ d.
     Inr ((), d\<lparr>merchant_orders :=
       update_where (\<lambda>x. o_id x = orderID) (\<lambda>x. x\<lparr>o_status := ''refunded''\<rparr>) (merchant_orders d)\<rparr>))"

text \<open>The two statements that record a refund that has been sent.\<close>

definition record_refund ::
    "fibertypes \<Rightarrow> string \<Rightarrow> amount \<Rightarrow> string \<Rightarrow> string \<Rightarrow> string \<Rightarrow> refund io" where
  "record_refund F orderID amount asset reason hash = do {
     refundID \<leftarrow> id_New;
     r \<leftarrow> pool_exec (insert_refund_stmt (refund_ins refundID orderID amount asset reason hash));
     case r of
       Inl e \<Rightarrow> throw (Errorf ''merchant: insert refund: %w'' [] (Some e))
     | Inr _ \<Rightarrow> do {
         s \<leftarrow> pool_exec (mark_refunded_stmt orderID);
         case s of
           Inl e \<Rightarrow> throw (Errorf ''merchant: mark order refunded: %w'' [] (Some e))
         | Inr _ \<Rightarrow> ok \<lparr>re_ID = refundID, re_OrderID = orderID, re_Amount = Hex F amount, re_Asset = asset,
             re_Reason = reason, re_Status = ''sent'', re_FiberPaymentHash = hash\<rparr> } }"

definition Refund ::
    "fibertypes \<Rightarrow> postgres \<Rightarrow> fiber_rpc \<Rightarrow> string \<Rightarrow> string \<Rightarrow> string \<Rightarrow> string \<Rightarrow> refund io" where
  "Refund F P N merchantID orderID amountHex reason = do {
     r \<leftarrow> GetOrder F P merchantID orderID;
     case r of
       Inl e \<Rightarrow> throw e
     | Inr ord \<Rightarrow>
         if or_Status ord \<noteq> ''paid''
         then throw (Errorf ''%w: order status is %q, must be paid'' [or_Status ord] (Some ErrInvalidState))
         else (case ParseAmount F amountHex of
           (_, Some m) \<Rightarrow> throw (Errorf ''%w: amount: %s'' [m] (Some ErrInvalidState))
         | (amount, None) \<Rightarrow> do {
             p \<leftarrow> payerPubkey (or_InvoicePaymentHash ord);
             case p of
               Inl e \<Rightarrow> throw e
             | Inr payer \<Rightarrow> do {
                 s \<leftarrow> SendPayment N \<lparr>spp_TargetPubkey = payer, spp_Amount = amount, spp_Keysend = True\<rparr>;
                 case s of
                   Inl e \<Rightarrow> throw (Errorf ''merchant: send refund: %w'' [] (Some e))
                 | Inr hash \<Rightarrow> record_refund F orderID amount (or_Asset ord) reason hash } }) }"

section \<open>\<open>settlement.go\<close>\<close>

definition mustAmount :: "fibertypes \<Rightarrow> numeric \<Rightarrow> amount" where
  "mustAmount F n = (case NumericToAmount F n of Inl _ \<Rightarrow> fst (ParseAmount F ''0x0'') | Inr a \<Rightarrow> a)"

text \<open>\<open>a, _ := fibertypes.ParseAmount("0x" + v.Text(16))\<close>.\<close>

definition parse_big :: "fibertypes \<Rightarrow> int \<Rightarrow> amount" where
  "parse_big F v = fst (ParseAmount F (''0x'' @ Text16 v))"

text \<open>The orders of a merchant that were paid in a period, and the refunds of an order.\<close>

definition paid_in :: "postgres \<Rightarrow> string \<Rightarrow> string \<Rightarrow> order_row \<Rightarrow> bool" where
  "paid_in P merchantID period x \<longleftrightarrow>
     o_merchant_id x = merchantID \<and> (case o_paid_at x of None \<Rightarrow> False | Some t \<Rightarrow> to_char_month P t = period)"

definition refunded :: "db \<Rightarrow> order_row \<Rightarrow> int option" where
  "refunded d x = sql_sum (map rf_amount (filter (\<lambda>r. rf_order_id r = o_id x) (refunds d)))"

definition settlement_asset :: "order_row \<Rightarrow> string" where
  "settlement_asset x = coalesce (o_asset x) ''CKB''"

text \<open>The query: per asset the sum of the orders and of their refunds, sorted by asset.\<close>

definition settlement_rows :: "postgres \<Rightarrow> string \<Rightarrow> string \<Rightarrow> db \<Rightarrow> (string \<times> int \<times> int) list" where
  "settlement_rows P merchantID period d =
     (let hits = filter (paid_in P merchantID period) (merchant_orders d)
      in map (\<lambda>a. let grp = filter (\<lambda>x. settlement_asset x = a) hits
                  in (a, coalesce (sql_sum (map o_amount grp)) 0, coalesce (sql_sum (map (refunded d) grp)) 0))
           (sort_by (collate_le P) (remdups (map settlement_asset hits))))"

definition settlement_line_of :: "fibertypes \<Rightarrow> postgres \<Rightarrow> string \<Rightarrow> string \<times> int \<times> int \<Rightarrow> settlement_line" where
  "settlement_line_of F P period = (\<lambda>(asset, gross, fees).
     let grossA = mustAmount F (numeric_of P gross);
         feesA = mustAmount F (numeric_of P fees);
         net = int grossA - int feesA;
         netA = parse_big F (if net < 0 then 0 else net)
     in \<lparr>sl_Asset = asset, sl_Gross = Hex F grossA, sl_Fees = Hex F feesA, sl_Net = Hex F netA, sl_Period = period\<rparr>)"

definition insert_settlement_stmt :: "(time \<Rightarrow> settlement_row) \<Rightarrow> unit stmt" where
  "insert_settlement_stmt row = on_schema 3 (\<lambda>now d.
     if st_id (row now) \<in> st_id ` set (settlements d) then Inl duplicate_key
     else Inr ((), d\<lparr>settlements := settlements d @ [row now]\<rparr>))"

definition persist_settlement :: "fibertypes \<Rightarrow> string \<Rightarrow> string \<Rightarrow> settlement_line \<Rightarrow> unit io" where
  "persist_settlement F merchantID period l = do {
     let g = fst (ParseAmount F (sl_Gross l));
     let f = fst (ParseAmount F (sl_Fees l));
     let n = fst (ParseAmount F (sl_Net l));
     sid \<leftarrow> id_New;
     r \<leftarrow> pool_exec (insert_settlement_stmt (\<lambda>now. \<lparr>st_id = sid, st_merchant_id = merchantID, st_period = period,
            st_gross = int g, st_fees = int f, st_net = int n, st_asset = sl_Asset l, st_status = ''generated'',
            st_generated_at = now\<rparr>));
     case r of
       Inl e \<Rightarrow> throw (Errorf ''merchant: persist settlement: %w'' [] (Some e))
     | Inr _ \<Rightarrow> ok () }"

definition Settlement :: "fibertypes \<Rightarrow> postgres \<Rightarrow> string \<Rightarrow> string \<Rightarrow> settlement_line list io" where
  "Settlement F P merchantID period = do {
     r \<leftarrow> pool_query (on_schema 3 (\<lambda>_ d. Inr (settlement_rows P merchantID period d, d)))
            (\<lambda>e. Errorf ''merchant: settlement query: %w'' [] (Some e));
     case r of
       Inl e \<Rightarrow> throw e
     | Inr rows \<Rightarrow> do {
         let out = map (settlement_line_of F P period) rows;
         s \<leftarrow> for_each (persist_settlement F merchantID period) out;
         case s of Inl e \<Rightarrow> throw e | Inr _ \<Rightarrow> ok out } }"

text \<open>Whether the \<open>LEFT JOIN\<close> finds a payment for the order.\<close>

definition has_payment :: "db \<Rightarrow> order_row \<Rightarrow> bool" where
  "has_payment d x \<longleftrightarrow>
     (case o_invoice_payment_hash x of None \<Rightarrow> False | Some h \<Rightarrow> lookup_row pay_hash h (payments d) \<noteq> None)"

definition reconcile_rows :: "postgres \<Rightarrow> string \<Rightarrow> string \<Rightarrow> db \<Rightarrow> (string \<times> bool \<times> int) list" where
  "reconcile_rows P merchantID period d =
     map (\<lambda>x. (o_id x, has_payment d x, coalesce (o_amount x) 0))
       (filter (paid_in P merchantID period) (merchant_orders d))"

text \<open>The loop over the rows: \<open>rec\<close> and \<open>discrepancy\<close>.\<close>

fun reconcile_loop ::
    "fibertypes \<Rightarrow> postgres \<Rightarrow> (string \<times> bool \<times> int) list \<Rightarrow> reconciliation \<times> int \<Rightarrow> reconciliation \<times> int" where
  "reconcile_loop F P [] acc = acc"
| "reconcile_loop F P ((orderID, matched, amount) # rows) (rc, disc) =
     reconcile_loop F P rows
       (if matched then (rc\<lparr>rec_Matched := rec_Matched rc + 1\<rparr>, disc)
        else (rc\<lparr>rec_UnmatchedCount := rec_UnmatchedCount rc + 1, rec_UnmatchedOrders := rec_UnmatchedOrders rc @ [orderID]\<rparr>,
              disc + int (mustAmount F (numeric_of P amount))))"

definition insert_run_stmt :: "(time \<Rightarrow> reconciliation_row) \<Rightarrow> unit stmt" where
  "insert_run_stmt row = on_schema 3 (\<lambda>now d.
     if rc_id (row now) \<in> rc_id ` set (reconciliation_runs d) then Inl duplicate_key
     else Inr ((), d\<lparr>reconciliation_runs := reconciliation_runs d @ [row now]\<rparr>))"

definition Reconciliation :: "fibertypes \<Rightarrow> postgres \<Rightarrow> string \<Rightarrow> string \<Rightarrow> reconciliation io" where
  "Reconciliation F P merchantID period = do {
     r \<leftarrow> pool_query (on_schema 3 (\<lambda>_ d. Inr (reconcile_rows P merchantID period d, d)))
            (\<lambda>e. Errorf ''merchant: reconcile query: %w'' [] (Some e));
     case r of
       Inl e \<Rightarrow> throw e
     | Inr rows \<Rightarrow> do {
         let (rc0, disc) = reconcile_loop F P rows (\<lparr>rec_Period = period, rec_Matched = 0, rec_UnmatchedCount = 0,
           rec_DiscrepancyTotal = '''', rec_UnmatchedOrders = []\<rparr>, 0);
         let discA = parse_big F disc;
         let rc = rc0\<lparr>rec_DiscrepancyTotal := Hex F discA\<rparr>;
         rid \<leftarrow> id_New;
         s \<leftarrow> pool_exec (insert_run_stmt (\<lambda>now. \<lparr>rc_id = rid, rc_merchant_id = merchantID, rc_period = period,
                rc_matched = rec_Matched rc, rc_unmatched_count = rec_UnmatchedCount rc,
                rc_discrepancy_total = int discA, rc_report = rc, rc_created_at = now\<rparr>));
         case s of
           Inl e \<Rightarrow> throw (Errorf ''merchant: persist reconciliation: %w'' [] (Some e))
         | Inr _ \<Rightarrow> ok rc } }"

section \<open>\<open>provision.go\<close>\<close>

definition insert_merchant_stmt :: "(time \<Rightarrow> merchant_row) \<Rightarrow> unit stmt" where
  "insert_merchant_stmt row = on_schema 3 (\<lambda>now d.
     if m_id (row now) \<in> m_id ` set (merchants d) then Inl duplicate_key
     else Inr ((), d\<lparr>merchants := merchants d @ [row now]\<rparr>))"

definition Provision :: "string \<Rightarrow> string \<Rightarrow> (string \<times> string) io" where
  "Provision name settlementAsset0 = do {
     merchantID \<leftarrow> id_New;
     (apiKey, hash) \<leftarrow> NewAPIKey;
     let settlementAsset = (if settlementAsset0 = '''' then ''CKB'' else settlementAsset0);
     r \<leftarrow> pool_exec (insert_merchant_stmt (\<lambda>now. \<lparr>m_id = merchantID, m_name = name, m_api_key_hash = hash,
            m_settlement_asset = settlementAsset, m_created_at = now\<rparr>));
     case r of
       Inl e \<Rightarrow> throw (Errorf ''merchant: provision: %w'' [] (Some e))
     | Inr _ \<Rightarrow> ok (merchantID, apiKey) }"

end
