(* ===== verification/Csv.thy ===== *)
theory Csv
  imports Main
begin

text \<open>
  The part of Go's \<open>encoding/csv\<close> that the accounting export uses: a \<open>csv.Writer\<close> with its default
  settings (comma, no CRLF), on strings as sequences of bytes. A reader of the format as RFC 4180
  describes it is the reference, and what is written reads back.
\<close>

section \<open>\<open>csv.Writer\<close>\<close>

abbreviation quote :: char where "quote \<equiv> CHR 0x22"
abbreviation newline :: char where "newline \<equiv> CHR 0x0A"
abbreviation carriage :: char where "carriage \<equiv> CHR 0x0D"

text \<open>\<open>unicode.IsSpace\<close> of the first rune, on its UTF-8 bytes.\<close>

definition leading_space :: "string \<Rightarrow> bool" where
  "leading_space s =
     (case map of_char s :: nat list of
        [] \<Rightarrow> False
      | a # as \<Rightarrow>
          a \<in> {9, 10, 11, 12, 13, 32} \<or>
          (case as of
             [] \<Rightarrow> False
           | b # bs \<Rightarrow>
               a = 0xC2 \<and> b \<in> {0x85, 0xA0} \<or>
               (case bs of
                  [] \<Rightarrow> False
                | c # _ \<Rightarrow>
                    a = 0xE1 \<and> b = 0x9A \<and> c = 0x80 \<or>
                    a = 0xE2 \<and> b = 0x80 \<and> (0x80 \<le> c \<and> c \<le> 0x8A \<or> c \<in> {0xA8, 0xA9, 0xAF}) \<or>
                    a = 0xE2 \<and> b = 0x81 \<and> c = 0x9F \<or>
                    a = 0xE3 \<and> b = 0x80 \<and> c = 0x80)))"

definition fieldNeedsQuotes :: "string \<Rightarrow> bool" where
  "fieldNeedsQuotes s \<longleftrightarrow>
     s \<noteq> [] \<and> (s = [CHR 0x5C, CHR ''.''] \<or>
       list_ex (\<lambda>c. c = newline \<or> c = carriage \<or> c = quote \<or> c = CHR '','') s \<or> leading_space s)"

definition escape :: "string \<Rightarrow> string" where
  "escape s = concat (map (\<lambda>c. if c = quote then [quote, quote] else [c]) s)"

definition write_field :: "string \<Rightarrow> string" where
  "write_field s = (if fieldNeedsQuotes s then quote # escape s @ [quote] else s)"

fun write_fields :: "string list \<Rightarrow> string" where
  "write_fields [] = []"
| "write_fields [x] = write_field x"
| "write_fields (x # xs) = write_field x @ CHR '','' # write_fields xs"

definition write_record :: "string list \<Rightarrow> string" where
  "write_record r = write_fields r @ [newline]"

section \<open>A reader\<close>

text \<open>
  The reader is a state machine over the bytes: at the start of a field, inside a plain or a quoted
  field, or after a quote inside a quoted field. It keeps the reversed field and record read so far.
\<close>

datatype mode = Start | Plain | Quoted | Closing

fun read_csv :: "mode \<Rightarrow> string \<Rightarrow> string list \<Rightarrow> string \<Rightarrow> string list list option" where
  "read_csv m fld rcd [] = (if m = Start \<and> fld = [] \<and> rcd = [] then Some [] else None)"
| "read_csv m fld rcd (c # cs) =
     (if m = Quoted then
        (if c = quote then read_csv Closing fld rcd cs else read_csv Quoted (c # fld) rcd cs)
      else if m = Closing \<and> c = quote then read_csv Quoted (c # fld) rcd cs
      else if c = CHR '','' then read_csv Start [] (rev fld # rcd) cs
      else if c = newline then map_option ((#) (rev (rev fld # rcd))) (read_csv Start [] [] cs)
      else if m = Closing then None
      else if c = quote then (if m = Start then read_csv Quoted [] rcd cs else None)
      else read_csv Plain (c # fld) rcd cs)"

section \<open>What is written reads back\<close>

lemma read_quoted:
  "read_csv Quoted fld rcd (escape s @ quote # cs) = read_csv Closing (rev s @ fld) rcd cs"
  by (induction s arbitrary: fld) (simp_all add: escape_def)

lemma read_plain:
  assumes "\<forall>c \<in> set s. c \<noteq> newline \<and> c \<noteq> quote \<and> c \<noteq> CHR '',''" and "m = Start \<or> m = Plain" and "s \<noteq> []"
  shows "read_csv m fld rcd (s @ cs) = read_csv Plain (rev s @ fld) rcd cs"
  using assms
proof (induction s arbitrary: m fld)
  case Nil
  then show ?case by simp
next
  case (Cons c s)
  then have step: "read_csv m fld rcd (c # s @ cs) = read_csv Plain (c # fld) rcd (s @ cs)" by auto
  show ?case
  proof (cases "s = []")
    case False
    with Cons.prems Cons.IH[of Plain "c # fld"] step show ?thesis by simp
  qed (use step in simp)
qed

text \<open>After a field the reader is in a mode in which a separator ends it.\<close>

lemma read_field:
  obtains m where "m \<noteq> Quoted" "\<And>rcd cs. read_csv Start [] rcd (write_field s @ cs) = read_csv m (rev s) rcd cs"
proof (cases "fieldNeedsQuotes s")
  case True
  then have "read_csv Start [] rcd (write_field s @ cs) = read_csv Closing (rev s) rcd cs" for rcd cs
    by (simp add: write_field_def read_quoted)
  then show ?thesis using that[of Closing] by simp
next
  case False
  show ?thesis
  proof (cases "s = []")
    case True
    then show ?thesis using that[of Start] by (simp add: write_field_def fieldNeedsQuotes_def)
  next
    case nonempty: False
    with False have "\<forall>c \<in> set s. c \<noteq> newline \<and> c \<noteq> quote \<and> c \<noteq> CHR '',''"
      by (auto simp: fieldNeedsQuotes_def list_ex_iff)
    with False nonempty have "read_csv Start [] rcd (write_field s @ cs) = read_csv Plain (rev s) rcd cs" for rcd cs
      by (simp add: write_field_def read_plain)
    then show ?thesis using that[of Plain] by simp
  qed
qed

lemma read_fields:
  assumes "r \<noteq> []"
  shows "read_csv Start [] rcd (write_fields r @ newline # cs) =
    map_option ((#) (rev rcd @ r)) (read_csv Start [] [] cs)"
  using assms
proof (induction r arbitrary: rcd rule: write_fields.induct)
  case 1
  then show ?case by simp
next
  case (2 x)
  obtain m where m: "m \<noteq> Quoted"
    "\<And>rcd cs. read_csv Start [] rcd (write_field x @ cs) = read_csv m (rev x) rcd cs" using read_field[of x] by blast
  then show ?case by (cases m) simp_all
next
  case (3 x y ys)
  obtain m where m: "m \<noteq> Quoted"
    "\<And>rcd cs. read_csv Start [] rcd (write_field x @ cs) = read_csv m (rev x) rcd cs" using read_field[of x] by blast
  then have "read_csv Start [] rcd (write_fields (x # y # ys) @ newline # cs) =
      read_csv Start [] (x # rcd) (write_fields (y # ys) @ newline # cs)"
    by (cases m) simp_all
  with 3 show ?case by simp
qed

lemma read_records:
  "\<forall>r \<in> set rs. r \<noteq> [] \<Longrightarrow> read_csv Start [] [] (concat (map write_record rs)) = Some rs"
  by (induction rs) (simp_all add: write_record_def read_fields)

end
