(* ===== verification/Accounting.thy ===== *)
theory Accounting
  imports Merchant Csv
begin

text \<open>
  The accounting export of \<^verbatim>\<open>internal/merchant/export.go\<close>: the query, the CSV rendering, and the cells
  that are handed to the spreadsheet library, whose two fallible calls are the parameter \<open>excelize\<close>.
\<close>

definition exportHeader :: "string list" where
  "exportHeader = [''order_id'', ''external_order_id'', ''asset'', ''amount'', ''status'', ''paid_at'', ''refund_amount'']"

record export_row =
  x_OrderID :: string
  x_ExternalID :: string
  x_Asset :: string
  x_Amount :: string
  x_Status :: string
  x_PaidAt :: string
  x_RefundAmount :: string

definition cells :: "export_row \<Rightarrow> string list" where
  "cells r = [x_OrderID r, x_ExternalID r, x_Asset r, x_Amount r, x_Status r, x_PaidAt r, x_RefundAmount r]"

definition buildCSV :: "export_row list \<Rightarrow> string" where
  "buildCSV rows = write_record exportHeader @ concat (map (\<lambda>r. write_record (cells r)) rows)"

text \<open>A cell is its (column, row) pair, from 1, and its value.\<close>

type_synonym cell = "(nat \<times> nat) \<times> string"

record excelize =
  NewSheet :: "error option"
  WriteToBuffer :: "string \<Rightarrow> cell list \<Rightarrow> error + string"

definition row_cells :: "nat \<Rightarrow> string list \<Rightarrow> cell list" where
  "row_cells i vs = map (\<lambda>(c, v). ((c + 1, i), v)) (List.enumerate 0 vs)"

definition sheet_cells :: "export_row list \<Rightarrow> cell list" where
  "sheet_cells rows = row_cells 1 exportHeader @ concat (map (\<lambda>(i, r). row_cells (i + 2) (cells r)) (List.enumerate 0 rows))"

definition buildXLSX :: "excelize \<Rightarrow> export_row list \<Rightarrow> error + string" where
  "buildXLSX X rows =
     (case NewSheet X of
        Some e \<Rightarrow> Inl (Errorf ''merchant: xlsx sheet: %w'' [] (Some e))
      | None \<Rightarrow> (case WriteToBuffer X ''Orders'' (sheet_cells rows) of
          Inl e \<Rightarrow> Inl (Errorf ''merchant: xlsx write: %w'' [] (Some e))
        | Inr b \<Rightarrow> Inr b))"

text \<open>The rows of the query, \<open>ORDER BY o.paid_at\<close>: the order and the sum of its refunds.\<close>

definition paid_before :: "order_row \<times> int \<Rightarrow> order_row \<times> int \<Rightarrow> bool" where
  "paid_before = (\<lambda>(x, _) (y, _). case (o_paid_at x, o_paid_at y) of
     (Some a, Some b) \<Rightarrow> a \<le> b | (None, Some _) \<Rightarrow> False | _ \<Rightarrow> True)"

definition export_query :: "postgres \<Rightarrow> string \<Rightarrow> string \<Rightarrow> db \<Rightarrow> (order_row \<times> int) list" where
  "export_query P merchantID period d =
     sort_by paid_before (map (\<lambda>x. (x, coalesce (refunded d x) 0))
       (filter (paid_in P merchantID period) (merchant_orders d)))"

definition export_row_of :: "fibertypes \<Rightarrow> postgres \<Rightarrow> order_row \<times> int \<Rightarrow> export_row" where
  "export_row_of F P = (\<lambda>(x, refund).
     \<lparr>x_OrderID = o_id x, x_ExternalID = coalesce (o_external_order_id x) '''', x_Asset = coalesce (o_asset x) '''',
      x_Amount = Hex F (mustAmount F (scan_numeric P (o_amount x))), x_Status = o_status x,
      x_PaidAt = (case o_paid_at x of None \<Rightarrow> '''' | Some t \<Rightarrow> Format_RFC3339 t),
      x_RefundAmount = Hex F (mustAmount F (numeric_of P refund))\<rparr>)"

definition exportRows :: "fibertypes \<Rightarrow> postgres \<Rightarrow> string \<Rightarrow> string \<Rightarrow> export_row list io" where
  "exportRows F P merchantID period = do {
     r \<leftarrow> pool_query (on_schema 3 (\<lambda>_ d. Inr (export_query P merchantID period d, d)))
            (\<lambda>e. Errorf ''merchant: export query: %w'' [] (Some e));
     case r of Inl e \<Rightarrow> throw e | Inr rows \<Rightarrow> ok (map (export_row_of F P) rows) }"

definition Export ::
    "fibertypes \<Rightarrow> postgres \<Rightarrow> excelize \<Rightarrow> string \<Rightarrow> string \<Rightarrow> string \<Rightarrow> (string \<times> string \<times> string) io" where
  "Export F P X merchantID period format = do {
     r \<leftarrow> exportRows F P merchantID period;
     case r of
       Inl e \<Rightarrow> throw e
     | Inr rows \<Rightarrow>
         if format = '''' \<or> format = ''csv'' then ok (''settlement-'' @ period @ ''.csv'', ''text/csv'', buildCSV rows)
         else if format = ''xlsx'' then
           (case buildXLSX X rows of
              Inl e \<Rightarrow> throw e
            | Inr b \<Rightarrow> ok (''settlement-'' @ period @ ''.xlsx'',
                ''application/vnd.openxmlformats-officedocument.spreadsheetml.sheet'', b))
         else throw (Errorf ''%w: format %q (want csv|xlsx)'' [format] (Some ErrInvalidState)) }"

end
