(* ===== verification/Merchant_Http.thy ===== *)
theory Merchant_Http
  imports Accounting
begin

text \<open>
  The merchant endpoints of \<^verbatim>\<open>internal/merchant/handlers.go\<close>: API-key authentication, the handlers, and
  the mapping of errors to status codes. The merchant id that \<open>authMerchant\<close> puts into the request's
  context is the argument of the handler it calls.
\<close>

definition bearer :: string where
  "bearer = ''Bearer ''"

definition authMerchant :: "(string \<Rightarrow> request \<Rightarrow> (world, response) state) \<Rightarrow> request \<Rightarrow> (world, response) state" where
  "authMerchant next r =
     (let hdr = req_header r ''Authorization'' in
      if length hdr \<le> length bearer \<or> take (length bearer) hdr \<noteq> bearer
      then respond (Error StatusUnauthorized ''missing bearer token'')
      else do {
        let hash = HashAPIKey (drop (length bearer) hdr);
        q \<leftarrow> pool_exec (on_schema 3 (\<lambda>_ d. case find (\<lambda>m. m_api_key_hash m = hash) (merchants d) of
               None \<Rightarrow> Inl ErrNoRows | Some m \<Rightarrow> Inr (m_id m, d)));
        case q of
          Inl e \<Rightarrow> if errors_Is e ErrNoRows then respond (Error StatusUnauthorized ''invalid api key'')
                   else internal_error e
        | Inr merchantID \<Rightarrow> next merchantID r })"

definition writeErr :: "error \<Rightarrow> (world, response) state" where
  "writeErr e =
     (if errors_Is e merchant_ErrNotFound then respond (Error StatusNotFound (error_text e))
      else if errors_Is e ErrInvalidState then respond (Error StatusBadRequest (error_text e))
      else respond (Error StatusInternalServerError (error_text e)))"

definition omit_nil_string :: "string \<Rightarrow> string option \<Rightarrow> (string \<times> json) list" where
  "omit_nil_string name v = (case v of None \<Rightarrow> [] | Some s \<Rightarrow> [(name, JStr s)])"

definition order_json :: "order \<Rightarrow> json" where
  "order_json x = JObj ([(''id'', JStr (or_ID x)), (''merchant_id'', JStr (or_MerchantID x))] @
     omit_empty ''external_order_id'' (or_ExternalOrderID x) @
     omit_empty ''invoice_payment_hash'' (or_InvoicePaymentHash x) @ omit_empty ''amount'' (or_Amount x) @
     omit_empty ''asset'' (or_Asset x) @ [(''status'', JStr (or_Status x))] @
     omit_empty ''created_at'' (or_CreatedAt x) @ omit_nil_string ''paid_at'' (or_PaidAt x))"

definition refund_json :: "refund \<Rightarrow> json" where
  "refund_json x = JObj ([(''id'', JStr (re_ID x)), (''order_id'', JStr (re_OrderID x))] @
     omit_empty ''amount'' (re_Amount x) @ omit_empty ''asset'' (re_Asset x) @ omit_empty ''reason'' (re_Reason x) @
     [(''status'', JStr (re_Status x))] @ omit_empty ''fiber_payment_hash'' (re_FiberPaymentHash x))"

definition settlement_json :: "settlement_line \<Rightarrow> json" where
  "settlement_json l = JObj [(''asset'', JStr (sl_Asset l)), (''gross'', JStr (sl_Gross l)), (''fees'', JStr (sl_Fees l)),
     (''net'', JStr (sl_Net l)), (''period'', JStr (sl_Period l))]"

definition reconciliation_json :: "reconciliation \<Rightarrow> json" where
  "reconciliation_json rc = JObj [(''period'', JStr (rec_Period rc)), (''matched'', JNum (rec_Matched rc)),
     (''unmatched_count'', JNum (rec_UnmatchedCount rc)), (''discrepancy_total'', JStr (rec_DiscrepancyTotal rc)),
     (''unmatched_orders'', JArr (map JStr (rec_UnmatchedOrders rc)))]"

definition create_order_fields :: "(string \<times> field_kind) list" where
  "create_order_fields = [(''external_order_id'', FString), (''amount'', FString), (''asset'', FString)]"

definition createOrder :: "fibertypes \<Rightarrow> postgres \<Rightarrow> fiber_rpc \<Rightarrow> string \<Rightarrow> request \<Rightarrow> (world, response) state" where
  "createOrder F P N merchantID r =
     (case DecodeJSON r create_order_fields of
        Inl e \<Rightarrow> respond (Error StatusBadRequest (''invalid body: '' @ error_text e))
      | Inr req \<Rightarrow> do {
          s \<leftarrow> CreateOrder F P N merchantID (str_field req 0) (str_field req 1) (str_field req 2);
          case s of
            Inl e \<Rightarrow> writeErr e
          | Inr (ord, iv) \<Rightarrow> respond (JSON StatusCreated (JObj
              [(''fiber_invoice'', JObj [(''invoice_address'', JStr (in_Address iv)), (''payment_hash'', JStr (in_PaymentHash iv))]),
               (''order'', order_json ord)])) })"

definition getOrder :: "fibertypes \<Rightarrow> postgres \<Rightarrow> string \<Rightarrow> request \<Rightarrow> (world, response) state" where
  "getOrder F P merchantID r = do {
     s \<leftarrow> GetOrder F P merchantID (req_param r ''id'');
     case s of Inl e \<Rightarrow> writeErr e | Inr ord \<Rightarrow> respond (JSON StatusOK (order_json ord)) }"

definition refund_fields :: "(string \<times> field_kind) list" where
  "refund_fields = [(''amount'', FString), (''reason'', FString)]"

definition refund_handler :: "fibertypes \<Rightarrow> postgres \<Rightarrow> fiber_rpc \<Rightarrow> string \<Rightarrow> request \<Rightarrow> (world, response) state" where
  "refund_handler F P N merchantID r =
     (case DecodeJSON r refund_fields of
        Inl e \<Rightarrow> respond (Error StatusBadRequest (''invalid body: '' @ error_text e))
      | Inr req \<Rightarrow> do {
          s \<leftarrow> Refund F P N merchantID (req_param r ''id'') (str_field req 0) (str_field req 1);
          case s of Inl e \<Rightarrow> writeErr e | Inr x \<Rightarrow> respond (JSON StatusOK (refund_json x)) })"

text \<open>The period every report needs.\<close>

definition with_period :: "request \<Rightarrow> (string \<Rightarrow> (world, response) state) \<Rightarrow> (world, response) state" where
  "with_period r k =
     (let period = req_query r ''period'' in
      if period = '''' then respond (Error StatusBadRequest ''period (YYYY-MM) is required'') else k period)"

definition settlements_handler :: "fibertypes \<Rightarrow> postgres \<Rightarrow> string \<Rightarrow> request \<Rightarrow> (world, response) state" where
  "settlements_handler F P merchantID r = with_period r (\<lambda>period. do {
     s \<leftarrow> Settlement F P merchantID period;
     case s of
       Inl e \<Rightarrow> writeErr e
     | Inr rows \<Rightarrow> respond (JSON StatusOK (JObj
         [(''period'', JStr period), (''settlements'', slice_json settlement_json rows)])) })"

definition reconciliation_handler :: "fibertypes \<Rightarrow> postgres \<Rightarrow> string \<Rightarrow> request \<Rightarrow> (world, response) state" where
  "reconciliation_handler F P merchantID r = with_period r (\<lambda>period. do {
     s \<leftarrow> Reconciliation F P merchantID period;
     case s of Inl e \<Rightarrow> writeErr e | Inr rc \<Rightarrow> respond (JSON StatusOK (reconciliation_json rc)) })"

definition export_handler :: "fibertypes \<Rightarrow> postgres \<Rightarrow> excelize \<Rightarrow> string \<Rightarrow> request \<Rightarrow> (world, response) state" where
  "export_handler F P X merchantID r = with_period r (\<lambda>period. do {
     s \<leftarrow> Export F P X merchantID period (req_query r ''format'');
     case s of
       Inl e \<Rightarrow> writeErr e
     | Inr (name, contentType, bytes) \<Rightarrow> respond
         \<lparr>status = StatusOK, headers = [(''Content-Type'', contentType),
            (''Content-Disposition'', ''attachment; filename='' @ CHR 0x22 # name @ [CHR 0x22])], rbody = Bytes bytes\<rparr> })"

end
