(* ===== verification/Indexer.thy ===== *)
theory Indexer
  imports Ids
begin

text \<open>
  The indexer of \<^verbatim>\<open>internal/indexer\<close>: the projector that turns semantic events into rows inside one
  transaction per raw change (\<^verbatim>\<open>projector.go\<close>), the webhook fan-out (\<^verbatim>\<open>deliveries.go\<close>) and the payment
  matching of merchant orders (\<^verbatim>\<open>merchant_match.go\<close>). The event types belong to the kanaka library;
  their JSON decoders are the parameter record \<open>kevents\<close>.
\<close>

section \<open>Events of the kanaka library\<close>

record event =
  e_ID :: string
  e_Type :: string
  e_CreatedAt :: time
  e_FiberRef :: string
  e_Data :: string

definition InvoicePaid :: string where "InvoicePaid = ''invoice.paid''"
definition PaymentReceived :: string where "PaymentReceived = ''payment.received''"
definition ChannelOpened :: string where "ChannelOpened = ''channel.opened''"

lemmas event_types = InvoicePaid_def PaymentReceived_def ChannelOpened_def

record invoice_paid_data =
  ipd_PaymentHash :: string
  ipd_Amount :: amount
  ipd_Asset :: string
  ipd_SettledAt :: time

record payment_received_data =
  prd_PaymentHash :: string
  prd_Amount :: amount
  prd_Asset :: string
  prd_PayerPubkey :: string

record channel_opened_data =
  cod_ChannelID :: string
  cod_Peer :: string
  cod_Capacity :: amount

text \<open>\<open>json.Unmarshal\<close> into, and \<open>json.Marshal\<close> of, the library's structs (their tags are the library's).\<close>

record kevents =
  unmarshal_InvoicePaid :: "string \<Rightarrow> error + invoice_paid_data"
  unmarshal_PaymentReceived :: "string \<Rightarrow> error + payment_received_data"
  unmarshal_ChannelOpened :: "string \<Rightarrow> error + channel_opened_data"
  marshal_Event :: "event \<Rightarrow> error + string"
  unmarshal_Event :: "string \<Rightarrow> error + event"

section \<open>Shared helpers\<close>

definition nullText :: "string \<Rightarrow> string option" where
  "nullText s = (if s = '''' then None else Some s)"

definition assetAmount :: "kevents \<Rightarrow> event \<Rightarrow> string option \<times> int option" where
  "assetAmount K e =
     (if e_Type e = InvoicePaid then
        (case unmarshal_InvoicePaid K (e_Data e) of
           Inr d \<Rightarrow> (nullText (ipd_Asset d), numeric_arg (ipd_Amount d))
         | Inl _ \<Rightarrow> (None, None))
      else if e_Type e = PaymentReceived then
        (case unmarshal_PaymentReceived K (e_Data e) of
           Inr d \<Rightarrow> (nullText (prd_Asset d), numeric_arg (prd_Amount d))
         | Inl _ \<Rightarrow> (None, None))
      else (None, None))"

section \<open>\<open>merchant_match.go\<close>\<close>

definition order_matches :: "string \<Rightarrow> order_row \<Rightarrow> bool" where
  "order_matches hash ord \<longleftrightarrow> o_invoice_payment_hash ord = Some hash \<and> o_status ord = ''pending''"

definition mark_paid :: "time \<Rightarrow> order_row \<Rightarrow> order_row" where
  "mark_paid t ord = ord\<lparr>o_status := ''paid'', o_paid_at := Some t\<rparr>"

definition matchMerchantOrder :: "postgres \<Rightarrow> invoice_paid_data \<Rightarrow> unit io" where
  "matchMerchantOrder P dat = do {
     r \<leftarrow> tx_exec (\<lambda>_ d. Inr (3 \<le> schema_version d, d));
     case r of
       Inl e \<Rightarrow> throw (Errorf ''indexer: probe merchant_orders: %w'' [] (Some e))
     | Inr exists \<Rightarrow>
         if \<not> exists then ok ()
         else do {
           s \<leftarrow> tx_exec (on_schema 3 (\<lambda>_ d. Inr ((), d\<lparr>merchant_orders :=
                  update_where (order_matches (ipd_PaymentHash dat))
                    (mark_paid (bind_ts P (ipd_SettledAt dat))) (merchant_orders d)\<rparr>)));
           case s of
             Inl e \<Rightarrow> throw (Errorf ''indexer: match merchant order: %w'' [] (Some e))
           | Inr _ \<Rightarrow> ok () } }"

section \<open>\<open>deliveries.go\<close>\<close>

record endpoint_snapshot =
  es_id :: string
  es_url :: string
  es_secret :: string

definition endpoint_matches :: "string \<Rightarrow> endpoint_row \<Rightarrow> bool" where
  "endpoint_matches eventType ep \<longleftrightarrow> ep_active ep \<and> eventType \<in> set (ep_event_types ep)"

definition snapshot_of :: "endpoint_row \<Rightarrow> endpoint_snapshot" where
  "snapshot_of ep = \<lparr>es_id = ep_id ep, es_url = ep_url ep, es_secret = ep_secret ep\<rparr>"

definition matchingEndpoints :: "string \<Rightarrow> endpoint_snapshot list io" where
  "matchingEndpoints eventType = do {
     r \<leftarrow> tx_exec (\<lambda>_ d. Inr (2 \<le> schema_version d, d));
     case r of
       Inl e \<Rightarrow> throw (Errorf ''indexer: probe webhook_endpoints: %w'' [] (Some e))
     | Inr exists \<Rightarrow>
         if \<not> exists then ok []
         else tx_query (on_schema 2 (\<lambda>_ d.
                Inr (map snapshot_of (filter (endpoint_matches eventType) (webhook_endpoints d)), d)))
                (\<lambda>e. Errorf ''indexer: select endpoints: %w'' [] (Some e)) }"

text \<open>The columns an \<open>INSERT INTO webhook_deliveries\<close> sets, and the defaults of the others.\<close>

definition new_delivery ::
    "string \<Rightarrow> string \<Rightarrow> string \<Rightarrow> string \<Rightarrow> string \<Rightarrow> string \<Rightarrow> time \<Rightarrow> delivery_row" where
  "new_delivery did epid evid url secret payload now =
     \<lparr>dl_id = did, dl_endpoint_id = epid, dl_event_id = evid, dl_url = url, dl_secret = secret,
      dl_payload = payload, dl_status = ''pending'', dl_attempts = 0, dl_next_attempt_at = now,
      dl_last_error = None, dl_created_at = now\<rparr>"

text \<open>The foreign keys of a new delivery.\<close>

definition delivery_refs_ok :: "delivery_row \<Rightarrow> db \<Rightarrow> bool" where
  "delivery_refs_ok dl d \<longleftrightarrow>
     dl_endpoint_id dl \<in> ep_id ` set (webhook_endpoints d) \<and> dl_event_id dl \<in> ev_id ` set (events d)"

definition invalid_json :: error where
  "invalid_json = Driver ''invalid input syntax for type json''"

definition enqueue_stmt :: "postgres \<Rightarrow> string \<Rightarrow> endpoint_snapshot \<Rightarrow> string \<Rightarrow> string \<Rightarrow> unit stmt" where
  "enqueue_stmt P did ep evid payload = on_schema 2 (\<lambda>now d.
     case to_jsonb P payload of
       None \<Rightarrow> Inl invalid_json
     | Some j \<Rightarrow>
         (let dl = new_delivery did (es_id ep) evid (es_url ep) (es_secret ep) j now in
          if lookup_row dl_id did (webhook_deliveries d) = None \<and> \<not> delivery_refs_ok dl d
          then Inl undefined_key
          else Inr ((), d\<lparr>webhook_deliveries := insert_absent dl_id dl (webhook_deliveries d)\<rparr>)))"

definition delivery_id :: "(byte list \<Rightarrow> string) \<Rightarrow> string \<Rightarrow> string \<Rightarrow> string" where
  "delivery_id ulid evid epid = DeriveWithPrefix ulid ''dlv_'' ''delivery'' [evid, epid]"

text \<open>The body of the loop over the matching endpoints.\<close>

definition enqueueOne ::
    "(byte list \<Rightarrow> string) \<Rightarrow> postgres \<Rightarrow> event \<Rightarrow> string \<Rightarrow> endpoint_snapshot \<Rightarrow> unit io" where
  "enqueueOne ulid P e payload ep = do {
     s \<leftarrow> tx_exec (enqueue_stmt P (delivery_id ulid (e_ID e) (es_id ep)) ep (e_ID e) payload);
     case s of
       Inl err \<Rightarrow> throw (Errorf ''indexer: enqueue delivery: %w'' [] (Some err))
     | Inr _ \<Rightarrow> ok () }"

definition enqueueDeliveries :: "(byte list \<Rightarrow> string) \<Rightarrow> kevents \<Rightarrow> postgres \<Rightarrow> event \<Rightarrow> unit io" where
  "enqueueDeliveries ulid K P e = do {
     r \<leftarrow> matchingEndpoints (e_Type e);
     case r of
       Inl err \<Rightarrow> throw err
     | Inr eps \<Rightarrow>
         if eps = [] then ok ()
         else (case marshal_Event K e of
           Inl err \<Rightarrow> throw (Errorf ''indexer: marshal delivery payload: %w'' [] (Some err))
         | Inr payload \<Rightarrow> for_each (enqueueOne ulid P e payload) eps) }"

section \<open>\<open>projector.go\<close>\<close>

record projector =
  buf :: "event list"

definition New :: projector where
  "New = \<lparr>buf = []\<rparr>"

definition Handle :: "projector \<Rightarrow> event \<Rightarrow> projector" where
  "Handle p e = p\<lparr>buf := buf p @ [e]\<rparr>"

definition Load :: "int io" where
  "Load = do {
     r \<leftarrow> pool_exec (on_schema 1 (\<lambda>_ d.
            case ingest_checkpoint d of None \<Rightarrow> Inl ErrNoRows | Some c \<Rightarrow> Inr (cp_last_seq c, d)));
     case r of
       Inl e \<Rightarrow> if errors_Is e ErrNoRows then ok 0
                else throw (Errorf ''indexer: load checkpoint: %w'' [] (Some e))
     | Inr seq \<Rightarrow> ok seq }"

text \<open>Rows the projections insert, and what \<open>ON CONFLICT DO UPDATE\<close> sets.\<close>

definition invoice_ins :: "postgres \<Rightarrow> invoice_paid_data \<Rightarrow> invoice_row" where
  "invoice_ins P dat = \<lparr>inv_hash = ipd_PaymentHash dat, inv_status = Some ''paid'',
     inv_asset = nullText (ipd_Asset dat), inv_amount = numeric_arg (ipd_Amount dat),
     inv_created_at = None, inv_settled_at = Some (bind_ts P (ipd_SettledAt dat))\<rparr>"

definition invoice_upd :: "postgres \<Rightarrow> invoice_paid_data \<Rightarrow> invoice_row \<Rightarrow> invoice_row" where
  "invoice_upd P dat r = r\<lparr>inv_status := Some ''paid'',
     inv_settled_at := inv_settled_at (invoice_ins P dat),
     inv_asset := coalesce2 (inv_asset r) (inv_asset (invoice_ins P dat)),
     inv_amount := coalesce2 (inv_amount r) (inv_amount (invoice_ins P dat))\<rparr>"

definition projectInvoicePaid :: "kevents \<Rightarrow> postgres \<Rightarrow> event \<Rightarrow> unit io" where
  "projectInvoicePaid K P e =
     (case unmarshal_InvoicePaid K (e_Data e) of
        Inl err \<Rightarrow> throw (Errorf ''indexer: decode invoice.paid: %w'' [] (Some err))
      | Inr dat \<Rightarrow> do {
          r \<leftarrow> tx_exec (on_schema 1 (\<lambda>_ d. Inr ((), d\<lparr>invoices :=
                 upsert inv_hash (invoice_ins P dat) (invoice_upd P dat) (invoices d)\<rparr>)));
          case r of
            Inl err \<Rightarrow> throw (Errorf ''indexer: project invoice.paid: %w'' [] (Some err))
          | Inr _ \<Rightarrow> matchMerchantOrder P dat })"

definition payment_ins :: "postgres \<Rightarrow> payment_received_data \<Rightarrow> time \<Rightarrow> payment_row" where
  "payment_ins P dat created = \<lparr>pay_hash = prd_PaymentHash dat, pay_direction = ''received'',
     pay_status = ''succeeded'', pay_asset = nullText (prd_Asset dat),
     pay_amount = numeric_arg (prd_Amount dat), pay_fee = None,
     pay_peer = nullText (prd_PayerPubkey dat),
     pay_created_at = Some (bind_ts P created), pay_updated_at = Some (bind_ts P created)\<rparr>"

definition payment_upd :: "postgres \<Rightarrow> payment_received_data \<Rightarrow> time \<Rightarrow> payment_row \<Rightarrow> payment_row" where
  "payment_upd P dat created r = r\<lparr>pay_direction := ''received'', pay_status := ''succeeded'',
     pay_asset := pay_asset (payment_ins P dat created),
     pay_amount := pay_amount (payment_ins P dat created),
     pay_peer := pay_peer (payment_ins P dat created),
     pay_updated_at := pay_updated_at (payment_ins P dat created)\<rparr>"

definition projectPaymentReceived :: "kevents \<Rightarrow> postgres \<Rightarrow> event \<Rightarrow> unit io" where
  "projectPaymentReceived K P e =
     (case unmarshal_PaymentReceived K (e_Data e) of
        Inl err \<Rightarrow> throw (Errorf ''indexer: decode payment.received: %w'' [] (Some err))
      | Inr dat \<Rightarrow> do {
          r \<leftarrow> tx_exec (on_schema 1 (\<lambda>_ d. Inr ((), d\<lparr>payments :=
                 upsert pay_hash (payment_ins P dat (e_CreatedAt e)) (payment_upd P dat (e_CreatedAt e))
                   (payments d)\<rparr>)));
          case r of
            Inl err \<Rightarrow> throw (Errorf ''indexer: project payment.received: %w'' [] (Some err))
          | Inr _ \<Rightarrow> ok () })"

definition channel_ins :: "postgres \<Rightarrow> channel_opened_data \<Rightarrow> time \<Rightarrow> channel_row" where
  "channel_ins P dat created = \<lparr>ch_id = cod_ChannelID dat, ch_peer = nullText (cod_Peer dat),
     ch_state = Some ''open'', ch_capacity = numeric_arg (cod_Capacity dat),
     ch_local_balance = None, ch_remote_balance = None,
     ch_opened_at = Some (bind_ts P created), ch_closed_at = None\<rparr>"

definition channel_upd :: "postgres \<Rightarrow> channel_opened_data \<Rightarrow> time \<Rightarrow> channel_row \<Rightarrow> channel_row" where
  "channel_upd P dat created r = r\<lparr>ch_peer := ch_peer (channel_ins P dat created),
     ch_state := Some ''open'', ch_capacity := ch_capacity (channel_ins P dat created),
     ch_opened_at := ch_opened_at (channel_ins P dat created)\<rparr>"

definition projectChannelOpened :: "kevents \<Rightarrow> postgres \<Rightarrow> event \<Rightarrow> unit io" where
  "projectChannelOpened K P e =
     (case unmarshal_ChannelOpened K (e_Data e) of
        Inl err \<Rightarrow> throw (Errorf ''indexer: decode channel.opened: %w'' [] (Some err))
      | Inr dat \<Rightarrow> do {
          r \<leftarrow> tx_exec (on_schema 1 (\<lambda>_ d. Inr ((), d\<lparr>channels :=
                 upsert ch_id (channel_ins P dat (e_CreatedAt e)) (channel_upd P dat (e_CreatedAt e))
                   (channels d)\<rparr>)));
          case r of
            Inl err \<Rightarrow> throw (Errorf ''indexer: project channel.opened: %w'' [] (Some err))
          | Inr _ \<Rightarrow> ok () })"

definition event_ins :: "kevents \<Rightarrow> postgres \<Rightarrow> event \<Rightarrow> string \<Rightarrow> int \<Rightarrow> time \<Rightarrow> event_row" where
  "event_ins K P e j seq now =
     \<lparr>ev_id = e_ID e, ev_type = e_Type e, ev_fiber_ref = nullText (e_FiberRef e),
      ev_asset = fst (assetAmount K e), ev_amount = snd (assetAmount K e), ev_data = j,
      ev_occurred_at = bind_ts P (e_CreatedAt e), ev_ingested_at = now, ev_checkpoint = seq\<rparr>"

definition insert_event_stmt :: "kevents \<Rightarrow> postgres \<Rightarrow> event \<Rightarrow> int \<Rightarrow> unit stmt" where
  "insert_event_stmt K P e seq = on_schema 1 (\<lambda>now d.
     case to_jsonb P (e_Data e) of
       None \<Rightarrow> Inl invalid_json
     | Some j \<Rightarrow> Inr ((), d\<lparr>events := insert_absent ev_id (event_ins K P e j seq now) (events d)\<rparr>))"

definition applyEvent ::
    "(byte list \<Rightarrow> string) \<Rightarrow> kevents \<Rightarrow> postgres \<Rightarrow> int \<Rightarrow> event \<Rightarrow> unit io" where
  "applyEvent ulid K P seq e = do {
     r \<leftarrow> tx_exec (insert_event_stmt K P e seq);
     case r of
       Inl err \<Rightarrow> throw (Errorf ''indexer: insert event %s: %w'' [e_ID e] (Some err))
     | Inr _ \<Rightarrow> do {
         s \<leftarrow> (if e_Type e = InvoicePaid then projectInvoicePaid K P e
               else if e_Type e = PaymentReceived then projectPaymentReceived K P e
               else if e_Type e = ChannelOpened then projectChannelOpened K P e
               else ok ());
         case s of
           Inl err \<Rightarrow> throw err
         | Inr _ \<Rightarrow> enqueueDeliveries ulid K P e } }"

definition save_checkpoint_stmt :: "int \<Rightarrow> unit stmt" where
  "save_checkpoint_stmt seq = on_schema 1 (\<lambda>now d.
     Inr ((), d\<lparr>ingest_checkpoint := Some \<lparr>cp_last_seq = seq, cp_updated_at = now\<rparr>\<rparr>))"

text \<open>The function \<open>Save\<close> passes to \<open>InTx\<close>.\<close>

definition save_body ::
    "(byte list \<Rightarrow> string) \<Rightarrow> kevents \<Rightarrow> postgres \<Rightarrow> event list \<Rightarrow> int \<Rightarrow> (world, tx_outcome) state" where
  "save_body ulid K P es seq = do {
     r \<leftarrow> for_each (applyEvent ulid K P seq) es;
     case r of
       Inl err \<Rightarrow> State_Monad.return (Tx_err err)
     | Inr _ \<Rightarrow> do {
         s \<leftarrow> tx_exec (save_checkpoint_stmt seq);
         case s of
           Inl err \<Rightarrow> State_Monad.return (Tx_err (Errorf ''indexer: save checkpoint: %w'' [] (Some err)))
         | Inr _ \<Rightarrow> State_Monad.return Tx_ok } }"

definition Save ::
    "(byte list \<Rightarrow> string) \<Rightarrow> kevents \<Rightarrow> postgres \<Rightarrow> projector \<Rightarrow> int \<Rightarrow>
     (world, tx_result \<times> projector) state" where
  "Save ulid K P p seq = do {
     r \<leftarrow> InTx (save_body ulid K P (buf p) seq);
     State_Monad.return (r, p\<lparr>buf := []\<rparr>) }"

end
