(* ===== verification/Samples.thy ===== *)
theory Samples
  imports Indexer "HOL-Library.Char_ord" "HOL-Library.List_Lexorder"
begin

text \<open>
  Concrete instances of the parameters of the model, for the witnesses: a hex codec for the library's
  amounts, a server with microsecond timestamps and a bytewise collation, decoders that know a few
  payloads, and an empty migrated database. The lemmas show that the instances have the documented
  behaviour the theorems assume, so those hypotheses can hold together.
\<close>

section \<open>Amounts\<close>

definition hex_value :: "char \<Rightarrow> nat option" where
  "hex_value c =
     (if c \<in> set ''0123456789'' then Some (of_char c - 48)
      else if c \<in> set ''abcdef'' then Some (of_char c - 87) else None)"

fun parse_hex :: "nat \<Rightarrow> string \<Rightarrow> nat option" where
  "parse_hex acc [] = Some acc"
| "parse_hex acc (c # cs) = (case hex_value c of None \<Rightarrow> None | Some v \<Rightarrow> parse_hex (16 * acc + v) cs)"

definition sample_ParseAmount :: "string \<Rightarrow> amount \<times> string option" where
  "sample_ParseAmount s =
     (if take 2 s = ''0x'' \<and> drop 2 s \<noteq> [] then
        (case parse_hex 0 (drop 2 s) of None \<Rightarrow> (0, Some ''invalid amount'') | Some n \<Rightarrow> (n, None))
      else (0, Some ''invalid amount''))"

definition sample_fibertypes :: fibertypes where
  "sample_fibertypes = \<lparr>ParseAmount = sample_ParseAmount, Hex = hex_wire\<rparr>"

lemma parse_hex_append:
  "parse_hex acc (xs @ ys) = (case parse_hex acc xs of None \<Rightarrow> None | Some n \<Rightarrow> parse_hex n ys)"
  by (induction xs arbitrary: acc) (auto split: option.splits)

lemma hex_value_digit: "n < 16 \<Longrightarrow> hex_value (hex_digit n) = Some n"
proof -
  assume "n < 16"
  then have "n \<in> set [0..<16]" by simp
  then show ?thesis by (auto simp: upt_rec hex_digit_def hex_value_def)
qed

lemma parse_hex_digits: "parse_hex 0 (hex_digits n) = Some n"
proof (induction n rule: hex_digits.induct)
  case (1 n)
  show ?case
  proof (cases "n < 16")
    case True
    then show ?thesis by (simp add: hex_digits.simps[of n] hex_value_digit)
  next
    case False
    with 1 show ?thesis by (simp add: hex_digits.simps[of n] parse_hex_append hex_value_digit)
  qed
qed

lemma hex_digits_nonempty: "hex_digits n \<noteq> []"
  by (subst hex_digits.simps) simp

lemma sample_fibertypes_ok [simp]: "fibertypes_ok sample_fibertypes"
  by (simp add: fibertypes_ok_def sample_fibertypes_def sample_ParseAmount_def hex_wire_def
      parse_hex_digits hex_digits_nonempty)

section \<open>The server\<close>

definition sample_postgres :: postgres where
  "sample_postgres = \<lparr>numeric_of = (\<lambda>v. \<lparr>nInt = v, nExp = 0, nNaN = False, nInf = Finite, nValid = True\<rparr>),
     bind_ts = (\<lambda>t. 1000 * (t div 1000)), to_jsonb = (\<lambda>s. if s = '''' then None else Some s),
     collate_le = (\<lambda>x y. x \<le> y), to_char_month = (\<lambda>t. if t < 1000000 then ''1970-01'' else ''2026-01'')\<rparr>"

lemma sample_postgres_ok [simp]: "postgres_ok sample_postgres"
  by (auto simp: postgres_ok_def sample_postgres_def numeric_of_ok_def numeric_finite_def MinInt32_def
      numeric_value_def collation_ok_def)

section \<open>Payloads, events, the world\<close>

definition sample_kevents :: kevents where
  "sample_kevents = \<lparr>
     unmarshal_InvoicePaid = (\<lambda>s. if s = ''inv'' then
        Inr \<lparr>ipd_PaymentHash = ''h1'', ipd_Amount = 255, ipd_Asset = ''CKB'', ipd_SettledAt = 7000\<rparr>
        else Inl (Driver ''unexpected end of JSON input'')),
     unmarshal_PaymentReceived = (\<lambda>s. if s = ''pay'' then
        Inr \<lparr>prd_PaymentHash = ''h2'', prd_Amount = 16, prd_Asset = '''', prd_PayerPubkey = ''pk''\<rparr>
        else Inl (Driver ''unexpected end of JSON input'')),
     unmarshal_ChannelOpened = (\<lambda>s. if s = ''chan'' then
        Inr \<lparr>cod_ChannelID = ''c1'', cod_Peer = ''pk'', cod_Capacity = 4096\<rparr>
        else Inl (Driver ''unexpected end of JSON input'')),
     marshal_Event = (\<lambda>e. Inr (''event '' @ e_ID e)),
     unmarshal_Event = (\<lambda>s. Inl (Driver ''unexpected end of JSON input''))\<rparr>"

definition sample_invoice :: event where
  "sample_invoice = \<lparr>e_ID = ''e1'', e_Type = InvoicePaid, e_CreatedAt = 5000, e_FiberRef = ''h1'', e_Data = ''inv''\<rparr>"

definition sample_payment :: event where
  "sample_payment = \<lparr>e_ID = ''e2'', e_Type = PaymentReceived, e_CreatedAt = 6000, e_FiberRef = ''h2'', e_Data = ''pay''\<rparr>"

definition sample_channel :: event where
  "sample_channel = \<lparr>e_ID = ''e3'', e_Type = ChannelOpened, e_CreatedAt = 8000, e_FiberRef = ''c1'', e_Data = ''chan''\<rparr>"

definition sample_broken :: event where
  "sample_broken = \<lparr>e_ID = ''e4'', e_Type = InvoicePaid, e_CreatedAt = 9000, e_FiberRef = '''', e_Data = ''{''\<rparr>"

definition sample_world :: "db \<Rightarrow> world" where
  "sample_world d = \<lparr>database = d, schedule = [], clock = 10000, id_source = (\<lambda>n. ''id'' @ replicate n CHR ''i''),
     id_pos = 0, rand_source = of_nat, rand_pos = 0, rpc_log = []\<rparr>"

definition sample_endpoint :: endpoint_row where
  "sample_endpoint = \<lparr>ep_id = ''ep1'', ep_merchant_id = None, ep_url = ''https://a.test/h'', ep_secret = ''s'',
     ep_event_types = [InvoicePaid], ep_active = True, ep_created_at = 0\<rparr>"

definition sample_merchant :: merchant_row where
  "sample_merchant = \<lparr>m_id = ''m1'', m_name = ''shop'', m_api_key_hash = ''k'', m_settlement_asset = ''CKB'', m_created_at = 0\<rparr>"

definition sample_order :: order_row where
  "sample_order = \<lparr>o_id = ''o1'', o_merchant_id = ''m1'', o_external_order_id = Some ''x1'',
     o_invoice_payment_hash = Some ''h1'', o_amount = Some 255, o_asset = Some ''CKB'', o_status = ''pending'',
     o_created_at = 0, o_paid_at = None\<rparr>"

definition sample_db :: db where
  "sample_db = empty_db\<lparr>webhook_endpoints := [sample_endpoint], merchants := [sample_merchant],
     merchant_orders := [sample_order]\<rparr>"

lemmas sample_defs = sample_postgres_def sample_kevents_def sample_invoice_def sample_payment_def
  sample_channel_def sample_broken_def sample_world_def sample_endpoint_def sample_merchant_def
  sample_order_def sample_db_def empty_db_def

lemma sample_db_ok [simp]: "db_ok sample_db"
  by (simp add: sample_defs db_ok_def db_keys_ok_def db_refs_ok_def orders_unique_def keyed_def
      map_filter_simps order_ext_key_def)

end
