(* ===== verification/Merchant_Spec.thy ===== *)
theory Merchant_Spec
  imports Merchant_Http Samples
begin

text \<open>
  Orders and refunds of the merchant backend: creating an order for a new and for a known external id,
  and refunds, which are sent at most once per request and for paid orders only.
\<close>

section \<open>Statements\<close>

lemmas merchant_stmts = on_schema_def insert_order_stmt_def insert_refund_stmt_def mark_refunded_stmt_def
  insert_settlement_stmt_def insert_run_stmt_def insert_merchant_stmt_def

lemma driver_errors [simp]:
  "Driver s \<noteq> ErrNoRows" "Driver s \<noteq> merchant_ErrNotFound" "ErrNoRows \<noteq> merchant_ErrNotFound"
  "\<not> errors_Is (Driver s) ErrNoRows" "\<not> errors_Is (Driver s) merchant_ErrNotFound"
  "\<not> errors_Is (Errorf f as (Some (Driver s))) merchant_ErrNotFound"
  by (simp_all add: ErrNoRows_def merchant_ErrNotFound_def)

lemma run_scanOrder:
  assumes "quiet w" and "3 \<le> schema_version (database w)"
  shows "run_state (scanOrder F P hit) w =
    (case find hit (merchant_orders (database w)) of
       None \<Rightarrow> Inl merchant_ErrNotFound | Some x \<Rightarrow> Inr (scan_order F P x), w)"
  using assms by (simp add: scanOrder_def io_simps on_schema_def split: option.splits)

text \<open>What a read returns under any schedule: the row of the database it saw.\<close>

lemma scanOrder_seen:
  assumes "run_state (scanOrder F P hit) w = (Inr x, w')"
  obtains row where "find hit (merchant_orders (seen_db w)) = Some row" "x = scan_order F P row"
proof -
  obtain r w1 where r: "run_state (pool_exec (on_schema 3 (\<lambda>_ d. case find hit (merchant_orders d) of
      None \<Rightarrow> Inl ErrNoRows | Some x \<Rightarrow> Inr (x, d)))) w = (r, w1)" by fastforce
  with assms obtain row where row: "r = Inr row" "x = scan_order F P row"
    by (cases r) (auto simp: scanOrder_def split: if_splits)
  from r have "find hit (merchant_orders (seen_db w)) = Some row"
    by (cases rule: pool_exec_cases) (auto simp: row(1) on_schema_def split: if_splits option.splits)
  with row(2) that show thesis by blast
qed

definition ext_of :: "string \<Rightarrow> string \<Rightarrow> order_row \<Rightarrow> bool" where
  "ext_of merchantID extID x \<longleftrightarrow> o_merchant_id x = merchantID \<and> o_external_order_id x = Some extID"

lemma ext_of_key: "ext_of m e x \<longleftrightarrow> order_ext_key x = Some (m, e)"
  by (auto simp: ext_of_def order_ext_key_def)

lemma order_ext_key_iff: "Some (m, e) \<in> order_ext_key ` set xs \<longleftrightarrow> find (ext_of m e) xs \<noteq> None"
  unfolding find_None_iff ext_of_key by (metis imageE image_eqI)

lemma find_snoc: "find Q xs = None \<Longrightarrow> find Q (xs @ [x]) = (if Q x then Some x else None)"
  by (induction xs) (auto split: if_splits)

section \<open>Orders\<close>

text \<open>The lookup by external id is the one of \<open>ext_of\<close>.\<close>

lemma by_ext: "orderByExternalID F P merchantID extID = scanOrder F P (ext_of merchantID extID)"
  by (simp add: orderByExternalID_def ext_of_def[abs_def])

text \<open>A new external id: one \<open>NewInvoice\<close> for the parsed amount, and one pending order with the invoice's hash.\<close>

lemma CreateOrder_new:
  fixes asset :: string
  assumes w: "quiet w" "3 \<le> schema_version (database w)" and ext: "extID \<noteq> ''''"
    and amount: "ParseAmount F amountHex = (amount, None)"
    and merchant: "merchantID \<in> m_id ` set (merchants (database w))"
    and new: "find (ext_of merchantID extID) (merchant_orders (database w)) = None"
    and fresh: "id_source w (id_pos w) \<notin> o_id ` set (merchant_orders (database w))"
    and node: "node_NewInvoice N (rpc_log w) \<lparr>nip_Amount = amount, nip_Description = ''order '' @ extID\<rparr> = Inr iv"
    and row_def: "row = order_ins (id_source w (id_pos w)) merchantID extID (in_PaymentHash iv) amount
      (if asset = '''' then ''CKB'' else asset) (clock w)"
  shows "run_state (CreateOrder F P N merchantID extID amountHex asset) w = (Inr (scan_order F P row, iv),
    w\<lparr>rpc_log := rpc_log w @ [CallNewInvoice \<lparr>nip_Amount = amount, nip_Description = ''order '' @ extID\<rparr>],
      id_pos := Suc (id_pos w), database := database w\<lparr>merchant_orders := merchant_orders (database w) @ [row]\<rparr>\<rparr>)"
proof -
  have row: "ext_of merchantID extID row" "order_ext_key row = Some (merchantID, extID)" "o_id row = id_source w (id_pos w)"
    "o_merchant_id row = merchantID" "or_InvoicePaymentHash (scan_order F P row) = in_PaymentHash iv"
    using ext by (simp_all add: row_def order_ins_def ext_of_def order_ext_key_def scan_order_def)
  have found: "find (ext_of merchantID extID) (merchant_orders (database w) @ [row]) = Some row"
    using find_snoc[OF new] row(1) by simp
  have key: "Some (merchantID, extID) \<notin> order_ext_key ` set (merchant_orders (database w))"
    using new by (simp add: order_ext_key_iff)
  show ?thesis
    using w ext amount merchant new fresh node key row found
    by (simp add: CreateOrder_def by_ext run_scanOrder mint_order_def NewInvoice_def place_order_def id_New_def
        io_simps merchant_stmts Let_def row_def[symmetric])
qed

text \<open>A known external id, under any schedule: the node is not called and nothing is written. The stored order is returned,
  unless the amount does not parse or the lookup fails.\<close>

lemma scanOrder_known:
  assumes "find hit (merchant_orders (seen_db v)) = Some row" and "3 \<le> schema_version (seen_db v)"
    and "run_state (scanOrder F P hit) v = (r, v')"
  shows "rpc_log v' = rpc_log v \<and> database v' = seen_db v \<and>
    (r = Inr (scan_order F P row) \<or> \<not> quiet v \<and> (\<exists>m. r = Inl (Errorf ''merchant: scan order: %w'' [] (Some (Driver m)))))"
  using assms
  by (auto simp: scanOrder_def pool_exec_def seen_db_def next_tick_def quiet_tick_def run_reply_def reply_of_def on_schema_def
      split: list.splits reply.splits if_splits)

lemma CreateOrder_known:
  assumes "find (ext_of merchantID extID) (merchant_orders (seen_db v)) = Some row" and "3 \<le> schema_version (seen_db v)"
    and ext: "extID \<noteq> ''''" and run: "run_state (CreateOrder F P N merchantID extID amountHex asset) v = (r, v')"
  shows "rpc_log v' = rpc_log v \<and> database v' \<in> {database v, seen_db v} \<and>
    (\<forall>x. r = Inr x \<longrightarrow> x = (scan_order F P row, \<lparr>in_PaymentHash = coalesce (o_invoice_payment_hash row) '''', in_Address = ''''\<rparr>)) \<and>
    (quiet v \<and> snd (ParseAmount F amountHex) = None \<longrightarrow> (\<exists>x. r = Inr x)) \<and>
    (snd (ParseAmount F amountHex) \<noteq> None \<longrightarrow> (\<exists>err. r = Inl err) \<and> v' = v)"
proof -
  obtain s v1 where s: "run_state (scanOrder F P (ext_of merchantID extID)) v = (s, v1)" by fastforce
  from scanOrder_known[OF assms(1,2) s] run s ext show ?thesis
    by (cases "ParseAmount F amountHex"; cases "snd (ParseAmount F amountHex)")
       (auto simp: CreateOrder_def by_ext scan_order_def merchant_ErrNotFound_def)
qed

section \<open>Samples\<close>

definition sample_node :: fiber_rpc where
  "sample_node = \<lparr>node_NewInvoice = (\<lambda>_ p. Inr \<lparr>in_PaymentHash = ''h9'', in_Address = ''lnfib1''\<rparr>),
     node_SendPayment = (\<lambda>_ p. Inr ''h8'')\<rparr>"

text \<open>A shop with one paid order, whose payer is known, and one pending order.\<close>

definition sample_paid :: order_row where
  "sample_paid = sample_order\<lparr>o_id := ''o2'', o_external_order_id := Some ''x2'', o_invoice_payment_hash := Some ''h2'',
     o_status := ''paid'', o_paid_at := Some 7000\<rparr>"

definition sample_payer :: payment_row where
  "sample_payer = \<lparr>pay_hash = ''h2'', pay_direction = ''received'', pay_status = ''succeeded'', pay_asset = Some ''CKB'',
     pay_amount = Some 255, pay_fee = None, pay_peer = Some ''pk'', pay_created_at = Some 7000, pay_updated_at = None\<rparr>"

definition sample_shop :: db where
  "sample_shop = sample_db\<lparr>merchant_orders := [sample_order, sample_paid], payments := [sample_payer]\<rparr>"

lemmas shop_defs = sample_shop_def sample_paid_def sample_payer_def sample_node_def sample_defs

lemma sample_parse [simp]: "ParseAmount sample_fibertypes ''0xff'' = (255, None)"
  by (simp add: sample_fibertypes_def sample_ParseAmount_def hex_value_def)

section \<open>Refunds\<close>

text \<open>Computations that make no call to the node.\<close>

definition silent :: "(world, 'a) state \<Rightarrow> bool" where
  "silent m \<longleftrightarrow> (\<forall>w. rpc_log (snd (run_state m w)) = rpc_log w)"

named_theorems silent_intros \<open>computations that make no call\<close>

lemma silentD: "silent m \<Longrightarrow> run_state m w = (r, w') \<Longrightarrow> rpc_log w' = rpc_log w"
  by (metis silent_def snd_conv)

lemma silent_return [silent_intros]: "silent (State_Monad.return x)"
  by (simp add: silent_def)

lemma silent_bind [silent_intros]: "silent m \<Longrightarrow> (\<And>x. silent (k x)) \<Longrightarrow> silent (m \<bind> k)"
  by (simp add: silent_def split: prod.splits) (metis snd_conv)

lemma silent_sum [silent_intros]:
  "(\<And>e. silent (f e)) \<Longrightarrow> (\<And>x. silent (g x)) \<Longrightarrow> silent (case r of Inl e \<Rightarrow> f e | Inr x \<Rightarrow> g x)"
  by (cases r) simp_all

lemma silent_if [silent_intros]: "silent m \<Longrightarrow> silent n \<Longrightarrow> silent (if b then m else n)"
  by simp

lemma silent_exec [silent_intros]: "silent (pool_exec q)"
  unfolding silent_def
proof
  fix w
  obtain t w1 where t: "next_tick w = (t, w1)" by fastforce
  then have "rpc_log w1 = rpc_log w" by (auto simp: next_tick_def split: list.splits)
  moreover obtain r w2 where "run_reply (tick_reply t) q (w1\<lparr>database := others t (database w1)\<rparr>) = (r, w2)" by fastforce
  ultimately show "rpc_log (snd (run_state (pool_exec q) w)) = rpc_log w"
    using t by (auto simp: pool_exec_def dest!: run_reply_cases)
qed

lemma silent_id [silent_intros]: "silent id_New"
  by (simp add: silent_def id_New_def)

lemma silent_scanOrder [silent_intros]: "silent (scanOrder F P hit)"
  unfolding scanOrder_def by (intro silent_intros)

lemma silent_payerPubkey [silent_intros]: "silent (payerPubkey h)"
  unfolding payerPubkey_def Let_def by (auto intro!: silent_intros split: option.splits)

lemma silent_record [silent_intros]: "silent (record_refund F orderID amount asset reason hash)"
  unfolding record_refund_def by (intro silent_intros)

text \<open>The payer a successful lookup returns, under any schedule.\<close>

lemma payerPubkey_seen:
  assumes "run_state (payerPubkey h) w = (Inr payer, w')"
  obtains p where "lookup_row pay_hash h (payments (seen_db w)) = Some p" "pay_peer p = Some payer" "payer \<noteq> ''''"
proof -
  obtain r w1 where r: "run_state (pool_exec (on_schema 1 (\<lambda>_ d. case lookup_row pay_hash h (payments d) of
      None \<Rightarrow> Inl ErrNoRows | Some p \<Rightarrow> Inr (pay_peer p, d)))) w = (r, w1)" by fastforce
  with assms have res: "r = Inr (Some payer)" "payer \<noteq> ''''"
    by (auto simp: payerPubkey_def Let_def split: sum.splits option.splits if_splits)
  from r have "\<exists>p. lookup_row pay_hash h (payments (seen_db w)) = Some p \<and> pay_peer p = Some payer"
    by (cases rule: pool_exec_cases) (auto simp: res(1) on_schema_def split: if_splits option.splits)
  with res(2) that show thesis by blast
qed

lemma keeps_scanOrder [keeps_intros]: "keeps I (scanOrder F P hit)"
  unfolding scanOrder_def
  by (intro keeps_intros) (auto simp: on_schema_def intro!: keeps_intros split: option.splits if_splits)

lemma keeps_GetOrder [keeps_intros]: "keeps I (GetOrder F P m x)" "keeps I (orderByExternalID F P m e)"
  by (simp_all add: GetOrder_def orderByExternalID_def keeps_intros)

text \<open>Once the order is found paid, the amount is read and the payer is known, exactly one payment is sent.\<close>

lemma Refund_pays:
  assumes run: "run_state (Refund F P N merchantID orderID amountHex reason) w = (res, w')"
    and ord: "run_state (GetOrder F P merchantID orderID) w = (Inr x, w1)" "or_Status x = ''paid''"
    and parse: "ParseAmount F amountHex = (a, None)"
    and payer: "run_state (payerPubkey (or_InvoicePaymentHash x)) w1 = (Inr payer, w2)"
  shows "rpc_log w' = rpc_log w2 @ [CallSendPayment \<lparr>spp_TargetPubkey = payer, spp_Amount = a, spp_Keysend = True\<rparr>]"
    (is "_ = _ @ [CallSendPayment ?c]")
proof (cases "node_SendPayment N (rpc_log w2) ?c")
  case (Inl e)
  with run ord parse payer show ?thesis by (auto simp: Refund_def SendPayment_def)
next
  case (Inr hash)
  obtain s w3 where "run_state (record_refund F orderID a (or_Asset x) reason hash)
      (w2\<lparr>rpc_log := rpc_log w2 @ [CallSendPayment ?c]\<rparr>) = (s, w3)" by fastforce
  with run ord parse payer Inr silentD[OF silent_record this] show ?thesis
    by (simp add: Refund_def SendPayment_def)
qed

text \<open>C7: money leaves only for a paid order of the caller. Under every schedule of other sessions and failures, a
  refund request makes at most one call to the node, and if it makes one, then the merchant's own
  order had the status \<open>paid\<close> in the database it read, the amount parsed, and the payment goes by
  keysend to the non-empty pubkey recorded with the payment of the order's invoice; a refund that is
  reported as sent has made that call.\<close>

theorem refund_only_paid:
  assumes run: "run_state (Refund F P N merchantID orderID amountHex reason) w = (res, w')"
    and keep: "others_keep I w"
  shows "rpc_log w' = rpc_log w \<and> (\<exists>e. res = Inl e) \<or>
    (\<exists>ord d p payer amount. ord \<in> set (merchant_orders (seen_db w)) \<and> o_id ord = orderID \<and>
       o_merchant_id ord = merchantID \<and> o_status ord = ''paid'' \<and> ParseAmount F amountHex = (amount, None) \<and>
       I d \<and> p \<in> set (payments d) \<and> pay_hash p = coalesce (o_invoice_payment_hash ord) '''' \<and>
       pay_peer p = Some payer \<and> payer \<noteq> '''' \<and>
       rpc_log w' = rpc_log w @ [CallSendPayment \<lparr>spp_TargetPubkey = payer, spp_Amount = amount, spp_Keysend = True\<rparr>])"
proof -
  obtain r w1 where r: "run_state (GetOrder F P merchantID orderID) w = (r, w1)" by fastforce
  have log1: "rpc_log w1 = rpc_log w"
    by (rule silentD[OF _ r]) (simp add: GetOrder_def silent_intros)
  have keep1: "others_keep I w1" using keepsD[OF keeps_GetOrder(1) keep, of F P merchantID orderID] r by simp
  obtain a err where parse: "ParseAmount F amountHex = (a, err)" by fastforce
  show ?thesis
  proof (cases "\<exists>x. r = Inr x \<and> or_Status x = ''paid'' \<and> err = None")
    case False
    with run r parse log1 show ?thesis
      by (cases r; cases err) (auto simp: Refund_def split: if_splits)
  next
    case True
    then obtain x where x: "r = Inr x" "or_Status x = ''paid''" and err: "err = None" by blast
    from r[unfolded x(1) GetOrder_def] obtain row where
      row: "find (\<lambda>x. o_id x = orderID \<and> o_merchant_id x = merchantID) (merchant_orders (seen_db w)) = Some row"
        "x = scan_order F P row"
      by (rule scanOrder_seen)
    obtain q w2 where q: "run_state (payerPubkey (or_InvoicePaymentHash x)) w1 = (q, w2)" by fastforce
    have log2: "rpc_log w2 = rpc_log w1" by (rule silentD[OF silent_payerPubkey q])
    show ?thesis
    proof (cases q)
      case (Inl e)
      with run r x parse err q log1 log2 show ?thesis by (auto simp: Refund_def)
    next
      case (Inr payer)
      from q[unfolded Inr] obtain p where
        p: "lookup_row pay_hash (or_InvoicePaymentHash x) (payments (seen_db w1)) = Some p" "pay_peer p = Some payer"
          "payer \<noteq> ''''"
        by (rule payerPubkey_seen)
      have "rpc_log w' = rpc_log w2 @ [CallSendPayment \<lparr>spp_TargetPubkey = payer, spp_Amount = a, spp_Keysend = True\<rparr>]"
        using Refund_pays[OF run] r x parse err q Inr by simp
      moreover have "row \<in> set (merchant_orders (seen_db w))" "o_id row = orderID" "o_merchant_id row = merchantID"
        using row(1) by (auto simp: find_Some_iff)
      moreover have "o_status row = ''paid''" "or_InvoicePaymentHash x = coalesce (o_invoice_payment_hash row) ''''"
        using x(2) row(2) by (simp_all add: scan_order_def)
      ultimately show ?thesis
        using parse err p others_keep_seen[OF keep1] log1 log2 lookup_row_SomeD[OF p(1)] by (intro disjI2) auto
    qed
  qed
qed

theorem refund_only_paid_witness:
  "\<exists>res w' (ord :: order_row). run_state (Refund sample_fibertypes sample_postgres sample_node ''m1'' ''o2'' ''0xff'' ''damaged'')
       (sample_world sample_shop) = (Inr res, w') \<and>
     o_id ord = ''o2'' \<and> o_status ord = ''paid'' \<and> length (rpc_log w') = 1"
proof -
  let ?m = "Refund sample_fibertypes sample_postgres sample_node ''m1'' ''o2'' ''0xff'' ''damaged''"
  have "\<exists>res w'. run_state ?m (sample_world sample_shop) = (Inr res, w')"
    by (simp add: Refund_def GetOrder_def run_scanOrder shop_defs scan_order_def payerPubkey_def io_simps on_schema_def
        lookup_row_def SendPayment_def record_refund_def id_New_def insert_refund_stmt_def mark_refunded_stmt_def
        refund_ins_def Let_def)
  then obtain res w' where run: "run_state ?m (sample_world sample_shop) = (Inr res, w')" by blast
  have "others_keep (\<lambda>_. True) (sample_world sample_shop)" by (simp add: others_keep_def)
  from refund_only_paid[OF run this] obtain ord :: order_row where "o_id ord = ''o2''" "o_status ord = ''paid''"
    "length (rpc_log w') = Suc (length (rpc_log (sample_world sample_shop)))" by auto
  moreover have "rpc_log (sample_world sample_shop) = []" by (simp add: sample_world_def)
  ultimately show ?thesis using run by (intro exI conjI) simp_all
qed

lemma find_keyed:
  assumes "keyed key xs" and "x \<in> set xs" and "Q x" and "\<And>y. Q y \<Longrightarrow> key y = key x"
  shows "find Q xs = Some x"
proof -
  obtain y where y: "find Q xs = Some y" using assms(2,3) by (metis find_None_iff not_None_eq)
  then have "y \<in> set xs" "key y = key x" using assms(4) by (auto simp: find_Some_iff)
  with assms(1,2) have "y = x" by (auto simp: keyed_def distinct_map inj_on_def)
  with y show ?thesis by simp
qed

text \<open>The two steps of a successful refund: what the lookups find, and the state it leaves.\<close>

lemma run_Refund:
  fixes reason :: string
  assumes w: "quiet w" "3 \<le> schema_version (database w)" and keys: "keyed o_id (merchant_orders (database w))"
    and ord: "ord \<in> set (merchant_orders (database w))" "o_id ord = orderID" "o_merchant_id ord = merchantID"
      "o_status ord = ''paid''"
    and parse: "ParseAmount F amountHex = (amount, None)"
    and payer: "lookup_row pay_hash (coalesce (o_invoice_payment_hash ord) '''') (payments (database w)) = Some p"
      "pay_peer p = Some payer" "payer \<noteq> ''''"
    and fresh: "id_source w (id_pos w) \<notin> rf_id ` set (refunds (database w))"
    and node: "node_SendPayment N (rpc_log w) \<lparr>spp_TargetPubkey = payer, spp_Amount = amount, spp_Keysend = True\<rparr> = Inr hash"
  defines "row \<equiv> refund_ins (id_source w (id_pos w)) orderID amount (coalesce (o_asset ord) '''') reason hash (clock w)"
  defines "w1 \<equiv> w\<lparr>rpc_log := rpc_log w @ [CallSendPayment \<lparr>spp_TargetPubkey = payer, spp_Amount = amount, spp_Keysend = True\<rparr>],
    id_pos := Suc (id_pos w),
    database := (database w)\<lparr>refunds := refunds (database w) @ [row], merchant_orders :=
      update_where (\<lambda>x. o_id x = orderID) (\<lambda>x. x\<lparr>o_status := ''refunded''\<rparr>) (merchant_orders (database w))\<rparr>\<rparr>"
  shows "run_state (Refund F P N merchantID orderID amountHex reason) w = (Inr
     \<lparr>re_ID = id_source w (id_pos w), re_OrderID = orderID, re_Amount = Hex F amount, re_Asset = coalesce (o_asset ord) '''',
      re_Reason = reason, re_Status = ''sent'', re_FiberPaymentHash = hash\<rparr>, w1)"
proof -
  have found: "find (\<lambda>x. o_id x = orderID \<and> o_merchant_id x = merchantID) (merchant_orders (database w)) = Some ord"
    by (rule find_keyed[OF keys]) (use ord in auto)
  have exists: "orderID \<in> o_id ` set (merchant_orders (database w))" using ord(1,2) by blast
  have scan: "or_Status (scan_order F P ord) = ''paid''" "or_Asset (scan_order F P ord) = coalesce (o_asset ord) ''''"
    "or_InvoicePaymentHash (scan_order F P ord) = coalesce (o_invoice_payment_hash ord) ''''"
    using ord by (simp_all add: scan_order_def)
  show ?thesis
    using w parse payer fresh node exists
    by (simp add: Refund_def GetOrder_def run_scanOrder found scan payerPubkey_def io_simps merchant_stmts
        SendPayment_def record_refund_def id_New_def refund_ins_def Let_def w1_def row_def)
qed

lemma refunded_in_update:
  assumes "keyed o_id t" and "ord \<in> set t" and "o_id ord = orderID"
  shows "ord\<lparr>o_status := ''refunded''\<rparr> \<in> set (update_where (\<lambda>x. o_id x = orderID) (\<lambda>x. x\<lparr>o_status := ''refunded''\<rparr>) t)"
    and "keyed o_id (update_where (\<lambda>x. o_id x = orderID) (\<lambda>x. x\<lparr>o_status := ''refunded''\<rparr>) t)"
  using assms(2,3) by (force simp: update_where_def, subst keyed_update_where) (simp_all add: assms(1))

lemma run_Refund_refunded:
  assumes w: "quiet w" "3 \<le> schema_version (database w)" and keys: "keyed o_id (merchant_orders (database w))"
    and ord: "ord \<in> set (merchant_orders (database w))" "o_id ord = orderID" "o_merchant_id ord = merchantID"
      "o_status ord = ''refunded''"
  shows "run_state (Refund F P N merchantID orderID amountHex reason) w =
    (Inl (Errorf ''%w: order status is %q, must be paid'' [''refunded''] (Some ErrInvalidState)), w)"
proof -
  have "find (\<lambda>x. o_id x = orderID \<and> o_merchant_id x = merchantID) (merchant_orders (database w)) = Some ord"
    by (rule find_keyed[OF keys]) (use ord in auto)
  with w ord(4) show ?thesis by (simp add: Refund_def GetOrder_def run_scanOrder scan_order_def)
qed

text \<open>C31: a refund that succeeds is recorded once. On an undisturbed server the refund of a paid order sends one
  payment, appends one refund row with its hash and amount, sets the order's status to \<open>refunded\<close> and
  leaves all other orders alone; a second refund of the same order is refused as an invalid state
  before any payment.\<close>

theorem refund_recorded_once:
  assumes w: "quiet w" "3 \<le> schema_version (database w)" and keys: "keyed o_id (merchant_orders (database w))"
    and ord: "ord \<in> set (merchant_orders (database w))" "o_id ord = orderID" "o_merchant_id ord = merchantID"
      "o_status ord = ''paid''"
    and parse: "ParseAmount F amountHex = (amount, None)"
    and payer: "lookup_row pay_hash (coalesce (o_invoice_payment_hash ord) '''') (payments (database w)) = Some p"
      "pay_peer p = Some payer" "payer \<noteq> ''''"
    and fresh: "id_source w (id_pos w) \<notin> rf_id ` set (refunds (database w))"
    and node: "node_SendPayment N (rpc_log w) \<lparr>spp_TargetPubkey = payer, spp_Amount = amount, spp_Keysend = True\<rparr> = Inr hash"
  shows "\<exists>ret w1. run_state (Refund F P N merchantID orderID amountHex reason) w = (Inr ret, w1) \<and>
    re_Status ret = ''sent'' \<and> re_FiberPaymentHash ret = hash \<and> re_Amount ret = Hex F amount \<and>
    refunds (database w1) = refunds (database w) @
      [refund_ins (id_source w (id_pos w)) orderID amount (coalesce (o_asset ord) '''') reason hash (clock w)] \<and>
    merchant_orders (database w1) =
      update_where (\<lambda>x. o_id x = orderID) (\<lambda>x. x\<lparr>o_status := ''refunded''\<rparr>) (merchant_orders (database w)) \<and>
    rpc_log w1 = rpc_log w @ [CallSendPayment \<lparr>spp_TargetPubkey = payer, spp_Amount = amount, spp_Keysend = True\<rparr>] \<and>
    (\<forall>amountHex' reason'. run_state (Refund F P N merchantID orderID amountHex' reason') w1 =
       (Inl (Errorf ''%w: order status is %q, must be paid'' [''refunded''] (Some ErrInvalidState)), w1))"
proof -
  let ?row = "refund_ins (id_source w (id_pos w)) orderID amount (coalesce (o_asset ord) '''') reason hash (clock w)"
  let ?upd = "update_where (\<lambda>x. o_id x = orderID) (\<lambda>x. x\<lparr>o_status := ''refunded''\<rparr>) (merchant_orders (database w))"
  let ?w1 = "w\<lparr>rpc_log := rpc_log w @ [CallSendPayment \<lparr>spp_TargetPubkey = payer, spp_Amount = amount, spp_Keysend = True\<rparr>],
    id_pos := Suc (id_pos w),
    database := (database w)\<lparr>refunds := refunds (database w) @ [?row], merchant_orders := ?upd\<rparr>\<rparr>"
  note upd = refunded_in_update[OF keys ord(1,2)]
  have "run_state (Refund F P N merchantID orderID amountHex' reason') ?w1 =
      (Inl (Errorf ''%w: order status is %q, must be paid'' [''refunded''] (Some ErrInvalidState)), ?w1)" for amountHex' reason'
    by (rule run_Refund_refunded[where ord = "ord\<lparr>o_status := ''refunded''\<rparr>"]) (use w ord upd in simp_all)
  then show ?thesis
    using run_Refund[OF w keys ord parse payer fresh node, of P reason] by (intro exI conjI) (assumption, simp_all)
qed

theorem refund_recorded_once_witness:
  "\<exists>ret w1. run_state (Refund sample_fibertypes sample_postgres sample_node ''m1'' ''o2'' ''0xff'' ''damaged'')
       (sample_world sample_shop) = (Inr ret, w1) \<and> re_FiberPaymentHash ret = ''h8'' \<and>
     run_state (Refund sample_fibertypes sample_postgres sample_node ''m1'' ''o2'' ''0x1'' '''') w1 =
       (Inl (Errorf ''%w: order status is %q, must be paid'' [''refunded''] (Some ErrInvalidState)), w1)"
proof -
  let ?w = "sample_world sample_shop"
  have hyps: "quiet ?w" "3 \<le> schema_version (database ?w)" "keyed o_id (merchant_orders (database ?w))"
    "sample_paid \<in> set (merchant_orders (database ?w))" "o_id sample_paid = ''o2''" "o_merchant_id sample_paid = ''m1''"
    "o_status sample_paid = ''paid''"
    "lookup_row pay_hash (coalesce (o_invoice_payment_hash sample_paid) '''') (payments (database ?w)) = Some sample_payer"
    "pay_peer sample_payer = Some ''pk''" "''pk'' \<noteq> ''''"
    "id_source ?w (id_pos ?w) \<notin> rf_id ` set (refunds (database ?w))"
    "node_SendPayment sample_node (rpc_log ?w) \<lparr>spp_TargetPubkey = ''pk'', spp_Amount = 255, spp_Keysend = True\<rparr> = Inr ''h8''"
    by (simp_all add: shop_defs keyed_def lookup_row_def)
  from refund_recorded_once[OF hyps(1-7) sample_parse hyps(8-12), where P = sample_postgres and reason = "''damaged''"]
  show ?thesis by blast
qed

section \<open>Where the code falls short of its comments\<close>

text \<open>
  \<open>Refund\<close> pays before it records: when recording fails, the order stays \<open>paid\<close>, nothing is stored, and
  repeating the request pays a second time.
\<close>

lemma refund_can_pay_twice:
  "\<exists>e w1 ret w2. run_state (Refund sample_fibertypes sample_postgres sample_node ''m1'' ''o2'' ''0xff'' '''')
      ((sample_world sample_shop)\<lparr>schedule := [quiet_tick, quiet_tick, quiet_tick\<lparr>tick_reply := Fail_before ''conn closed''\<rparr>]\<rparr>) =
      (Inl e, w1) \<and> refunds (database w1) = [] \<and>
    run_state (Refund sample_fibertypes sample_postgres sample_node ''m1'' ''o2'' ''0xff'' '''') w1 = (Inr ret, w2) \<and>
    length (rpc_log w2) = 2"
  by (simp add: Refund_def GetOrder_def scanOrder_def pool_exec_def next_tick_def quiet_tick_def run_reply_def reply_of_def
      on_schema_def payerPubkey_def SendPayment_def record_refund_def id_New_def insert_refund_stmt_def mark_refunded_stmt_def
      refund_ins_def scan_order_def lookup_row_def shop_defs Let_def)

text \<open>
  A request that loses the race for an external order id has already requested an invoice, and returns
  the winner's order together with its own invoice.
\<close>

lemma race_mints_second_invoice:
  "\<exists>ord iv w1. run_state (CreateOrder sample_fibertypes sample_postgres sample_node ''m1'' ''x7'' ''0xff'' '''')
      ((sample_world sample_db)\<lparr>schedule := [quiet_tick, quiet_tick\<lparr>others := (\<lambda>d. d\<lparr>merchant_orders := merchant_orders d @
         [order_ins ''o7'' ''m1'' ''x7'' ''h7'' 255 ''CKB'' 0]\<rparr>)\<rparr>]\<rparr>) = (Inr (ord, iv), w1) \<and>
    or_ID ord = ''o7'' \<and> or_InvoicePaymentHash ord = ''h7'' \<and> in_PaymentHash iv = ''h9'' \<and> length (rpc_log w1) = 1"
  by (simp add: CreateOrder_def orderByExternalID_def scanOrder_def pool_exec_def next_tick_def quiet_tick_def run_reply_def
      reply_of_def on_schema_def mint_order_def place_order_def NewInvoice_def id_New_def insert_order_stmt_def order_ins_def
      order_ext_key_def scan_order_def ErrNoRows_def merchant_ErrNotFound_def shop_defs Let_def)

end
