(* ===== verification/Reports_Spec.thy ===== *)
theory Reports_Spec
  imports Merchant_Spec "HOL-Library.Multiset"
begin

text \<open>
  The reports of the merchant backend: settlements, reconciliation and the accounting export.
\<close>

section \<open>Amounts in reports\<close>

lemma mustAmount_numeric_of:
  "fibertypes_ok F \<Longrightarrow> postgres_ok P \<Longrightarrow> 0 \<le> v \<Longrightarrow> v < 2 ^ 128 \<Longrightarrow> mustAmount F (numeric_of P v) = nat v"
  by (simp add: mustAmount_def NumericToAmount_dec postgres_ok_def)

lemma parse_big_nat: "fibertypes_ok F \<Longrightarrow> 0 \<le> v \<Longrightarrow> v < 2 ^ 128 \<Longrightarrow> parse_big F v = nat v"
  unfolding parse_big_def by (subst Text16_nonneg) (simp_all add: fibertypes_ok_Parse nat_less_iff)

lemma parse_hex_wire: "fibertypes_ok F \<Longrightarrow> 0 \<le> v \<Longrightarrow> v < 2 ^ 128 \<Longrightarrow> fst (ParseAmount F (hex_wire (nat v))) = nat v"
  by (simp add: fibertypes_ok_Parse nat_less_iff)

text \<open>The orders of a report, and the sums over a list of orders.\<close>

definition period_orders :: "postgres \<Rightarrow> string \<Rightarrow> string \<Rightarrow> db \<Rightarrow> order_row list" where
  "period_orders P merchantID period d = filter (paid_in P merchantID period) (merchant_orders d)"

definition total_amount :: "order_row list \<Rightarrow> int" where
  "total_amount xs = (\<Sum>x\<leftarrow>xs. coalesce (o_amount x) 0)"

definition total_refunds :: "db \<Rightarrow> order_row list \<Rightarrow> int" where
  "total_refunds d xs = (\<Sum>x\<leftarrow>xs. \<Sum>r\<leftarrow>filter (\<lambda>r. rf_order_id r = o_id x) (refunds d). coalesce (rf_amount r) 0)"

lemma sql_total_amount: "coalesce (sql_sum (map o_amount xs)) 0 = total_amount xs"
  by (simp add: coalesce_sql_sum total_amount_def comp_def)

lemma sql_total_refunds: "coalesce (sql_sum (map (refunded d) xs)) 0 = total_refunds d xs"
  by (simp add: coalesce_sql_sum total_refunds_def comp_def refunded_def)

text \<open>Ids that have not been used.\<close>

definition fresh_ids :: "world \<Rightarrow> string set \<Rightarrow> bool" where
  "fresh_ids w A \<longleftrightarrow> inj (id_source w) \<and> (\<forall>k \<ge> id_pos w. id_source w k \<notin> A)"

section \<open>Settlements\<close>

text \<open>The row a settlement line is stored as.\<close>

definition stored_line :: "string \<Rightarrow> string \<Rightarrow> string \<times> int \<times> int \<times> int \<Rightarrow> string \<Rightarrow> time \<Rightarrow> settlement_row" where
  "stored_line merchantID period = (\<lambda>(a, g, f, n) sid now. \<lparr>st_id = sid, st_merchant_id = merchantID, st_period = period,
     st_gross = g, st_fees = f, st_net = n, st_asset = a, st_status = ''generated'', st_generated_at = now\<rparr>)"

definition shown_line :: "string \<Rightarrow> string \<times> int \<times> int \<times> int \<Rightarrow> settlement_line" where
  "shown_line period = (\<lambda>(a, g, f, n). \<lparr>sl_Asset = a, sl_Gross = hex_wire (nat g), sl_Fees = hex_wire (nat f),
     sl_Net = hex_wire (nat n), sl_Period = period\<rparr>)"

definition representable :: "string \<times> int \<times> int \<times> int \<Rightarrow> bool" where
  "representable = (\<lambda>(a, g, f, n). 0 \<le> g \<and> g < 2 ^ 128 \<and> 0 \<le> f \<and> f < 2 ^ 128 \<and> 0 \<le> n \<and> n < 2 ^ 128)"

lemma run_persist:
  assumes F: "fibertypes_ok F" and "quiet w" and "3 \<le> schema_version (database w)"
    and "fresh_ids w (st_id ` set (settlements (database w)))" and "list_all representable ls"
  shows "run_state (for_each (persist_settlement F merchantID period) (map (shown_line period) ls)) w =
    (Inr (), w\<lparr>id_pos := id_pos w + length ls, database := (database w)\<lparr>settlements := settlements (database w) @
       map (\<lambda>(l, k). stored_line merchantID period l (id_source w k) (clock w)) (zip ls [id_pos w..<id_pos w + length ls])\<rparr>\<rparr>)"
  using assms(2-)
proof (induction ls arbitrary: w)
  case Nil
  then show ?case by simp
next
  case (Cons l ls)
  obtain a g f n where l: "l = (a, g, f, n)" by (cases l)
  with Cons.prems(4) have rep: "0 \<le> g" "g < 2 ^ 128" "0 \<le> f" "f < 2 ^ 128" "0 \<le> n" "n < 2 ^ 128"
    by (auto simp: representable_def)
  let ?row = "stored_line merchantID period l (id_source w (id_pos w)) (clock w)"
  let ?w = "w\<lparr>id_pos := Suc (id_pos w), database := (database w)\<lparr>settlements := settlements (database w) @ [?row]\<rparr>\<rparr>"
  have new: "id_source w (id_pos w) \<notin> st_id ` set (settlements (database w))"
    using Cons.prems(3) by (simp add: fresh_ids_def)
  have step: "run_state (persist_settlement F merchantID period (shown_line period l)) w = (Inr (), ?w)"
    using Cons.prems(1,2) new rep
    by (simp add: persist_settlement_def shown_line_def l id_New_def io_simps insert_settlement_stmt_def on_schema_def
        parse_hex_wire[OF F] stored_line_def Let_def)
  have "fresh_ids ?w (st_id ` set (settlements (database ?w)))"
    using Cons.prems(3) by (auto simp: fresh_ids_def stored_line_def l dest: injD)
  from Cons.IH[OF _ _ this] Cons.prems
  have "run_state (for_each (persist_settlement F merchantID period) (map (shown_line period) ls)) ?w =
    (Inr (), ?w\<lparr>id_pos := Suc (id_pos w) + length ls, database := (database ?w)\<lparr>settlements := (settlements (database w) @ [?row]) @
       map (\<lambda>(l, k). stored_line merchantID period l (id_source w k) (clock w))
         (zip ls [Suc (id_pos w)..<Suc (id_pos w) + length ls])\<rparr>\<rparr>)"
    by simp
  moreover have "[id_pos w..<Suc (id_pos w + length ls)] = id_pos w # [Suc (id_pos w)..<Suc (id_pos w + length ls)]"
    by (rule upt_conv_Cons) simp
  ultimately show ?case using step by (simp del: upt_Suc)
qed

text \<open>C23: a settlement adds up. For a merchant and a period, the lines are sorted by asset with one line per asset
  of the orders paid in that period; the gross is the exact sum of those orders, the fees the exact
  sum of their refunds, and the net is gross minus fees, or zero if more was refunded. What is
  returned is what is stored: the same figures are appended to the settlements, and nothing else in
  the database changes.\<close>

theorem settlement_adds_up:
  assumes F: "fibertypes_ok F" and P: "postgres_ok P" and w: "quiet w" "3 \<le> schema_version (database w)"
    and fresh: "fresh_ids w (st_id ` set (settlements (database w)))"
    and nonneg: "\<forall>x \<in> set (merchant_orders (database w)). 0 \<le> coalesce (o_amount x) 0"
      "\<forall>r \<in> set (refunds (database w)). 0 \<le> coalesce (rf_amount r) 0"
    and bound: "total_amount (period_orders P merchantID period (database w)) < 2 ^ 128"
      "total_refunds (database w) (period_orders P merchantID period (database w)) < 2 ^ 128"
  defines "grp \<equiv> \<lambda>a. filter (\<lambda>x. settlement_asset x = a) (period_orders P merchantID period (database w))"
  shows "\<exists>assets w1. sorted_wrt (collate_le P) assets \<and> distinct assets \<and>
    set assets = settlement_asset ` set (period_orders P merchantID period (database w)) \<and>
    (let lines = map (\<lambda>a. (a, total_amount (grp a), total_refunds (database w) (grp a),
           max 0 (total_amount (grp a) - total_refunds (database w) (grp a)))) assets
     in run_state (Settlement F P merchantID period) w = (Inr (map (shown_line period) lines), w1) \<and>
        database w1 = (database w)\<lparr>settlements := settlements (database w) @
          map (\<lambda>(l, k). stored_line merchantID period l (id_source w k) (clock w))
            (zip lines [id_pos w..<id_pos w + length lines])\<rparr>)"
proof -
  let ?hits = "period_orders P merchantID period (database w)"
  define assets where "assets = sort_by (collate_le P) (remdups (map settlement_asset ?hits))"
  define line where "line a = (a, total_amount (grp a), total_refunds (database w) (grp a),
    max 0 (total_amount (grp a) - total_refunds (database w) (grp a)))" for a
  have sub: "0 \<le> total_amount (grp a)" "total_amount (grp a) \<le> total_amount ?hits"
    "0 \<le> total_refunds (database w) (grp a)" "total_refunds (database w) (grp a) \<le> total_refunds (database w) ?hits" for a
  proof -
    have 1: "\<forall>x \<in> set ?hits. 0 \<le> coalesce (o_amount x) 0" using nonneg(1) by (simp add: period_orders_def)
    have 2: "\<forall>x \<in> set ?hits. 0 \<le> (\<Sum>r\<leftarrow>filter (\<lambda>r. rf_order_id r = o_id x) (refunds (database w)). coalesce (rf_amount r) 0)"
      using sum_filter_bounds[OF nonneg(2)] by blast
    show "0 \<le> total_amount (grp a)" "total_amount (grp a) \<le> total_amount ?hits"
      using sum_filter_bounds[OF 1] by (simp_all add: total_amount_def grp_def)
    show "0 \<le> total_refunds (database w) (grp a)" "total_refunds (database w) (grp a) \<le> total_refunds (database w) ?hits"
      using sum_filter_bounds[OF 2] by (simp_all add: total_refunds_def grp_def)
  qed
  have rep: "representable (line a)" for a
    using sub[of a] bound by (simp add: representable_def line_def)
  have "settlement_line_of F P period (a, total_amount (grp a), total_refunds (database w) (grp a)) = shown_line period (line a)" for a
    using rep[of a] unfolding representable_def line_def
    by (auto simp: settlement_line_of_def shown_line_def mustAmount_numeric_of[OF F P] parse_big_nat[OF F]
        fibertypes_ok_Hex[OF F] Let_def max_def)
  then have rows: "map (settlement_line_of F P period) (settlement_rows P merchantID period (database w)) =
      map (shown_line period) (map line assets)"
    by (simp add: settlement_rows_def Let_def sql_total_amount sql_total_refunds period_orders_def[symmetric]
        assets_def[symmetric]) (simp add: grp_def)
  have "run_state (Settlement F P merchantID period) w =
    (Inr (map (shown_line period) (map line assets)),
     w\<lparr>id_pos := id_pos w + length (map line assets), database := (database w)\<lparr>settlements := settlements (database w) @
       map (\<lambda>(l, k). stored_line merchantID period l (id_source w k) (clock w))
         (zip (map line assets) [id_pos w..<id_pos w + length (map line assets)])\<rparr>\<rparr>)"
    using run_persist[OF F w fresh, of "map line assets" merchantID period] rep w rows
    by (simp add: Settlement_def io_simps on_schema_def list_all_iff Let_def del: map_map)
  moreover have "total_preorder (collate_le P)"
    using P by unfold_locales (auto simp: postgres_ok_def collation_ok_def)
  then have "sorted_wrt (collate_le P) assets" unfolding assets_def by (rule total_preorder.sorted_sort_by)
  ultimately show ?thesis
    unfolding Let_def line_def[symmetric]
    by (intro exI[of _ assets] exI conjI) (auto simp: assets_def)
qed

definition sample_refund :: refund_row where
  "sample_refund = refund_ins ''r1'' ''o2'' 55 ''CKB'' ''damaged'' ''h8'' 8000"

definition sample_ledger :: db where
  "sample_ledger = sample_shop\<lparr>merchant_orders := [sample_order, sample_paid,
     sample_paid\<lparr>o_id := ''o3'', o_external_order_id := None, o_invoice_payment_hash := Some ''h3'', o_amount := Some 45\<rparr>],
     refunds := [sample_refund]\<rparr>"

lemmas ledger_defs = sample_ledger_def sample_refund_def refund_ins_def shop_defs

lemma sample_ids: "fresh_ids (sample_world d) A" if "\<forall>k. ''id'' @ replicate k CHR ''i'' \<notin> A"
proof -
  have "inj (\<lambda>n. ''id'' @ replicate n CHR ''i'')" by (auto simp: inj_def dest: arg_cong[where f = length])
  with that show ?thesis by (simp add: fresh_ids_def sample_world_def)
qed

lemma sample_period [simp]:
  "period_orders sample_postgres ''m1'' ''1970-01'' (database (sample_world sample_ledger)) =
     [sample_paid, sample_paid\<lparr>o_id := ''o3'', o_external_order_id := None, o_invoice_payment_hash := Some ''h3'', o_amount := Some 45\<rparr>]"
  by (simp add: period_orders_def ledger_defs paid_in_def)

lemma sample_ledger_refunds [simp]: "refunds (database (sample_world sample_ledger)) = [sample_refund]"
  by (simp add: sample_ledger_def sample_world_def)

lemma distinct_singletonD: "distinct xs \<Longrightarrow> set xs = {a} \<Longrightarrow> xs = [a]"
  by (cases xs; cases "tl xs") auto

theorem settlement_adds_up_witness:
  "\<exists>w1. run_state (Settlement sample_fibertypes sample_postgres ''m1'' ''1970-01'') (sample_world sample_ledger) =
     (Inr [\<lparr>sl_Asset = ''CKB'', sl_Gross = hex_wire 300, sl_Fees = hex_wire 55, sl_Net = hex_wire 245,
            sl_Period = ''1970-01''\<rparr>], w1)"
proof -
  let ?w = "sample_world sample_ledger"
  have fresh: "fresh_ids ?w (st_id ` set (settlements (database ?w)))"
    by (rule sample_ids) (simp add: ledger_defs)
  have hyps: "quiet ?w" "3 \<le> schema_version (database ?w)"
    "\<forall>x \<in> set (merchant_orders (database ?w)). 0 \<le> coalesce (o_amount x) 0"
    "\<forall>r \<in> set (refunds (database ?w)). 0 \<le> coalesce (rf_amount r) 0"
    "total_amount (period_orders sample_postgres ''m1'' ''1970-01'' (database ?w)) < 2 ^ 128"
    "total_refunds (database ?w) (period_orders sample_postgres ''m1'' ''1970-01'' (database ?w)) < 2 ^ 128"
    by (simp_all add: ledger_defs total_amount_def total_refunds_def period_orders_def paid_in_def)
  from settlement_adds_up[OF sample_fibertypes_ok sample_postgres_ok hyps(1,2) fresh hyps(3-6)]
  obtain assets w1 where a: "distinct assets" "set assets = {''CKB''}" and run:
    "run_state (Settlement sample_fibertypes sample_postgres ''m1'' ''1970-01'') ?w =
       (Inr (map (shown_line ''1970-01'') (map (\<lambda>a. let g = filter (\<lambda>x. settlement_asset x = a)
          (period_orders sample_postgres ''m1'' ''1970-01'' (database ?w)) in
          (a, total_amount g, total_refunds (database ?w) g, max 0 (total_amount g - total_refunds (database ?w) g))) assets)), w1)"
    unfolding Let_def by (auto simp: settlement_asset_def sample_paid_def sample_order_def)
  from a have "assets = [''CKB'']" by (rule distinct_singletonD)
  with run show ?thesis
    by (simp add: shown_line_def settlement_asset_def sample_paid_def sample_order_def sample_refund_def refund_ins_def
        total_amount_def total_refunds_def)
qed

section \<open>Reconciliation\<close>

lemma reconcile_loop_result:
  assumes "fibertypes_ok F" "postgres_ok P" and "\<forall>x \<in> set xs. \<not> m x \<longrightarrow> 0 \<le> coalesce (o_amount x) 0 \<and> coalesce (o_amount x) 0 < 2 ^ 128"
  shows "reconcile_loop F P (map (\<lambda>x. (o_id x, m x, coalesce (o_amount x) 0)) xs) (rc, disc) =
    (rc\<lparr>rec_Matched := rec_Matched rc + int (length (filter m xs)),
        rec_UnmatchedCount := rec_UnmatchedCount rc + int (length (filter (\<lambda>x. \<not> m x) xs)),
        rec_UnmatchedOrders := rec_UnmatchedOrders rc @ map o_id (filter (\<lambda>x. \<not> m x) xs)\<rparr>,
     disc + total_amount (filter (\<lambda>x. \<not> m x) xs))"
  using assms(3)
proof (induction xs arbitrary: rc disc)
  case Nil
  then show ?case by (simp add: total_amount_def)
next
  case (Cons x xs)
  then show ?case by (simp add: total_amount_def mustAmount_numeric_of[OF assms(1,2)])
qed

text \<open>C30: a reconciliation accounts for every paid order of the period. The orders whose invoice hash has a payment
  are counted as matched, all others are listed by id and counted as unmatched, the two counts add up
  to the number of orders, the discrepancy is the exact sum of the unmatched orders, and one run with
  these figures is recorded while nothing else changes.\<close>

theorem reconciliation_partitions:
  assumes F: "fibertypes_ok F" and P: "postgres_ok P" and w: "quiet w" "3 \<le> schema_version (database w)"
    and fresh: "id_source w (id_pos w) \<notin> rc_id ` set (reconciliation_runs (database w))"
    and nonneg: "\<forall>x \<in> set (merchant_orders (database w)). 0 \<le> coalesce (o_amount x) 0"
    and bound: "total_amount (period_orders P merchantID period (database w)) < 2 ^ 128"
  defines "hits \<equiv> period_orders P merchantID period (database w)"
  defines "unmatched \<equiv> filter (\<lambda>x. \<not> has_payment (database w) x) hits"
  shows "\<exists>rc w1. run_state (Reconciliation F P merchantID period) w = (Inr rc, w1) \<and>
    rec_Period rc = period \<and> rec_Matched rc = int (length (filter (has_payment (database w)) hits)) \<and>
    rec_UnmatchedCount rc = int (length unmatched) \<and> rec_Matched rc + rec_UnmatchedCount rc = int (length hits) \<and>
    rec_UnmatchedOrders rc = map o_id unmatched \<and> rec_DiscrepancyTotal rc = hex_wire (nat (total_amount unmatched)) \<and>
    database w1 = (database w)\<lparr>reconciliation_runs := reconciliation_runs (database w) @
      [\<lparr>rc_id = id_source w (id_pos w), rc_merchant_id = merchantID, rc_period = period, rc_matched = rec_Matched rc,
        rc_unmatched_count = rec_UnmatchedCount rc, rc_discrepancy_total = total_amount unmatched, rc_report = rc,
        rc_created_at = clock w\<rparr>]\<rparr>"
proof -
  have pos: "\<forall>x \<in> set hits. 0 \<le> coalesce (o_amount x) 0" using nonneg by (simp add: hits_def period_orders_def)
  have each: "0 \<le> coalesce (o_amount x) 0 \<and> coalesce (o_amount x) 0 < 2 ^ 128" if "x \<in> set hits" for x
  proof -
    have "coalesce (o_amount x) 0 \<le> total_amount hits"
      unfolding total_amount_def using pos that by (intro member_le_sum_list) auto
    then show ?thesis using that pos bound by (auto simp: hits_def)
  qed
  have un: "0 \<le> total_amount unmatched" "total_amount unmatched < 2 ^ 128"
    using sum_filter_bounds[OF pos, of "\<lambda>x. \<not> has_payment (database w) x"] bound
    by (simp_all add: total_amount_def unmatched_def hits_def)
  have rows: "reconcile_rows P merchantID period (database w) =
      map (\<lambda>x. (o_id x, has_payment (database w) x, coalesce (o_amount x) 0)) hits"
    by (simp add: reconcile_rows_def hits_def period_orders_def)
  note loop = reconcile_loop_result[OF F P, of hits "has_payment (database w)"]
  have len: "length (filter (has_payment (database w)) hits) + length unmatched = length hits"
    unfolding unmatched_def by (rule sum_length_filter_compl)
  show ?thesis
    using w fresh each un len
    by (simp add: Reconciliation_def io_simps on_schema_def rows loop Let_def unmatched_def[symmetric]
        parse_big_nat[OF F] fibertypes_ok_Hex[OF F] id_New_def insert_run_stmt_def flip: of_nat_add)
qed

theorem reconciliation_partitions_witness:
  "\<exists>rc w1. run_state (Reconciliation sample_fibertypes sample_postgres ''m1'' ''1970-01'') (sample_world sample_ledger) = (Inr rc, w1) \<and>
     rec_Matched rc = 1 \<and> rec_UnmatchedOrders rc = [''o3''] \<and> rec_DiscrepancyTotal rc = hex_wire 45"
proof -
  let ?w = "sample_world sample_ledger" and ?o3 = "sample_paid\<lparr>o_id := ''o3'', o_external_order_id := None,
    o_invoice_payment_hash := Some ''h3'', o_amount := Some 45\<rparr>"
  have hyps: "quiet ?w" "3 \<le> schema_version (database ?w)"
    "id_source ?w (id_pos ?w) \<notin> rc_id ` set (reconciliation_runs (database ?w))"
    "\<forall>x \<in> set (merchant_orders (database ?w)). 0 \<le> coalesce (o_amount x) 0"
    "total_amount (period_orders sample_postgres ''m1'' ''1970-01'' (database ?w)) < 2 ^ 128"
    by (simp_all add: ledger_defs total_amount_def period_orders_def paid_in_def)
  have pay: "has_payment (database ?w) sample_paid" "\<not> has_payment (database ?w) ?o3"
    by (simp_all add: has_payment_def ledger_defs lookup_row_def)
  have sums: "total_amount [?o3] = 45" by (simp add: total_amount_def)
  from reconciliation_partitions[OF sample_fibertypes_ok sample_postgres_ok hyps]
  obtain rc w1 where "run_state (Reconciliation sample_fibertypes sample_postgres ''m1'' ''1970-01'') ?w = (Inr rc, w1)"
    "rec_Matched rc = 1" "rec_UnmatchedOrders rc = [''o3'']" "rec_DiscrepancyTotal rc = hex_wire 45"
    unfolding sample_period by (simp add: pay sums) blast
  then show ?thesis by blast
qed

section \<open>Accounting export\<close>

lemma mset_insort_by [simp]: "mset (insort_by le x xs) = add_mset x (mset xs)"
  by (induction xs) auto

lemma mset_sort_by [simp]: "mset (sort_by le xs) = mset xs"
  by (induction xs) auto

interpretation paid_order: total_preorder paid_before
  by unfold_locales (auto simp: paid_before_def split: option.splits)

text \<open>C29: the accounting export is complete and readable. The CSV a merchant downloads for a period, read back by
  RFC 4180, is the header followed by one record for each order paid in the period, in the order of
  payment, with its id, external id, asset, exact amount, status, time and exact sum of refunds,
  whatever commas, quotes, line breaks or spaces the texts contain.\<close>

theorem export_reads_back:
  assumes F: "fibertypes_ok F" and P: "postgres_ok P" and w: "quiet w" "3 \<le> schema_version (database w)"
    and format: "format = '''' \<or> format = ''csv''"
    and amounts: "\<forall>x \<in> set (period_orders P merchantID period (database w)).
      (\<exists>v. o_amount x = Some v \<and> 0 \<le> v \<and> v < 2 ^ 128) \<and>
      0 \<le> total_refunds (database w) [x] \<and> total_refunds (database w) [x] < 2 ^ 128"
  shows "\<exists>bytes xs. run_state (Export F P X merchantID period format) w =
      (Inr (''settlement-'' @ period @ ''.csv'', ''text/csv'', bytes), w) \<and>
    mset xs = mset (period_orders P merchantID period (database w)) \<and>
    sorted_wrt (\<lambda>x y. the (o_paid_at x) \<le> the (o_paid_at y)) xs \<and>
    read_csv Start [] [] bytes = Some (exportHeader # map (\<lambda>x.
      [o_id x, coalesce (o_external_order_id x) '''', coalesce (o_asset x) '''', hex_wire (nat (the (o_amount x))), o_status x,
       Format_RFC3339 (the (o_paid_at x)), hex_wire (nat (total_refunds (database w) [x]))]) xs)"
proof -
  define rows where "rows = export_query P merchantID period (database w)"
  define xs where "xs = map fst rows"
  have rows_eq: "mset rows = mset (map (\<lambda>x. (x, coalesce (refunded (database w) x) 0)) (period_orders P merchantID period (database w)))"
    unfolding rows_def export_query_def period_orders_def by (rule mset_sort_by)
  have mem: "mset xs = mset (period_orders P merchantID period (database w))"
    unfolding xs_def using arg_cong[OF rows_eq, of "image_mset fst"] by (simp add: multiset.map_comp comp_def)
  have row: "snd r = total_refunds (database w) [fst r] \<and> fst r \<in> set (period_orders P merchantID period (database w))"
    if "r \<in> set rows" for r
  proof -
    from that have "r \<in># mset rows" by simp
    then show ?thesis unfolding rows_eq using sql_total_refunds[of "database w" "[fst r]"]
      by (auto simp: total_refunds_def coalesce_sql_sum comp_def refunded_def)
  qed
  have paid: "\<exists>t. o_paid_at x = Some t" if "x \<in> set (period_orders P merchantID period (database w))" for x
    using that by (auto simp: period_orders_def paid_in_def split: option.splits)
  have paid_row: "\<exists>t. o_paid_at (fst r) = Some t" if "r \<in> set rows" for r
    using row[OF that] paid by blast
  have "sorted_wrt paid_before rows" unfolding rows_def export_query_def by (rule paid_order.sorted_sort_by)
  then have "sorted_wrt (\<lambda>x y. the (o_paid_at x) \<le> the (o_paid_at y)) xs"
    unfolding xs_def sorted_wrt_map
    by (rule sorted_wrt_mono_rel[rotated]) (auto dest!: paid_row simp: paid_before_def split: prod.splits)
  moreover have "cells (export_row_of F P r) =
      (let x = fst r in [o_id x, coalesce (o_external_order_id x) '''', coalesce (o_asset x) '''', hex_wire (nat (the (o_amount x))),
        o_status x, Format_RFC3339 (the (o_paid_at x)), hex_wire (nat (total_refunds (database w) [x]))])"
    if "r \<in> set rows" for r
    using row[OF that] paid[of "fst r"] amounts
    by (cases r) (auto simp: cells_def export_row_of_def scan_numeric_def mustAmount_numeric_of[OF F P] fibertypes_ok_Hex[OF F])
  then have "map (\<lambda>r. cells (export_row_of F P r)) rows = map (\<lambda>x. [o_id x, coalesce (o_external_order_id x) '''',
      coalesce (o_asset x) '''', hex_wire (nat (the (o_amount x))), o_status x, Format_RFC3339 (the (o_paid_at x)),
      hex_wire (nat (total_refunds (database w) [x]))]) xs"
    by (simp add: xs_def Let_def)
  moreover have "read_csv Start [] [] (buildCSV (map (export_row_of F P) rows)) =
      Some (exportHeader # map (\<lambda>r. cells (export_row_of F P r)) rows)"
    using read_records[of "exportHeader # map (\<lambda>r. cells (export_row_of F P r)) rows"]
    by (auto simp: buildCSV_def exportHeader_def cells_def comp_def)
  moreover have "run_state (Export F P X merchantID period format) w =
      (Inr (''settlement-'' @ period @ ''.csv'', ''text/csv'', buildCSV (map (export_row_of F P) rows)), w)"
    using w format by (auto simp: Export_def exportRows_def io_simps on_schema_def rows_def)
  ultimately show ?thesis using mem by (intro exI conjI) (assumption | simp)+
qed

theorem export_reads_back_witness:
  "\<exists>bytes. run_state (Export sample_fibertypes sample_postgres \<lparr>NewSheet = None, WriteToBuffer = (\<lambda>_ _. Inr '''')\<rparr> ''m1'' ''1970-01'' ''csv'')
       (sample_world sample_ledger) = (Inr (''settlement-1970-01.csv'', ''text/csv'', bytes), sample_world sample_ledger) \<and>
     (\<exists>recs. read_csv Start [] [] bytes = Some (exportHeader # recs) \<and> length recs = 2)"
proof -
  let ?w = "sample_world sample_ledger" and ?X = "\<lparr>NewSheet = None, WriteToBuffer = (\<lambda>_ _. Inr '''')\<rparr> :: excelize"
  have hyps: "quiet ?w" "3 \<le> schema_version (database ?w)"
    by (simp_all add: ledger_defs)
  have amounts: "\<forall>x \<in> set (period_orders sample_postgres ''m1'' ''1970-01'' (database ?w)).
      (\<exists>v. o_amount x = Some v \<and> 0 \<le> v \<and> v < 2 ^ 128) \<and>
      0 \<le> total_refunds (database ?w) [x] \<and> total_refunds (database ?w) [x] < 2 ^ 128"
    unfolding sample_period
    by (simp add: sample_paid_def sample_order_def total_refunds_def sample_refund_def refund_ins_def)
  from export_reads_back[OF sample_fibertypes_ok sample_postgres_ok hyps, of "''csv''" "''m1''" "''1970-01''" ?X] amounts
  obtain bytes xs where run: "run_state (Export sample_fibertypes sample_postgres ?X ''m1'' ''1970-01'' ''csv'') ?w =
      (Inr (''settlement-'' @ ''1970-01'' @ ''.csv'', ''text/csv'', bytes), ?w)"
    and xs: "mset xs = mset (period_orders sample_postgres ''m1'' ''1970-01'' (database ?w))"
    and csv: "\<exists>f. read_csv Start [] [] bytes = Some (exportHeader # map f xs)" by blast
  have "length xs = 2" using arg_cong[OF xs, of size] unfolding sample_period by simp
  with run csv show ?thesis by fastforce
qed

end
