(* ===== verification/Tenant_Spec.thy ===== *)
theory Tenant_Spec
  imports Reports_Spec
begin

text \<open>
  Who may do what in the merchant backend: authentication by API key, the isolation of merchants from
  each other, and the declared constraints of the schema, which all of its operations keep.
\<close>

section \<open>The declared constraints\<close>

lemma map_filter_snoc:
  "List.map_filter f (xs @ [x]) = List.map_filter f xs @ (case f x of None \<Rightarrow> [] | Some y \<Rightarrow> [y])"
  by (simp add: List.map_filter_def split: option.splits)

lemma set_map_filter_iff: "y \<in> set (List.map_filter f xs) \<longleftrightarrow> Some y \<in> f ` set xs"
  by (induction xs) (auto simp: map_filter_simps split: option.splits)

lemma map_filter_keys: "List.map_filter f xs = List.map_filter id (map f xs)"
  by (induction xs) (simp_all add: map_filter_simps split: option.splits)

lemma orders_unique_snoc:
  "orders_unique (xs @ [x]) \<longleftrightarrow>
    orders_unique xs \<and> (order_ext_key x = None \<or> order_ext_key x \<notin> order_ext_key ` set xs)"
  by (cases "order_ext_key x") (simp_all add: orders_unique_def map_filter_snoc set_map_filter_iff)

lemma orders_unique_update:
  "orders_unique (update_where Q (\<lambda>x. x\<lparr>o_status := s\<rparr>) xs) = orders_unique xs"
proof -
  have "map order_ext_key (update_where Q (\<lambda>x. x\<lparr>o_status := s\<rparr>) xs) = map order_ext_key xs"
    by (simp add: update_where_def order_ext_key_def)
  then show ?thesis unfolding orders_unique_def by (metis map_filter_keys)
qed

lemma insert_order_ok: "insert_order_stmt row now d = Inr (u, d') \<Longrightarrow> db_ok d \<Longrightarrow> db_ok d'"
  by (auto simp: insert_order_stmt_def on_schema_def Let_def db_ok_def db_keys_ok_def db_refs_ok_def keyed_snoc
      orders_unique_snoc split: if_splits)

lemma insert_refund_ok: "insert_refund_stmt row now d = Inr (u, d') \<Longrightarrow> db_ok d \<Longrightarrow> db_ok d'"
  by (auto simp: insert_refund_stmt_def on_schema_def Let_def db_ok_def db_keys_ok_def db_refs_ok_def keyed_snoc
      split: if_splits)

lemma insert_merchant_ok: "insert_merchant_stmt row now d = Inr (u, d') \<Longrightarrow> db_ok d \<Longrightarrow> db_ok d'"
  by (auto simp: insert_merchant_stmt_def on_schema_def db_ok_def db_keys_ok_def db_refs_ok_def keyed_snoc
      split: if_splits)

lemma insert_settlement_ok: "insert_settlement_stmt row now d = Inr (u, d') \<Longrightarrow> db_ok d \<Longrightarrow> db_ok d'"
  by (auto simp: insert_settlement_stmt_def on_schema_def db_ok_def db_keys_ok_def db_refs_ok_def keyed_snoc split: if_splits)

lemma insert_run_ok: "insert_run_stmt row now d = Inr (u, d') \<Longrightarrow> db_ok d \<Longrightarrow> db_ok d'"
  by (auto simp: insert_run_stmt_def on_schema_def db_ok_def db_keys_ok_def db_refs_ok_def keyed_snoc split: if_splits)

lemma mark_refunded_ok: "mark_refunded_stmt orderID now d = Inr (u, d') \<Longrightarrow> db_ok d \<Longrightarrow> db_ok d'"
proof -
  assume run: "mark_refunded_stmt orderID now d = Inr (u, d')" and ok: "db_ok d"
  let ?upd = "update_where (\<lambda>x. o_id x = orderID) (\<lambda>x. x\<lparr>o_status := ''refunded''\<rparr>)"
  have d': "d' = d\<lparr>merchant_orders := ?upd (merchant_orders d)\<rparr>"
    using run by (auto simp: mark_refunded_stmt_def on_schema_def split: if_splits)
  have "keyed o_id (?upd (merchant_orders d)) = keyed o_id (merchant_orders d)"
    by (rule keyed_update_where) simp
  moreover have "orders_unique (?upd (merchant_orders d)) = orders_unique (merchant_orders d)"
    by (rule orders_unique_update)
  moreover have "o_id ` set (?upd (merchant_orders d)) = o_id ` set (merchant_orders d)"
    using map_key_update_where[where key = o_id and f = "\<lambda>x. x\<lparr>o_status := ''refunded''\<rparr>" and t = "merchant_orders d"]
    by (metis (no_types, lifting) list.set_map order_row.ext_inject order_row.surjective order_row.update_convs(7))
  moreover have "o_merchant_id x \<in> m_id ` set (merchants d)"
    if "x \<in> set (?upd (merchant_orders d))" "\<forall>x \<in> set (merchant_orders d). o_merchant_id x \<in> m_id ` set (merchants d)" for x
    using that by (auto simp: update_where_def)
  ultimately show ?thesis using ok unfolding d' db_ok_def db_keys_ok_def db_refs_ok_def by simp
qed

lemmas merchant_stmts_ok = insert_order_ok insert_refund_ok insert_merchant_ok insert_settlement_ok insert_run_ok
  mark_refunded_ok

text \<open>Reads keep everything, and so does what only draws ids, random bytes or calls the node.\<close>

lemma keeps_payerPubkey [keeps_intros]: "keeps I (payerPubkey h)"
  unfolding payerPubkey_def Let_def
  by (intro keeps_intros) (auto simp: on_schema_def intro!: keeps_intros split: option.splits if_splits)

lemma keeps_sources [keeps_intros]:
  "keeps I id_New" "keeps I (NewInvoice N p)" "keeps I (SendPayment N q)"
  by (simp_all add: id_New_def NewInvoice_def SendPayment_def keeps_intros)

lemma keeps_if [keeps_intros]: "keeps I m \<Longrightarrow> keeps I n \<Longrightarrow> keeps I (if b then m else n)"
  by simp

lemma keeps_place_order:
  assumes "\<And>now d u d' oid. insert_order_stmt (order_ins oid merchantID extID (in_PaymentHash iv) amount asset) now d = Inr (u, d') \<Longrightarrow> I d \<Longrightarrow> I d'"
  shows "keeps I (place_order F P merchantID extID amount asset iv)"
  unfolding place_order_def by (intro keeps_intros) (auto intro: assms)

lemma keeps_CreateOrder:
  assumes "\<And>now d u d' oid h a s. insert_order_stmt (order_ins oid merchantID extID h a s) now d = Inr (u, d') \<Longrightarrow> I d \<Longrightarrow> I d'"
  shows "keeps I (CreateOrder F P N merchantID extID amountHex asset)"
proof -
  have "keeps I (mint_order F P N merchantID extID a s)" for a s
    unfolding mint_order_def by (intro keeps_intros keeps_place_order) (auto intro: assms)
  then show ?thesis
    unfolding CreateOrder_def Let_def by (auto intro!: keeps_intros split: prod.splits option.splits)
qed

lemma keeps_record_refund:
  assumes "\<And>now d u d' rid. insert_refund_stmt (refund_ins rid orderID amount asset reason hash) now d = Inr (u, d') \<Longrightarrow> I d \<Longrightarrow> I d'"
    and "\<And>now d u d'. mark_refunded_stmt orderID now d = Inr (u, d') \<Longrightarrow> I d \<Longrightarrow> I d'"
  shows "keeps I (record_refund F orderID amount asset reason hash)"
  unfolding record_refund_def by (intro keeps_intros) (auto intro: assms)

lemma keeps_Refund:
  assumes "\<And>amount asset hash. keeps I (record_refund F orderID amount asset reason hash)"
  shows "keeps I (Refund F P N merchantID orderID amountHex reason)"
  unfolding Refund_def by (auto intro!: keeps_intros assms split: prod.splits option.splits)

text \<open>The merchant backend keeps the declared constraints. Under every schedule in which the other sessions
  keep the primary keys, the uniqueness of \<open>(merchant_id, external_order_id)\<close> and the foreign keys,
  so do order creation (also when it loses a race), refunds, settlements, reconciliations and
  provisioning, whatever fails in between.\<close>

lemma merchant_keeps_constraints:
  "keeps db_ok (CreateOrder F P N merchantID extID amountHex asset) \<and>
   keeps db_ok (Refund F P N merchantID orderID amountHex reason) \<and>
   keeps db_ok (Settlement F P merchantID period) \<and> keeps db_ok (Reconciliation F P merchantID period) \<and>
   keeps db_ok (Provision name settlementAsset)"
proof (intro conjI)
  show "keeps db_ok (CreateOrder F P N merchantID extID amountHex asset)"
    by (rule keeps_CreateOrder) (rule insert_order_ok)
  show "keeps db_ok (Refund F P N merchantID orderID amountHex reason)"
    by (intro keeps_Refund keeps_record_refund) (auto intro: insert_refund_ok mark_refunded_ok)
  show "keeps db_ok (Settlement F P merchantID period)"
    unfolding Settlement_def persist_settlement_def Let_def
    by (intro keeps_intros) (auto simp: on_schema_def intro: insert_settlement_ok split: if_splits)
  show "keeps db_ok (Reconciliation F P merchantID period)"
    unfolding Reconciliation_def Let_def split_beta
    by (intro keeps_intros) (auto simp: on_schema_def intro: insert_run_ok split: if_splits)
  have "keeps db_ok NewAPIKey" by (auto simp: NewAPIKey_def randHex_def rand_Read_def intro!: keeps_intros)
  then show "keeps db_ok (Provision name settlementAsset)"
    unfolding Provision_def Let_def split_beta
    by (intro keeps_intros) (auto intro: insert_merchant_ok)
qed

section \<open>Isolation\<close>

definition foreign_orders :: "string \<Rightarrow> db \<Rightarrow> order_row list" where
  "foreign_orders merchantID d = filter (\<lambda>x. o_merchant_id x \<noteq> merchantID) (merchant_orders d)"

definition own_orders :: "string \<Rightarrow> db \<Rightarrow> order_row list" where
  "own_orders merchantID d = filter (\<lambda>x. o_merchant_id x = merchantID) (merchant_orders d)"

lemma insert_own_order:
  "insert_order_stmt (order_ins oid merchantID extID h a s) now d = Inr (u, d') \<Longrightarrow>
   foreign_orders merchantID d' = foreign_orders merchantID d \<and> (keyed o_id (merchant_orders d) \<longrightarrow> keyed o_id (merchant_orders d'))"
  by (auto simp: insert_order_stmt_def on_schema_def Let_def foreign_orders_def order_ins_def keyed_snoc split: if_splits)

lemma filter_update_other:
  "(\<And>x. x \<in> set xs \<Longrightarrow> Q x \<Longrightarrow> \<not> R x \<and> \<not> R (f x)) \<Longrightarrow> filter R (update_where Q f xs) = filter R xs"
  by (induction xs) (auto simp: update_where_def)

lemma mark_own_refunded:
  assumes "mark_refunded_stmt orderID now d = Inr (u, d')" and "orderID \<notin> o_id ` set (foreign_orders merchantID d)"
  shows "foreign_orders merchantID d' = foreign_orders merchantID d \<and> (keyed o_id (merchant_orders d) \<longrightarrow> keyed o_id (merchant_orders d'))"
proof -
  let ?upd = "update_where (\<lambda>x. o_id x = orderID) (\<lambda>x. x\<lparr>o_status := ''refunded''\<rparr>)"
  have d': "d' = d\<lparr>merchant_orders := ?upd (merchant_orders d)\<rparr>"
    using assms(1) by (auto simp: mark_refunded_stmt_def on_schema_def split: if_splits)
  have "filter (\<lambda>x. o_merchant_id x \<noteq> merchantID) (?upd (merchant_orders d)) =
      filter (\<lambda>x. o_merchant_id x \<noteq> merchantID) (merchant_orders d)"
    by (rule filter_update_other) (use assms(2) in \<open>force simp: foreign_orders_def\<close>)
  moreover have "keyed o_id (?upd (merchant_orders d)) = keyed o_id (merchant_orders d)"
    by (rule keyed_update_where) simp
  ultimately show ?thesis by (simp add: d' foreign_orders_def)
qed

text \<open>A refund of an order that belongs to somebody else ends with the lookup.\<close>

lemma keeps_Refund_own:
  "keeps (\<lambda>d. foreign_orders merchantID d = L \<and> keyed o_id (merchant_orders d))
     (Refund F P N merchantID orderID amountHex reason)" (is "keeps ?I _")
proof (cases "orderID \<in> o_id ` set L")
  case False
  have "?I d'" if "mark_refunded_stmt orderID now d = Inr (u, d')" "?I d" for now d u d'
    using mark_own_refunded[OF that(1), of merchantID] that(2) False by auto
  moreover have "?I d'" if "insert_refund_stmt row now d = Inr (u, d')" "?I d" for row now d u d'
    using that by (auto simp: insert_refund_stmt_def on_schema_def Let_def foreign_orders_def split: if_splits)
  ultimately show ?thesis by (intro keeps_Refund keeps_record_refund) blast+
next
  case True
  show ?thesis
    unfolding keeps_def
  proof (intro allI impI)
    fix w
    assume keep: "others_keep ?I w"
    obtain r w1 where r: "run_state (GetOrder F P merchantID orderID) w = (r, w1)" by fastforce
    have seen: "?I (seen_db w)"
      by (rule others_keep_seen[OF keep])
    have "\<exists>e. r = Inl e"
    proof (cases r)
      case (Inr x)
      from r[unfolded Inr GetOrder_def] obtain row where
        "find (\<lambda>x. o_id x = orderID \<and> o_merchant_id x = merchantID) (merchant_orders (seen_db w)) = Some row"
        by (rule scanOrder_seen)
      then have row: "row \<in> set (merchant_orders (seen_db w))" "o_id row = orderID" "o_merchant_id row = merchantID"
        by (auto simp: find_Some_iff)
      from True seen obtain y where y: "y \<in> set (merchant_orders (seen_db w))" "o_id y = orderID" "o_merchant_id y \<noteq> merchantID"
        by (auto simp: foreign_orders_def)
      from seen row y have "row = y" by (auto simp: keyed_def distinct_map inj_on_def)
      with row y show ?thesis by simp
    qed simp
    with r obtain e where "run_state (Refund F P N merchantID orderID amountHex reason) w = (Inl e, w1)"
      by (auto simp: Refund_def)
    then show "others_keep ?I (snd (run_state (Refund F P N merchantID orderID amountHex reason) w))"
      using keepsD[OF keeps_GetOrder(1) keep, of F P merchantID orderID] r by simp
  qed
qed

text \<open>What a merchant can see: the own orders, the refunds of these orders, and the payments of their invoices.\<close>

definition own_refunds :: "string \<Rightarrow> db \<Rightarrow> refund_row list" where
  "own_refunds merchantID d = filter (\<lambda>r. rf_order_id r \<in> o_id ` set (own_orders merchantID d)) (refunds d)"

definition own_payments :: "string \<Rightarrow> db \<Rightarrow> payment_row list" where
  "own_payments merchantID d =
     filter (\<lambda>p. Some (pay_hash p) \<in> o_invoice_payment_hash ` set (own_orders merchantID d)) (payments d)"

definition same_view :: "string \<Rightarrow> db \<Rightarrow> db \<Rightarrow> bool" where
  "same_view merchantID d d' \<longleftrightarrow> own_orders merchantID d = own_orders merchantID d' \<and>
     own_refunds merchantID d = own_refunds merchantID d' \<and> own_payments merchantID d = own_payments merchantID d'"

lemma refunded_own:
  assumes "x \<in> set (own_orders m d)"
  shows "refunded d x = sql_sum (map rf_amount (filter (\<lambda>r. rf_order_id r = o_id x) (own_refunds m d)))"
proof -
  have "filter (\<lambda>r. rf_order_id r = o_id x) (refunds d) = filter (\<lambda>r. rf_order_id r = o_id x) (own_refunds m d)"
    unfolding own_refunds_def filter_filter using assms by (intro filter_cong) auto
  then show ?thesis by (simp add: refunded_def)
qed

lemma has_payment_own:
  assumes "x \<in> set (own_orders m d)"
  shows "has_payment d x \<longleftrightarrow> (\<exists>h. o_invoice_payment_hash x = Some h \<and> h \<in> pay_hash ` set (own_payments m d))"
  using assms
  by (cases "o_invoice_payment_hash x") (force simp: has_payment_def own_payments_def lookup_row_None_iff image_iff)+

text \<open>What the reports and the lookup read is a function of the view.\<close>

lemma reports_own:
  assumes "same_view m d d'"
  shows "settlement_rows P m period d = settlement_rows P m period d'"
    and "reconcile_rows P m period d = reconcile_rows P m period d'"
    and "export_query P m period d = export_query P m period d'"
    and "find (\<lambda>x. o_id x = orderID \<and> o_merchant_id x = m) (merchant_orders d) =
      find (\<lambda>x. o_id x = orderID \<and> o_merchant_id x = m) (merchant_orders d')"
proof -
  have own: "own_orders m d = own_orders m d'" using assms by (simp add: same_view_def)
  have hits: "filter (paid_in P m period) (merchant_orders e) = filter (paid_in P m period) (own_orders m e)" for e
    unfolding own_orders_def filter_filter by (rule filter_cong) (auto simp: paid_in_def)
  have ref: "refunded d x = refunded d' x" and pay: "has_payment d x = has_payment d' x" if "x \<in> set (own_orders m d')" for x
    using refunded_own[of x m d] refunded_own[of x m d'] has_payment_own[of x m d] has_payment_own[of x m d'] that assms
    by (simp_all add: same_view_def)
  have look: "find (\<lambda>x. o_id x = orderID \<and> o_merchant_id x = m) xs =
      find (\<lambda>x. o_id x = orderID) (filter (\<lambda>x. o_merchant_id x = m) xs)" for xs
    by (induction xs) auto
  show "find (\<lambda>x. o_id x = orderID \<and> o_merchant_id x = m) (merchant_orders d) =
      find (\<lambda>x. o_id x = orderID \<and> o_merchant_id x = m) (merchant_orders d')"
    using own unfolding look own_orders_def by simp
  show "settlement_rows P m period d = settlement_rows P m period d'"
    unfolding settlement_rows_def Let_def hits own
    by (intro map_cong refl prod.inject[THEN iffD2] conjI arg_cong[where f = "\<lambda>v. coalesce (sql_sum v) 0"]) (simp add: ref)
  show "reconcile_rows P m period d = reconcile_rows P m period d'"
    by (simp add: reconcile_rows_def hits own pay cong: map_cong)
  show "export_query P m period d = export_query P m period d'"
    unfolding export_query_def hits own by (intro arg_cong[where f = "sort_by paid_before"] map_cong refl) (simp add: ref)
qed

text \<open>A report that is returned is a function of the rows its query reads.\<close>

lemma Settlement_result:
  assumes "quiet w" and "3 \<le> schema_version (database w)" and "fst (run_state (Settlement F P m period) w) = Inr ls"
  shows "ls = map (settlement_line_of F P period) (settlement_rows P m period (database w))"
  using assms by (auto simp: Settlement_def io_simps on_schema_def Let_def split: sum.splits prod.splits)

lemma Reconciliation_result:
  assumes "quiet w" "quiet w'" and "3 \<le> schema_version (database w)" "3 \<le> schema_version (database w')"
    and "fst (run_state (Reconciliation F P m period) w) = Inr rc" and "fst (run_state (Reconciliation F P m period) w') = Inr rc'"
    and "reconcile_rows P m period (database w) = reconcile_rows P m period (database w')"
  shows "rc = rc'"
  using assms by (auto simp: Reconciliation_def io_simps on_schema_def Let_def id_New_def split: sum.splits prod.splits)

text \<open>C11: merchants are isolated from each other. Whatever the schedule, creating orders and refunding, with any ids
  the client chooses, leaves every order of the other merchants as the other sessions leave it. And what a merchant
  reads depends on the own orders, the refunds of these orders and the payments of their invoices only: in two databases
  that agree on these, whatever orders, refunds, payments and other rows they hold besides, an order lookup and an
  accounting export give the same answer, settlement and reconciliation read the same rows, and the reports they
  return, where storing the report succeeds in both, are the same.\<close>

theorem tenants_are_isolated:
  assumes "quiet w" "quiet w'" and "3 \<le> schema_version (database w)" "3 \<le> schema_version (database w')"
    and "same_view merchantID (database w) (database w')"
  shows "keeps (\<lambda>d. foreign_orders merchantID d = L \<and> keyed o_id (merchant_orders d)) (CreateOrder F P N merchantID extID amountHex asset) \<and>
    keeps (\<lambda>d. foreign_orders merchantID d = L \<and> keyed o_id (merchant_orders d)) (Refund F P N merchantID orderID amountHex reason) \<and>
    fst (run_state (GetOrder F P merchantID orderID) w) = fst (run_state (GetOrder F P merchantID orderID) w') \<and>
    fst (run_state (Export F P X merchantID period format) w) = fst (run_state (Export F P X merchantID period format) w') \<and>
    settlement_rows P merchantID period (database w) = settlement_rows P merchantID period (database w') \<and>
    reconcile_rows P merchantID period (database w) = reconcile_rows P merchantID period (database w') \<and>
    (\<forall>ls ls'. fst (run_state (Settlement F P merchantID period) w) = Inr ls \<and>
       fst (run_state (Settlement F P merchantID period) w') = Inr ls' \<longrightarrow> ls = ls') \<and>
    (\<forall>rc rc'. fst (run_state (Reconciliation F P merchantID period) w) = Inr rc \<and>
       fst (run_state (Reconciliation F P merchantID period) w') = Inr rc' \<longrightarrow> rc = rc')"
proof -
  note own = reports_own(1-3)[OF assms(5), of P period] reports_own(4)[OF assms(5), of orderID]
  have "keeps (\<lambda>d. foreign_orders merchantID d = L \<and> keyed o_id (merchant_orders d)) (CreateOrder F P N merchantID extID amountHex asset)"
    by (rule keeps_CreateOrder) (use insert_own_order in blast)
  moreover have "fst (run_state (GetOrder F P merchantID orderID) w) = fst (run_state (GetOrder F P merchantID orderID) w')"
    using assms(1-4) own(4) by (simp add: GetOrder_def run_scanOrder)
  moreover have "fst (run_state (Export F P X merchantID period format) w) = fst (run_state (Export F P X merchantID period format) w')"
    using assms(1-4) own(3) by (simp add: Export_def exportRows_def io_simps on_schema_def split: sum.splits)
  moreover have "ls = ls'" if "fst (run_state (Settlement F P merchantID period) w) = Inr ls"
    "fst (run_state (Settlement F P merchantID period) w') = Inr ls'" for ls ls'
    using Settlement_result[OF assms(1,3) that(1)] Settlement_result[OF assms(2,4) that(2)] own(1) by simp
  ultimately show ?thesis
    using keeps_Refund_own own(1,2) Reconciliation_result[OF assms(1-4) _ _ own(2), of F] by blast
qed

text \<open>The witness: the other database has an order, a refund and a payment of another merchant.\<close>

definition sample_rival :: db where
  "sample_rival = sample_ledger\<lparr>
     merchant_orders := sample_paid\<lparr>o_id := ''o9'', o_merchant_id := ''m2'', o_invoice_payment_hash := Some ''h9''\<rparr> # merchant_orders sample_ledger,
     refunds := sample_refund\<lparr>rf_id := ''r9'', rf_order_id := ''o9''\<rparr> # refunds sample_ledger,
     payments := sample_payer\<lparr>pay_hash := ''h9''\<rparr> # payments sample_ledger\<rparr>"

theorem tenants_are_isolated_witness:
  "settlement_rows sample_postgres ''m1'' ''1970-01'' (database (sample_world sample_ledger)) =
     settlement_rows sample_postgres ''m1'' ''1970-01'' (database (sample_world sample_rival)) \<and>
   keeps (\<lambda>d. foreign_orders ''m1'' d = [sample_paid\<lparr>o_id := ''o9'', o_merchant_id := ''m2''\<rparr>] \<and> keyed o_id (merchant_orders d))
     (Refund sample_fibertypes sample_postgres sample_node ''m1'' ''o9'' ''0xff'' '''')"
proof -
  let ?w = "sample_world sample_ledger" and ?w' = "sample_world sample_rival"
  have "quiet ?w" "quiet ?w'" "3 \<le> schema_version (database ?w)" "3 \<le> schema_version (database ?w')"
    "same_view ''m1'' (database ?w) (database ?w')"
    by (simp_all add: sample_rival_def ledger_defs same_view_def own_refunds_def own_payments_def own_orders_def)
  from tenants_are_isolated[OF this] show ?thesis by blast
qed

section \<open>Authentication\<close>

text \<open>The merchant a request authenticates as.\<close>

definition presents_key_of :: "request \<Rightarrow> merchant_row \<Rightarrow> bool" where
  "presents_key_of r m \<longleftrightarrow> (\<exists>key. req_header r ''Authorization'' = ''Bearer '' @ key \<and> key \<noteq> '''' \<and>
     VerifyAPIKey key (m_api_key_hash m))"

lemma bearer_cases:
  obtains key where "hdr = bearer @ key" "key \<noteq> ''''" "\<not> length hdr \<le> length bearer" "take (length bearer) hdr = bearer"
    "drop (length bearer) hdr = key"
  | "length hdr \<le> length bearer \<or> take (length bearer) hdr \<noteq> bearer"
proof (cases "length hdr \<le> length bearer \<or> take (length bearer) hdr \<noteq> bearer")
  case False
  then have "hdr = bearer @ drop (length bearer) hdr" by (metis append_take_drop_id)
  with False that(1)[of "drop (length bearer) hdr"] show ?thesis by simp
qed (use that in blast)

text \<open>No request gets past the authentication without a merchant's key. Under every schedule, if the
  \<open>Authorization\<close> header is not \<open>Bearer\<close> with a key that verifies against the stored hash of some
  merchant, the reply is 401 (or 500 if the database fails), no handler runs, and neither the
  database nor the node sees anything but the lookup; if a handler runs, then with the id of a
  merchant whose key was presented.\<close>

lemma authMerchant_cases:
  shows "(\<exists>m \<in> set (merchants (seen_db w)). presents_key_of r m \<and> (\<exists>w1. database w1 = seen_db w \<and> rpc_log w1 = rpc_log w \<and>
      (\<forall>handler. run_state (authMerchant handler r) w = run_state (handler (m_id m) r) w1))) \<or>
    (\<exists>resp w1. (\<forall>handler. run_state (authMerchant handler r) w = (resp, w1)) \<and> status resp \<in> {401, 500} \<and>
      (w1 = w \<or> database w1 = seen_db w \<and> rpc_log w1 = rpc_log w) \<and>
      (status resp = 401 \<longrightarrow> w1 = w \<or> (\<forall>m \<in> set (merchants (seen_db w)). \<not> presents_key_of r m)))"
proof (cases "req_header r ''Authorization''" rule: bearer_cases)
  case 2
  then show ?thesis
    by (intro disjI2 exI[of _ "Error 401 ''missing bearer token''"] exI[of _ w])
       (auto simp: authMerchant_def Let_def Error_def JSON_def)
next
  case (1 key)
  let ?hash = "HashAPIKey key"
  let ?q = "on_schema 3 (\<lambda>_ d. case find (\<lambda>m. m_api_key_hash m = ?hash) (merchants d) of
      None \<Rightarrow> Inl ErrNoRows | Some m \<Rightarrow> Inr (m_id m, d))"
  obtain q w1 where q: "run_state (pool_exec ?q) w = (q, w1)" by fastforce
  have presents: "presents_key_of r m \<longleftrightarrow> m_api_key_hash m = ?hash" for m :: merchant_row
    using 1 by (auto simp: presents_key_of_def bearer_def VerifyAPIKey_iff)
  have log: "rpc_log w1 = rpc_log w" by (rule silentD[OF silent_exec q])
  have db: "database w1 = seen_db w"
    using q by (cases rule: pool_exec_cases) (auto simp: on_schema_def split: if_splits option.splits)
  have auth: "run_state (authMerchant handler r) w =
      (case q of Inl e \<Rightarrow> (if errors_Is e ErrNoRows then Error 401 ''invalid api key'' else Error 500 (error_text e), w1)
       | Inr m \<Rightarrow> run_state (handler m r) w1)" for handler
    using q 1 by (auto simp: authMerchant_def internal_error_def split: sum.splits)
  show ?thesis
  proof (cases q)
    case (Inr mid)
    from q[unfolded Inr] obtain m where "find (\<lambda>m. m_api_key_hash m = ?hash) (merchants (seen_db w)) = Some m" "m_id m = mid"
      by (cases rule: pool_exec_cases) (auto simp: on_schema_def split: if_splits option.splits)
    then have "m \<in> set (merchants (seen_db w))" "presents_key_of r m" "m_id m = mid"
      by (auto simp: find_Some_iff presents)
    with auth Inr db log show ?thesis by (intro disjI1 bexI[of _ m] conjI exI[of _ w1]) auto
  next
    case (Inl e)
    have none: "\<forall>m \<in> set (merchants (seen_db w)). \<not> presents_key_of r m" if "errors_Is e ErrNoRows"
    proof -
      obtain t w0 where t: "next_tick w = (t, w0)" by fastforce
      then have "database w0 = database w" using next_tick_env by blast
      with q[unfolded Inl] that t have "find (\<lambda>m. m_api_key_hash m = ?hash) (merchants (seen_db w)) = None"
        by (auto simp: pool_exec_def run_reply_def reply_of_def on_schema_def seen_db_def
            split: reply.splits if_splits option.splits)
      then show ?thesis by (simp add: find_None_iff presents)
    qed
    show ?thesis
      using auth Inl db log none
      by (intro disjI2 exI[of _ "if errors_Is e ErrNoRows then Error 401 ''invalid api key'' else Error 500 (error_text e)"] exI[of _ w1])
         (auto simp: Error_def JSON_def)
  qed
qed

text \<open>A provisioned key works, and only its hash is stored. Provisioning appends one merchant with the default
  asset CKB if none is given; the key it returns has 64 characters and only its hash is in the
  database; a request that presents it as bearer token is served as that merchant, without any other
  effect.\<close>

lemma provisioned_key_authenticates:
  assumes w: "quiet w" "3 \<le> schema_version (database w)"
    and fresh: "id_source w (id_pos w) \<notin> m_id ` set (merchants (database w))"
    and unused: "HashAPIKey (hex_EncodeToString (map (\<lambda>i. rand_source w (rand_pos w + i)) [0 ..< 32])) \<notin>
      m_api_key_hash ` set (merchants (database w))"
  shows "\<exists>key w1. run_state (Provision name asset) w = (Inr (id_source w (id_pos w), key), w1) \<and> length key = 64 \<and>
    merchants (database w1) = merchants (database w) @
      [\<lparr>m_id = id_source w (id_pos w), m_name = name, m_api_key_hash = HashAPIKey key,
        m_settlement_asset = (if asset = '''' then ''CKB'' else asset), m_created_at = clock w\<rparr>] \<and>
    (\<forall>r handler. req_header r ''Authorization'' = ''Bearer '' @ key \<longrightarrow>
       run_state (authMerchant handler r) w1 = run_state (handler (id_source w (id_pos w)) r) w1)"
proof -
  define key where "key = hex_EncodeToString (map (\<lambda>i. rand_source w (rand_pos w + i)) [0 ..< 32])"
  let ?m = "\<lparr>m_id = id_source w (id_pos w), m_name = name, m_api_key_hash = HashAPIKey key,
    m_settlement_asset = (if asset = '''' then ''CKB'' else asset), m_created_at = clock w\<rparr>"
  let ?w1 = "w\<lparr>id_pos := Suc (id_pos w), rand_pos := rand_pos w + 32,
    database := (database w)\<lparr>merchants := merchants (database w) @ [?m]\<rparr>\<rparr>"
  have len: "length key = 64" by (simp add: key_def)
  have found: "find (\<lambda>m. m_api_key_hash m = HashAPIKey key) (merchants (database w) @ [?m]) = Some ?m"
    by (subst find_snoc) (use unused in \<open>auto simp: find_None_iff key_def image_iff\<close>)
  have "run_state (Provision name asset) w = (Inr (id_source w (id_pos w), key), ?w1)"
    using w fresh
    by (simp add: Provision_def id_New_def NewAPIKey_def randHex_def rand_Read_def io_simps insert_merchant_stmt_def
        on_schema_def Let_def key_def)
  moreover have "run_state (authMerchant handler r) ?w1 = run_state (handler (id_source w (id_pos w)) r) ?w1"
    if "req_header r ''Authorization'' = ''Bearer '' @ key" for r handler
    using that w len found by (simp add: authMerchant_def bearer_def io_simps on_schema_def)
  ultimately show ?thesis using len by (intro exI[of _ key] exI[of _ ?w1]) simp
qed

end
