(* ===== verification/Webhook.thy ===== *)
theory Webhook
  imports Pool "HOL-Library.Word"
begin

text \<open>
  The delivery outbox of \<^verbatim>\<open>internal/webhook\<close>: the backoff function handed to the library's dispatcher
  (\<^verbatim>\<open>backoff.go\<close>), the Postgres implementation of the library's \<open>webhook.Store\<close> (\<^verbatim>\<open>store.go\<close>) and the
  sweeper (\<^verbatim>\<open>run.go\<close>). Durations are 64-bit words, as in Go. The retry engine itself is the library's;
  what padma promises it is the contract of the operations here.
\<close>

section \<open>\<open>backoff.go\<close>\<close>

text \<open>\<open>time.Second\<close> and \<open>time.Minute\<close>, in nanoseconds.\<close>

definition Second :: int where "Second = 1000000000"
definition Minute :: int where "Minute = 60 * Second"

text \<open>The loop: \<open>n\<close> iterations are left.\<close>

fun backoff_loop :: "64 word \<Rightarrow> nat \<Rightarrow> 64 word \<Rightarrow> 64 word" where
  "backoff_loop mx 0 d = d"
| "backoff_loop mx (Suc n) d = (let d' = d * 2 in if mx \<le>s d' then mx else backoff_loop mx n d')"

text \<open>
  \<open>rand_Int64N n\<close> is the value \<open>rand.Int64N(n)\<close> returns. Go's \<open>/\<close> truncates.
\<close>

definition expJitter :: "(int \<Rightarrow> int) \<Rightarrow> 64 word \<Rightarrow> 64 word \<Rightarrow> int \<Rightarrow> 64 word" where
  "expJitter rand_Int64N base mx attempt =
     (let d = backoff_loop mx (nat (attempt - 1)) base;
          half = word_of_int (fst (QuoRem (sint d) 2)) :: 64 word
      in if sint half \<le> 0 then d else half + word_of_int (rand_Int64N (sint half + 1)))"

section \<open>\<open>store.go\<close>\<close>

text \<open>\<open>kwebhook.Delivery\<close>, the fields padma fills.\<close>

record kdelivery =
  kd_ID :: string
  kd_EndpointID :: string
  kd_EventID :: string
  kd_EventType :: string
  kd_URL :: string
  kd_Secret :: string
  kd_Payload :: string
  kd_Attempts :: int
  kd_NextAttemptAt :: time

record store =
  leaseTTL :: int

definition defaultLeaseTTL :: int where
  "defaultLeaseTTL = 5 * Minute"

definition NewStore :: store where
  "NewStore = \<lparr>leaseTTL = defaultLeaseTTL\<rparr>"

text \<open>The interval \<open>fmt.Sprintf("%d seconds", int(s.leaseTTL.Seconds()))\<close>, in nanoseconds.\<close>

definition lease :: "store \<Rightarrow> int" where
  "lease s = fst (QuoRem (leaseTTL s) Second) * Second"

text \<open>
  The claim. \<open>locked\<close> holds of the rows another transaction has locked, which \<open>SKIP LOCKED\<close> passes over.
\<close>

definition due :: "time \<Rightarrow> delivery_row \<Rightarrow> bool" where
  "due now dl \<longleftrightarrow> dl_status dl \<in> {''pending'', ''failed''} \<and> dl_next_attempt_at dl \<le> now"

definition due_before :: "delivery_row \<Rightarrow> delivery_row \<Rightarrow> bool" where
  "due_before x y \<longleftrightarrow> dl_next_attempt_at x \<le> dl_next_attempt_at y"

definition claimable :: "nat \<Rightarrow> (string \<Rightarrow> bool) \<Rightarrow> time \<Rightarrow> delivery_row list \<Rightarrow> delivery_row list" where
  "claimable n locked now t =
     take n (filter (\<lambda>dl. \<not> locked (dl_id dl)) (sort_by due_before (filter (due now) t)))"

definition take_lease :: "store \<Rightarrow> time \<Rightarrow> delivery_row \<Rightarrow> delivery_row" where
  "take_lease s now dl = dl\<lparr>dl_status := ''delivering'', dl_next_attempt_at := now + lease s\<rparr>"

definition claim_rows ::
    "store \<Rightarrow> nat \<Rightarrow> (string \<Rightarrow> bool) \<Rightarrow> time \<Rightarrow> delivery_row list \<Rightarrow> delivery_row list" where
  "claim_rows s n locked now t =
     (let ids = map dl_id (claimable n locked now t)
      in update_where (\<lambda>dl. dl_id dl \<in> set ids) (take_lease s now) t)"

text \<open>A row of the \<open>RETURNING\<close> clause: the updated delivery and the type of its event, if there is one.\<close>

definition claimed_rows ::
    "store \<Rightarrow> nat \<Rightarrow> (string \<Rightarrow> bool) \<Rightarrow> time \<Rightarrow> db \<Rightarrow> (delivery_row \<times> string option) list" where
  "claimed_rows s n locked now d =
     (let ids = map dl_id (claimable n locked now (webhook_deliveries d))
      in map (\<lambda>dl. (dl, map_option ev_type (lookup_row ev_id (dl_event_id dl) (events d))))
           (filter (\<lambda>dl. dl_id dl \<in> set ids) (claim_rows s n locked now (webhook_deliveries d))))"

definition claim_stmt ::
    "store \<Rightarrow> int \<Rightarrow> (string \<Rightarrow> bool) \<Rightarrow> (delivery_row \<times> string option) list stmt" where
  "claim_stmt s limit locked = on_schema 2 (\<lambda>now d.
     if limit < 0 then Inl (Driver ''LIMIT must not be negative'')
     else Inr (claimed_rows s (nat limit) locked now d,
               d\<lparr>webhook_deliveries := claim_rows s (nat limit) locked now (webhook_deliveries d)\<rparr>))"

text \<open>\<open>rows.Scan\<close>: a NULL event type does not fit the string field.\<close>

definition scan_delivery :: "delivery_row \<times> string option \<Rightarrow> error + kdelivery" where
  "scan_delivery = (\<lambda>(dl, ty). case ty of
     None \<Rightarrow> Inl (Driver ''cannot scan NULL into *string'')
   | Some t \<Rightarrow> Inr \<lparr>kd_ID = dl_id dl, kd_EndpointID = dl_endpoint_id dl, kd_EventID = dl_event_id dl,
       kd_EventType = t, kd_URL = dl_url dl, kd_Secret = dl_secret dl, kd_Payload = dl_payload dl,
       kd_Attempts = dl_attempts dl, kd_NextAttemptAt = dl_next_attempt_at dl\<rparr>)"

text \<open>Reading rows up to the first one that does not scan.\<close>

fun scan_all :: "('r \<Rightarrow> error + 'v) \<Rightarrow> 'r list \<Rightarrow> error + 'v list" where
  "scan_all f [] = Inr []"
| "scan_all f (r # rs) = (case f r of
     Inl e \<Rightarrow> Inl e
   | Inr v \<Rightarrow> (case scan_all f rs of Inl e \<Rightarrow> Inl e | Inr vs \<Rightarrow> Inr (v # vs)))"

text \<open>
  The result is Go's pair: \<open>return out, rows.Err()\<close> returns what was read beside a late error.
\<close>

definition ClaimDue ::
    "store \<Rightarrow> (string \<Rightarrow> bool) \<Rightarrow> int \<Rightarrow> (world, kdelivery list \<times> error option) state" where
  "ClaimDue s locked limit = do {
     r \<leftarrow> pool_exec (claim_stmt s limit locked);
     case r of
       Inl e \<Rightarrow> State_Monad.return ([], Some (Errorf ''webhook: claim due: %w'' [] (Some e)))
     | Inr rows \<Rightarrow>
         (case scan_all scan_delivery rows of
            Inl e \<Rightarrow> State_Monad.return ([], Some (Errorf ''webhook: scan delivery: %w'' [] (Some e)))
          | Inr out \<Rightarrow> do {
              e \<leftarrow> pool_exec (\<lambda>_ d. Inr ((), d));
              State_Monad.return (out, case e of Inl err \<Rightarrow> Some err | Inr _ \<Rightarrow> None) }) }"

text \<open>
  The marks: one statement updates the delivery and, for every updated row, appends to the attempt
  log. \<open>attempts\<close> is a 32-bit \<open>INT\<close>, so adding one can overflow, which is an error.
\<close>

definition int4_max :: int where "int4_max = 2147483647"

definition log_attempt :: "string \<Rightarrow> string option \<Rightarrow> time \<Rightarrow> int \<Rightarrow> delivery_log_row" where
  "log_attempt did err now n = \<lparr>log_delivery_id = did, log_attempt_no = n, log_http_status = None,
     log_response_ms = None, log_error = err, log_attempted_at = now\<rparr>"

definition mark_stmt ::
    "string \<Rightarrow> (delivery_row \<Rightarrow> delivery_row) \<Rightarrow> (delivery_row \<Rightarrow> int) \<Rightarrow> string option \<Rightarrow> unit stmt" where
  "mark_stmt did f attempt_no err = on_schema 2 (\<lambda>now d.
     let hit = filter (\<lambda>dl. dl_id dl = did) (webhook_deliveries d)
     in if \<exists>dl \<in> set hit. dl_attempts dl = int4_max then Inl (Driver ''integer out of range'')
        else Inr ((), d\<lparr>webhook_deliveries := update_where (\<lambda>dl. dl_id dl = did) f (webhook_deliveries d),
               webhook_delivery_log := webhook_delivery_log d @
                 map (\<lambda>dl. log_attempt did err now (attempt_no (f dl))) hit\<rparr>))"

definition set_succeeded :: "delivery_row \<Rightarrow> delivery_row" where
  "set_succeeded dl = dl\<lparr>dl_status := ''succeeded''\<rparr>"

definition set_failed :: "time \<Rightarrow> string \<Rightarrow> delivery_row \<Rightarrow> delivery_row" where
  "set_failed nextAttempt errMsg dl = dl\<lparr>dl_attempts := dl_attempts dl + 1, dl_status := ''failed'',
     dl_next_attempt_at := nextAttempt, dl_last_error := Some errMsg\<rparr>"

definition set_dead :: "delivery_row \<Rightarrow> delivery_row" where
  "set_dead dl = dl\<lparr>dl_attempts := dl_attempts dl + 1, dl_status := ''dead''\<rparr>"

definition MarkSucceeded :: "string \<Rightarrow> unit io" where
  "MarkSucceeded did = do {
     r \<leftarrow> pool_exec (mark_stmt did set_succeeded (\<lambda>dl. dl_attempts dl + 1) None);
     case r of
       Inl e \<Rightarrow> throw (Errorf ''webhook: mark succeeded: %w'' [] (Some e))
     | Inr _ \<Rightarrow> ok () }"

definition MarkFailed :: "postgres \<Rightarrow> string \<Rightarrow> time \<Rightarrow> string \<Rightarrow> unit io" where
  "MarkFailed P did nextAttempt errMsg = do {
     r \<leftarrow> pool_exec (mark_stmt did (set_failed (bind_ts P nextAttempt) errMsg) dl_attempts (Some errMsg));
     case r of
       Inl e \<Rightarrow> throw (Errorf ''webhook: mark failed: %w'' [] (Some e))
     | Inr _ \<Rightarrow> ok () }"

definition MarkDead :: "string \<Rightarrow> unit io" where
  "MarkDead did = do {
     r \<leftarrow> pool_exec (mark_stmt did set_dead dl_attempts (Some ''max attempts exceeded''));
     case r of
       Inl e \<Rightarrow> throw (Errorf ''webhook: mark dead: %w'' [] (Some e))
     | Inr _ \<Rightarrow> ok () }"

definition stuck :: "time \<Rightarrow> delivery_row \<Rightarrow> bool" where
  "stuck now dl \<longleftrightarrow> dl_status dl = ''delivering'' \<and> dl_next_attempt_at dl \<le> now"

definition rearm :: "time \<Rightarrow> delivery_row \<Rightarrow> delivery_row" where
  "rearm now dl = dl\<lparr>dl_status := ''pending'', dl_next_attempt_at := now\<rparr>"

definition requeue_stmt :: "int stmt" where
  "requeue_stmt = on_schema 2 (\<lambda>now d.
     Inr (int (rows_affected (stuck now) (webhook_deliveries d)),
          d\<lparr>webhook_deliveries := update_where (stuck now) (rearm now) (webhook_deliveries d)\<rparr>))"

definition Requeue :: "int io" where
  "Requeue = do {
     r \<leftarrow> pool_exec requeue_stmt;
     case r of
       Inl e \<Rightarrow> throw (Errorf ''webhook: requeue stuck: %w'' [] (Some e))
     | Inr n \<Rightarrow> ok n }"

section \<open>\<open>run.go\<close>\<close>

text \<open>
  What the sweeper's \<open>select\<close> receives: the next tick of its timer (at which the clock reads the given
  time) or the end of the context, after which the loop returns. \<open>sweep\<close> collects what it prints. A
  failed \<open>Requeue\<close> is ignored and the loop goes on.
\<close>

datatype sweep_signal = Tick time | Ctx_Done

fun sweep :: "sweep_signal list \<Rightarrow> (world, int list) state" where
  "sweep [] = State_Monad.return []"
| "sweep (Ctx_Done # sigs) = State_Monad.return []"
| "sweep (Tick now # sigs) = do {
     State (\<lambda>w. ((), w\<lparr>clock := now\<rparr>));
     r \<leftarrow> Requeue;
     rest \<leftarrow> sweep sigs;
     State_Monad.return (case r of Inr n \<Rightarrow> if 0 < n then n # rest else rest | Inl _ \<Rightarrow> rest) }"

text \<open>The dispatcher \<open>Run\<close> builds: its retry parameters, and the period of the sweeper.\<close>

record dispatcher =
  Backoff :: "int \<Rightarrow> 64 word"
  MaxAttempts :: int
  Workers :: int
  PollInterval :: int
  SendTimeout :: int
  SweepEvery :: int

definition dispatcher_of :: "(int \<Rightarrow> int) \<Rightarrow> int \<Rightarrow> int \<Rightarrow> dispatcher" where
  "dispatcher_of rand_Int64N maxAttempts workers =
     \<lparr>Backoff = expJitter rand_Int64N (word_of_int Second) (word_of_int (5 * Minute)),
      MaxAttempts = maxAttempts, Workers = workers, PollInterval = Second, SendTimeout = 10 * Second,
      SweepEvery = 30 * Second\<rparr>"

end
