(* ===== verification/Endpoints.thy ===== *)
theory Endpoints
  imports Webhook Httpx Indexer
begin

text \<open>
  Webhook subscription management, \<^verbatim>\<open>internal/webhook/endpoints.go\<close>: one definition per handler, from
  the request to the response, with the statements it sends in between.
\<close>

record create_req =
  cr_URL :: string
  cr_EventTypes :: "string list"

definition create_fields :: "(string \<times> field_kind) list" where
  "create_fields = [(''url'', FString), (''event_types'', FStrings)]"

definition create_req_of :: "field_value list \<Rightarrow> create_req" where
  "create_req_of vals = \<lparr>cr_URL = str_field vals 0, cr_EventTypes = strs_field vals 1\<rparr>"

record endpoint_resp =
  er_ID :: string
  er_URL :: string
  er_Secret :: string
  er_EventTypes :: "string list"
  er_Active :: bool

definition endpoint_json :: "endpoint_resp \<Rightarrow> json" where
  "endpoint_json e = JObj ([(''id'', JStr (er_ID e)), (''url'', JStr (er_URL e))] @
     omit_empty ''secret'' (er_Secret e) @
     [(''event_types'', JArr (map JStr (er_EventTypes e))), (''active'', JBool (er_Active e))])"

definition endpoint_id :: "(byte list \<Rightarrow> string) \<Rightarrow> string \<Rightarrow> string" where
  "endpoint_id ulid url = DeriveWithPrefix ulid ''whk_'' ''endpoint'' [url]"

definition endpoint_ins :: "string \<Rightarrow> create_req \<Rightarrow> string \<Rightarrow> time \<Rightarrow> endpoint_row" where
  "endpoint_ins epID req secret now = \<lparr>ep_id = epID, ep_merchant_id = None, ep_url = cr_URL req,
     ep_secret = secret, ep_event_types = cr_EventTypes req, ep_active = True, ep_created_at = now\<rparr>"

text \<open>\<open>ON CONFLICT DO UPDATE\<close> sets the url, the event types and \<open>active\<close>; the secret stays.\<close>

definition endpoint_upd :: "create_req \<Rightarrow> endpoint_row \<Rightarrow> endpoint_row" where
  "endpoint_upd req r = r\<lparr>ep_url := cr_URL req, ep_event_types := cr_EventTypes req, ep_active := True\<rparr>"

definition create_stmt :: "string \<Rightarrow> create_req \<Rightarrow> string \<Rightarrow> unit stmt" where
  "create_stmt epID req secret = on_schema 2 (\<lambda>now d.
     Inr ((), d\<lparr>webhook_endpoints :=
       upsert ep_id (endpoint_ins epID req secret now) (endpoint_upd req) (webhook_endpoints d)\<rparr>))"

definition create :: "(byte list \<Rightarrow> string) \<Rightarrow> request \<Rightarrow> (world, response) state" where
  "create ulid r =
     (case DecodeJSON r create_fields of
        Inl e \<Rightarrow> respond (Error StatusBadRequest (''invalid body: '' @ error_text e))
      | Inr vals \<Rightarrow>
          (let req = create_req_of vals in
           if cr_URL req = '''' \<or> cr_EventTypes req = []
           then respond (Error StatusBadRequest ''url and event_types are required'')
           else do {
             let epID = endpoint_id ulid (cr_URL req);
             secret \<leftarrow> NewWebhookSecret;
             s \<leftarrow> pool_exec (create_stmt epID req secret);
             case s of
               Inl e \<Rightarrow> internal_error e
             | Inr _ \<Rightarrow> respond (JSON StatusCreated (endpoint_json
                 \<lparr>er_ID = epID, er_URL = cr_URL req, er_Secret = secret, er_EventTypes = cr_EventTypes req,
                  er_Active = True\<rparr>)) }))"

definition newest_first :: "endpoint_row \<Rightarrow> endpoint_row \<Rightarrow> bool" where
  "newest_first x y \<longleftrightarrow> ep_created_at y \<le> ep_created_at x"

text \<open>
  The loop ends silently on an error of \<open>rows.Next\<close>: \<open>rows.Err\<close> is not consulted, and the rows read so
  far are returned. \<open>n\<close> is how many rows arrive.
\<close>

definition list_endpoints :: "nat \<Rightarrow> (world, response) state" where
  "list_endpoints n = do {
     s \<leftarrow> pool_exec (on_schema 2 (\<lambda>_ d. Inr (sort_by newest_first (webhook_endpoints d), d)));
     case s of
       Inl e \<Rightarrow> internal_error e
     | Inr rows \<Rightarrow> respond (JSON StatusOK (JObj [(''items'', JArr (map (\<lambda>ep. endpoint_json
         \<lparr>er_ID = ep_id ep, er_URL = ep_url ep, er_Secret = '''', er_EventTypes = ep_event_types ep,
          er_Active = ep_active ep\<rparr>) (take n rows)))])) }"

definition deactivate_stmt :: "string \<Rightarrow> nat stmt" where
  "deactivate_stmt epID = on_schema 2 (\<lambda>_ d.
     Inr (rows_affected (\<lambda>ep. ep_id ep = epID) (webhook_endpoints d),
          d\<lparr>webhook_endpoints := update_where (\<lambda>ep. ep_id ep = epID) (\<lambda>ep. ep\<lparr>ep_active := False\<rparr>)
             (webhook_endpoints d)\<rparr>))"

definition remove_endpoint :: "request \<Rightarrow> (world, response) state" where
  "remove_endpoint r = do {
     s \<leftarrow> pool_exec (deactivate_stmt (req_param r ''id''));
     case s of
       Inl e \<Rightarrow> internal_error e
     | Inr n \<Rightarrow> if n = 0 then respond (Error StatusNotFound ''endpoint not found'')
               else respond \<lparr>status = StatusNoContent, headers = [], rbody = NoBody\<rparr> }"

text \<open>\<open>json.Marshal\<close> of the ping, a map, whose keys are sorted. \<open>enc\<close> is the encoder's quoting of a string.\<close>

definition ping_json :: "(string \<Rightarrow> string) \<Rightarrow> string \<Rightarrow> string" where
  "ping_json enc epID =
     ''{'' @ enc ''endpoint_id'' @ '':'' @ enc epID @ '','' @ enc ''type'' @ '':'' @ enc ''webhook.test'' @ ''}''"

definition insert_test_event :: "postgres \<Rightarrow> string \<Rightarrow> string \<Rightarrow> string \<Rightarrow> unit stmt" where
  "insert_test_event P evtID epID ping = on_schema 1 (\<lambda>now d.
     case to_jsonb P ping of
       None \<Rightarrow> Inl invalid_json
     | Some j \<Rightarrow>
         if lookup_row ev_id evtID (events d) \<noteq> None then Inl duplicate_key
         else Inr ((), d\<lparr>events := events d @ [\<lparr>ev_id = evtID, ev_type = ''webhook.test'', ev_fiber_ref = Some epID,
             ev_asset = None, ev_amount = None, ev_data = j, ev_occurred_at = now, ev_ingested_at = now,
             ev_checkpoint = 0\<rparr>]\<rparr>))"

definition insert_test_delivery ::
    "postgres \<Rightarrow> string \<Rightarrow> string \<Rightarrow> string \<Rightarrow> string \<Rightarrow> string \<Rightarrow> string \<Rightarrow> unit stmt" where
  "insert_test_delivery P dlvID epID evtID url secret ping = on_schema 2 (\<lambda>now d.
     case to_jsonb P ping of
       None \<Rightarrow> Inl invalid_json
     | Some j \<Rightarrow>
         (let dl = new_delivery dlvID epID evtID url secret j now in
          if lookup_row dl_id dlvID (webhook_deliveries d) \<noteq> None then Inl duplicate_key
          else if \<not> delivery_refs_ok dl d then Inl undefined_key
          else Inr ((), d\<lparr>webhook_deliveries := webhook_deliveries d @ [dl]\<rparr>)))"

definition test_endpoint :: "(string \<Rightarrow> string) \<Rightarrow> postgres \<Rightarrow> request \<Rightarrow> (world, response) state" where
  "test_endpoint enc P r = do {
     let epID = req_param r ''id'';
     s \<leftarrow> pool_exec (on_schema 2 (\<lambda>_ d.
            case find (\<lambda>ep. ep_id ep = epID \<and> ep_active ep) (webhook_endpoints d) of
              None \<Rightarrow> Inl ErrNoRows | Some ep \<Rightarrow> Inr ((ep_url ep, ep_secret ep), d)));
     case s of
       Inl e \<Rightarrow> if errors_Is e ErrNoRows then respond (Error StatusNotFound ''endpoint not found'')
                else internal_error e
     | Inr (url, secret) \<Rightarrow> do {
         evtID \<leftarrow> id_New;
         let ping = ping_json enc epID;
         s1 \<leftarrow> pool_exec (insert_test_event P evtID epID ping);
         case s1 of
           Inl e \<Rightarrow> internal_error e
         | Inr _ \<Rightarrow> do {
             dlvID \<leftarrow> id_New;
             s2 \<leftarrow> pool_exec (insert_test_delivery P dlvID epID evtID url secret ping);
             case s2 of
               Inl e \<Rightarrow> internal_error e
             | Inr _ \<Rightarrow> respond (JSON StatusAccepted
                 (JObj [(''delivery_id'', JStr dlvID), (''status'', JStr ''queued'')])) } } }"

definition replayed :: "time \<Rightarrow> delivery_row \<Rightarrow> delivery_row" where
  "replayed now dl = dl\<lparr>dl_status := ''pending'', dl_attempts := 0, dl_next_attempt_at := now, dl_last_error := None\<rparr>"

definition replay_stmt :: "string \<Rightarrow> string \<Rightarrow> nat stmt" where
  "replay_stmt dlvID epID = on_schema 2 (\<lambda>now d.
     let hit = (\<lambda>dl. dl_id dl = dlvID \<and> dl_endpoint_id dl = epID)
     in Inr (rows_affected hit (webhook_deliveries d),
             d\<lparr>webhook_deliveries := update_where hit (replayed now) (webhook_deliveries d)\<rparr>))"

definition replay :: "request \<Rightarrow> (world, response) state" where
  "replay r = do {
     let dlvID = req_param r ''delivery_id'';
     s \<leftarrow> pool_exec (replay_stmt dlvID (req_param r ''id''));
     case s of
       Inl e \<Rightarrow> internal_error e
     | Inr n \<Rightarrow> if n = 0 then respond (Error StatusNotFound ''delivery not found for endpoint'')
               else respond (JSON StatusAccepted
                 (JObj [(''delivery_id'', JStr dlvID), (''status'', JStr ''requeued'')])) }"

end
