(* ===== verification/Outbox.thy ===== *)
theory Outbox
  imports Endpoints
begin

text \<open>
  The outbox as a state machine. Every statement any process sends to the delivery table (the store's
  operations, the endpoint handlers, the indexer's fan-out) is an operation of \<open>outbox_op\<close>; a run is a
  sequence of operations at non-decreasing times. The locale \<open>leased_queue\<close> states what the library's
  dispatcher relies on, and the lemma that two workers never hold the same delivery is proved from it.
\<close>

section \<open>Operations and runs\<close>

definition effect :: "'a stmt \<Rightarrow> time \<Rightarrow> db \<Rightarrow> db" where
  "effect q now d = (case q now d of Inl _ \<Rightarrow> d | Inr (_, d') \<Rightarrow> d')"

datatype outbox_op =
    Op_claim int "string list"
  | Op_succeed string
  | Op_fail string time string
  | Op_dead string
  | Op_requeue
  | Op_replay string string
  | Op_enqueue delivery_row

primrec op_effect :: "store \<Rightarrow> outbox_op \<Rightarrow> time \<Rightarrow> db \<Rightarrow> db" where
  "op_effect s (Op_claim limit locked) = effect (claim_stmt s limit (\<lambda>i. i \<in> set locked))"
| "op_effect s (Op_succeed i) = effect (mark_stmt i set_succeeded (\<lambda>dl. dl_attempts dl + 1) None)"
| "op_effect s (Op_fail i t msg) = effect (mark_stmt i (set_failed t msg) dl_attempts (Some msg))"
| "op_effect s (Op_dead i) = effect (mark_stmt i set_dead dl_attempts (Some ''max attempts exceeded''))"
| "op_effect s Op_requeue = effect requeue_stmt"
| "op_effect s (Op_replay dlv ep) = effect (replay_stmt dlv ep)"
| "op_effect s (Op_enqueue dl) =
     (\<lambda>now d. d\<lparr>webhook_deliveries := insert_absent dl_id dl (webhook_deliveries d)\<rparr>)"

text \<open>The operations that name a delivery: its marks and its replay.\<close>

primrec addresses :: "outbox_op \<Rightarrow> string \<Rightarrow> bool" where
  "addresses (Op_claim n locked) x = False"
| "addresses (Op_succeed i) x = (i = x)"
| "addresses (Op_fail i t msg) x = (i = x)"
| "addresses (Op_dead i) x = (i = x)"
| "addresses Op_requeue x = False"
| "addresses (Op_replay i ep) x = (i = x)"
| "addresses (Op_enqueue dl) x = False"

inductive outbox_run :: "store \<Rightarrow> (time \<times> outbox_op) list \<Rightarrow> time \<times> db \<Rightarrow> time \<times> db \<Rightarrow> bool" for s where
  run_nil: "outbox_run s [] x x"
| run_step: "t \<le> t' \<Longrightarrow> outbox_run s tr (t', op_effect s op t' d) y \<Longrightarrow> outbox_run s ((t', op) # tr) (t, d) y"

inductive_cases outbox_run_NilE [elim!]: "outbox_run s [] x y"
inductive_cases outbox_run_ConsE [elim!]: "outbox_run s (a # tr) x y"

lemma outbox_run_time: "outbox_run s tr (t, d) (t', d') \<Longrightarrow> t \<le> t' \<and> (\<forall>(u, op) \<in> set tr. t \<le> u \<and> u \<le> t')"
  by (induction tr arbitrary: t d) force+

section \<open>The contract of a leased queue\<close>

locale leased_queue =
  fixes claim :: "'c \<Rightarrow> time \<Rightarrow> 'st \<Rightarrow> 'i set \<times> 'st"
    and step :: "'op \<Rightarrow> time \<Rightarrow> 'st \<Rightarrow> 'st"
    and touches :: "'op \<Rightarrow> 'i \<Rightarrow> bool"
    and held :: "'i \<Rightarrow> time \<Rightarrow> 'st \<Rightarrow> bool"
    and ttl :: int
  assumes claim_holds: "claim c now st = (ids, st') \<Longrightarrow> i \<in> ids \<Longrightarrow> held i (now + ttl) st'"
    and held_blocks: "held i u st \<Longrightarrow> claim c now st = (ids, st') \<Longrightarrow> i \<notin> ids"
    and held_step: "held i u st \<Longrightarrow> now < u \<Longrightarrow> \<not> touches op i \<Longrightarrow> held i u (step op now st)"
begin

lemma held_run:
  assumes "held i u st" and "\<forall>(now, op) \<in> set tr. now < u \<and> \<not> touches op i"
  shows "held i u (fold (\<lambda>(now, op) st. step op now st) tr st)"
  using assms
proof (induction tr arbitrary: st)
  case Nil
  then show ?case by simp
next
  case (Cons x tr)
  obtain now op where x: "x = (now, op)" by fastforce
  with Cons.prems have "held i u (step op now st)" by (intro held_step) auto
  with Cons x show ?case by simp
qed

text \<open>A claimed item is not claimed again before its lease ends, unless somebody touches it.\<close>

lemma exclusive:
  assumes "claim c now st = (ids, st')" and "i \<in> ids"
    and "\<forall>(t, op) \<in> set tr. t < now + ttl \<and> \<not> touches op i"
    and "claim c' now' (fold (\<lambda>(now, op) st. step op now st) tr st') = (ids', st'')"
  shows "i \<notin> ids'"
  using claim_holds[OF assms(1,2)] held_run[OF _ assms(3)] held_blocks[OF _ assms(4)] by blast

end

section \<open>The delivery table is a leased queue\<close>

definition held :: "string \<Rightarrow> time \<Rightarrow> db \<Rightarrow> bool" where
  "held i u d \<longleftrightarrow> i \<in> dl_id ` set (webhook_deliveries d) \<and>
     (\<forall>dl \<in> set (webhook_deliveries d). dl_id dl = i \<longrightarrow> dl_status dl = ''delivering'' \<and> u \<le> dl_next_attempt_at dl)"

text \<open>The ids a claim statement returns, with its effect.\<close>

definition claim_ids :: "store \<Rightarrow> int \<times> (string \<Rightarrow> bool) \<Rightarrow> time \<Rightarrow> db \<Rightarrow> string set \<times> db" where
  "claim_ids s = (\<lambda>(limit, locked) now d. case claim_stmt s limit locked now d of
     Inl _ \<Rightarrow> ({}, d) | Inr (rows, d') \<Rightarrow> (dl_id ` fst ` set rows, d'))"

lemma dl_id_take_lease [simp]: "dl_id (take_lease s now dl) = dl_id dl"
  by (simp add: take_lease_def)

lemma claimable_due:
  "dl \<in> set (claimable n locked now t) \<Longrightarrow> dl \<in> set t \<and> due now dl \<and> \<not> locked (dl_id dl)"
  by (auto simp: claimable_def dest!: in_set_takeD)

lemma map_dl_id_claim_rows: "map dl_id (claim_rows s n locked now t) = map dl_id t"
  by (simp add: claim_rows_def Let_def map_key_update_where)

lemma set_claim_rows:
  "dl \<in> set (claim_rows s n locked now t) \<longleftrightarrow>
   (\<exists>x \<in> set t. dl = (if dl_id x \<in> dl_id ` set (claimable n locked now t) then take_lease s now x else x))"
  by (auto simp: claim_rows_def update_where_def Let_def)

lemma image_restrict_eq: "A \<subseteq> f ` T \<Longrightarrow> f ` {x \<in> T. f x \<in> A} = A"
  by auto

lemma claim_ids_eq:
  "claim_ids s (limit, locked) now d =
     (if schema_version d < 2 \<or> limit < 0 then ({}, d)
      else (dl_id ` set (claimable (nat limit) locked now (webhook_deliveries d)),
            d\<lparr>webhook_deliveries := claim_rows s (nat limit) locked now (webhook_deliveries d)\<rparr>))"
proof -
  let ?c = "dl_id ` set (claimable (nat limit) locked now (webhook_deliveries d))"
  let ?t = "claim_rows s (nat limit) locked now (webhook_deliveries d)"
  have ids: "dl_id ` set ?t = dl_id ` set (webhook_deliveries d)"
    using map_dl_id_claim_rows by (metis list.set_map)
  have "?c \<subseteq> dl_id ` set ?t"
    unfolding ids by (auto dest: claimable_due)
  moreover have "dl_id ` fst ` set (claimed_rows s (nat limit) locked now d) = dl_id ` {dl \<in> set ?t. dl_id dl \<in> ?c}"
    by (simp add: claimed_rows_def Let_def image_image)
  ultimately have "dl_id ` fst ` set (claimed_rows s (nat limit) locked now d) = ?c"
    using image_restrict_eq[of ?c dl_id "set ?t"] by simp
  then show ?thesis by (simp add: claim_ids_def claim_stmt_def on_schema_def)
qed

lemma not_due_held:
  assumes "held i u d"
  shows "i \<notin> dl_id ` set (claimable n locked now (webhook_deliveries d))"
  using assms by (auto simp: held_def due_def dest!: claimable_due)

lemma held_update:
  assumes "held i u d" and "\<And>dl. dl_id (f dl) = dl_id dl"
    and "\<And>dl. dl \<in> set (webhook_deliveries d) \<Longrightarrow> dl_id dl = i \<Longrightarrow> \<not> Q dl"
  shows "held i u (d\<lparr>webhook_deliveries := update_where Q f (webhook_deliveries d)\<rparr>)"
proof -
  have "map dl_id (update_where Q f (webhook_deliveries d)) = map dl_id (webhook_deliveries d)"
    by (simp add: map_key_update_where assms(2))
  then have "dl_id ` set (update_where Q f (webhook_deliveries d)) = dl_id ` set (webhook_deliveries d)"
    by (metis list.set_map)
  with assms show ?thesis
    by (auto simp: held_def update_where_def split: if_splits)
qed

lemma held_mark:
  assumes "held i u d" and "did \<noteq> i" and "\<And>dl. dl_id (f dl) = dl_id dl"
  shows "held i u (effect (mark_stmt did f n err) now d)"
  using held_update[of i u d f "\<lambda>dl. dl_id dl = did"] assms
  by (auto simp: effect_def mark_stmt_def on_schema_def Let_def held_def)

lemma held_op:
  assumes "held i u d" and "now < u" and "\<not> addresses op i"
  shows "held i u (op_effect s op now d)"
proof (cases op)
  case (Op_claim limit locked)
  have "op_effect s op now d = snd (claim_ids s (limit, \<lambda>x. x \<in> set locked) now d)"
    by (auto simp: Op_claim effect_def claim_ids_def split: sum.splits)
  with assms(1) show ?thesis
    using held_update[OF assms(1), of "take_lease s now"] not_due_held[OF assms(1)]
    by (auto simp: claim_ids_eq claim_rows_def Let_def)
next
  case Op_requeue
  have "held i u (d\<lparr>webhook_deliveries := update_where (stuck now) (rearm now) (webhook_deliveries d)\<rparr>)"
    using assms by (intro held_update) (auto simp: rearm_def stuck_def held_def)
  with assms Op_requeue show ?thesis
    by (simp add: effect_def requeue_stmt_def on_schema_def)
next
  case (Op_replay dlv ep)
  have "held i u (d\<lparr>webhook_deliveries := update_where (\<lambda>dl. dl_id dl = dlv \<and> dl_endpoint_id dl = ep) (replayed now)
      (webhook_deliveries d)\<rparr>)"
    using assms Op_replay by (intro held_update) (auto simp: replayed_def)
  with assms Op_replay show ?thesis
    by (simp add: effect_def replay_stmt_def on_schema_def Let_def)
next
  case (Op_enqueue dl)
  with assms(1) show ?thesis
    by (auto simp: held_def insert_absent_def lookup_row_None_iff)
qed (use assms in \<open>auto intro!: held_mark simp: set_succeeded_def set_failed_def set_dead_def\<close>)

lemma claim_makes_held:
  assumes "claim_ids s (limit, locked) now d = (ids, d')" and "i \<in> ids"
  shows "held i (now + lease s) d'"
proof -
  from assms have d': "d' = d\<lparr>webhook_deliveries := claim_rows s (nat limit) locked now (webhook_deliveries d)\<rparr>"
    and i: "i \<in> dl_id ` set (claimable (nat limit) locked now (webhook_deliveries d))"
    by (auto simp: claim_ids_eq split: if_splits)
  from i have "i \<in> dl_id ` set (webhook_deliveries d)" by (auto dest!: claimable_due)
  then have "i \<in> dl_id ` set (claim_rows s (nat limit) locked now (webhook_deliveries d))"
    using map_dl_id_claim_rows by (metis list.set_map)
  moreover have "dl_status dl = ''delivering'' \<and> now + lease s \<le> dl_next_attempt_at dl"
    if "dl \<in> set (claim_rows s (nat limit) locked now (webhook_deliveries d))" and "dl_id dl = i" for dl
  proof -
    from that(1) obtain x where "dl = (if dl_id x \<in> dl_id ` set (claimable (nat limit) locked now (webhook_deliveries d))
        then take_lease s now x else x)" unfolding set_claim_rows by blast
    with that(2) i have "dl = take_lease s now x" by (metis dl_id_take_lease)
    then show ?thesis by (simp add: take_lease_def)
  qed
  ultimately show ?thesis by (simp add: d' held_def)
qed

interpretation outbox: leased_queue "claim_ids s" "op_effect s" addresses held "lease s" for s
proof unfold_locales
  show "claim_ids s c now st = (ids, st') \<Longrightarrow> i \<in> ids \<Longrightarrow> held i (now + lease s) st'" for c now st ids st' i
    by (cases c) (auto intro: claim_makes_held)
  show "held i u st \<Longrightarrow> claim_ids s c now st = (ids, st') \<Longrightarrow> i \<notin> ids" for i u st c now ids st'
    using not_due_held[of i u st] by (cases c) (force simp: claim_ids_eq split: if_splits)
qed (rule held_op)

lemma outbox_run_fold:
  "outbox_run s tr (t, d) (t', d') \<Longrightarrow> d' = fold (\<lambda>(now, op) st. op_effect s op now st) tr d"
  by (induction tr arbitrary: t d) auto

end
