(* ===== verification/Query.thy ===== *)
theory Query
  imports Httpx
begin

text \<open>
  The read side of padma, \<^verbatim>\<open>internal/query\<close>: the cursor codec (\<^verbatim>\<open>cursor.go\<close>), the builder of SQL conditions
  and the scalar helpers (\<^verbatim>\<open>repo.go\<close>), the paginated queries and the aggregation (\<^verbatim>\<open>queries.go\<close>) and the
  handlers (\<^verbatim>\<open>handlers.go\<close>). A condition the builder appends is kept in structured form beside its SQL
  text, so that what the server evaluates, placeholders included, is part of the model.
\<close>

section \<open>\<open>cursor.go\<close>\<close>

record cursor =
  cur_Time :: time
  cur_ID :: string

definition zero_cursor :: cursor where
  "zero_cursor = \<lparr>cur_Time = zero_time, cur_ID = ''''\<rparr>"

definition IsZero :: "cursor \<Rightarrow> bool" where
  "IsZero c \<longleftrightarrow> cur_Time c = zero_time \<and> cur_ID c = ''''"

definition Encode :: "cursor \<Rightarrow> string" where
  "Encode c = b64_encode (Format_RFC3339Nano (cur_Time c) @ ''|'' @ cur_ID c)"

definition DecodeCursor :: "string \<Rightarrow> error + cursor" where
  "DecodeCursor s =
     (if s = '''' then Inr zero_cursor
      else case b64_decode s of
        Inl e \<Rightarrow> Inl (Errorf ''query: invalid cursor encoding: %w'' [] (Some e))
      | Inr b \<Rightarrow> (case Cut b (CHR ''|'') of
          None \<Rightarrow> Inl (Errorf ''query: cursor missing separator'' [] None)
        | Some (ts, i) \<Rightarrow> (case Parse_RFC3339 ts of
            Inl e \<Rightarrow> Inl (Errorf ''query: invalid cursor time: %w'' [] (Some e))
          | Inr t \<Rightarrow> Inr \<lparr>cur_Time = t, cur_ID = i\<rparr>)))"

section \<open>\<open>repo.go\<close>\<close>

definition query_ErrNotFound :: error where
  "query_ErrNotFound = Sentinel ''query: not found''"

record 'a page =
  Items :: "'a list"
  NextCursor :: string

record payment =
  p_PaymentHash :: string
  p_Direction :: string
  p_Status :: string
  p_Asset :: string
  p_Amount :: string
  p_Fee :: string
  p_Peer :: string
  p_CreatedAt :: "time option"
  p_UpdatedAt :: "time option"

record channel =
  c_ChannelID :: string
  c_Peer :: string
  c_State :: string
  c_Capacity :: string
  c_LocalBalance :: string
  c_RemoteBalance :: string
  c_OpenedAt :: "time option"
  c_ClosedAt :: "time option"

record qevent =
  q_ID :: string
  q_Type :: string
  q_FiberRef :: string
  q_Asset :: string
  q_Amount :: string
  q_Data :: string
  q_OccurredAt :: time

record stat_row =
  s_Asset :: string
  s_Count :: int
  s_Total :: string

record payment_filter =
  pf_Direction :: string
  pf_Status :: string
  pf_Asset :: string
  pf_Peer :: string
  pf_From :: "time option"
  pf_To :: "time option"

record channel_filter =
  cf_State :: string
  cf_Peer :: string

record event_filter =
  ef_Type :: string
  ef_From :: "time option"
  ef_To :: "time option"

text \<open>Arguments, and conditions with the numbers of their placeholders.\<close>

datatype arg = ArgText string | ArgTime time

datatype cond =
    CEq string nat
  | CGe string nat
  | CLe string nat
  | CKeyset string string nat nat

definition placeholder :: "nat \<Rightarrow> string" where
  "placeholder n = CHR ''$'' # dec n"

primrec cond_text :: "cond \<Rightarrow> string" where
  "cond_text (CEq col n) = col @ '' = '' @ placeholder n"
| "cond_text (CGe col n) = col @ '' >= '' @ placeholder n"
| "cond_text (CLe col n) = col @ '' <= '' @ placeholder n"
| "cond_text (CKeyset ts i n m) =
     ''('' @ ts @ '', '' @ i @ '') < ('' @ placeholder n @ '', '' @ placeholder m @ '')''"

record conds =
  c_where :: "cond list"
  c_args :: "arg list"

definition no_conds :: conds where
  "no_conds = \<lparr>c_where = [], c_args = []\<rparr>"

definition eq :: "string \<Rightarrow> string \<Rightarrow> conds \<Rightarrow> conds" where
  "eq col val c =
     (if val = '''' then c
      else let as = c_args c @ [ArgText val] in c\<lparr>c_args := as, c_where := c_where c @ [CEq col (length as)]\<rparr>)"

definition tsRange :: "string \<Rightarrow> time option \<Rightarrow> time option \<Rightarrow> conds \<Rightarrow> conds" where
  "tsRange col from to c =
     (let c1 = (case from of
            None \<Rightarrow> c
          | Some t \<Rightarrow> (let as = c_args c @ [ArgTime t]
                      in c\<lparr>c_args := as, c_where := c_where c @ [CGe col (length as)]\<rparr>))
      in case to of
           None \<Rightarrow> c1
         | Some t \<Rightarrow> (let as = c_args c1 @ [ArgTime t]
                     in c1\<lparr>c_args := as, c_where := c_where c1 @ [CLe col (length as)]\<rparr>))"

definition keyset :: "string \<Rightarrow> string \<Rightarrow> cursor \<Rightarrow> conds \<Rightarrow> conds" where
  "keyset tsCol idCol cur c =
     (if IsZero cur then c
      else let as = c_args c @ [ArgTime (cur_Time cur), ArgText (cur_ID cur)]
           in c\<lparr>c_args := as, c_where := c_where c @ [CKeyset tsCol idCol (length as - 1) (length as)]\<rparr>)"

text \<open>\<open>strings.Join\<close>.\<close>

fun join :: "string \<Rightarrow> string list \<Rightarrow> string" where
  "join sep [] = []"
| "join sep [x] = x"
| "join sep (x # xs) = x @ sep @ join sep xs"

definition clause :: "conds \<Rightarrow> string" where
  "clause c = (if c_where c = [] then [] else '' WHERE '' @ join '' AND '' (map cond_text (c_where c)))"

definition clampLimit :: "int \<Rightarrow> int" where
  "clampLimit n = (if n \<le> 0 then 50 else if 200 < n then 200 else n)"

definition hexOrEmpty :: "fibertypes \<Rightarrow> numeric \<Rightarrow> string" where
  "hexOrEmpty F n =
     (if \<not> nValid n then ''''
      else case NumericToAmount F n of Inl _ \<Rightarrow> '''' | Inr a \<Rightarrow> Hex F a)"

definition str :: "string option \<Rightarrow> string" where
  "str p = (case p of None \<Rightarrow> '''' | Some s \<Rightarrow> s)"

section \<open>What the server evaluates\<close>

text \<open>
  The value of a column. A comparison with NULL is not true; texts are equal if they are the same bytes
  (Postgres collations are deterministic by default) and ordered by the collation; timestamps are
  bound with the resolution of the server.
\<close>

datatype sqlval = SNull | SText string | STime time

definition text_col :: "string option \<Rightarrow> sqlval" where
  "text_col v = (case v of None \<Rightarrow> SNull | Some s \<Rightarrow> SText s)"

definition time_col :: "time option \<Rightarrow> sqlval" where
  "time_col v = (case v of None \<Rightarrow> SNull | Some t \<Rightarrow> STime t)"

definition nth_arg :: "arg list \<Rightarrow> nat \<Rightarrow> arg option" where
  "nth_arg as n = (if 1 \<le> n \<and> n \<le> length as then Some (as ! (n - 1)) else None)"

definition cmp_time :: "postgres \<Rightarrow> (time \<Rightarrow> time \<Rightarrow> bool) \<Rightarrow> sqlval \<Rightarrow> arg option \<Rightarrow> bool" where
  "cmp_time P rel v a = (case v of STime t \<Rightarrow> (case a of Some (ArgTime u) \<Rightarrow> rel t (bind_ts P u) | _ \<Rightarrow> False) | _ \<Rightarrow> False)"

primrec holds :: "postgres \<Rightarrow> arg list \<Rightarrow> ('r \<Rightarrow> string \<Rightarrow> sqlval) \<Rightarrow> 'r \<Rightarrow> cond \<Rightarrow> bool" where
  "holds P as col r (CEq c n) =
     (case col r c of SText s \<Rightarrow> (case nth_arg as n of Some (ArgText v) \<Rightarrow> s = v | _ \<Rightarrow> False) | _ \<Rightarrow> False)"
| "holds P as col r (CGe c n) = cmp_time P (\<lambda>t u. u \<le> t) (col r c) (nth_arg as n)"
| "holds P as col r (CLe c n) = cmp_time P (\<lambda>t u. t \<le> u) (col r c) (nth_arg as n)"
| "holds P as col r (CKeyset ts i n m) =
     (case (col r i, nth_arg as m) of
        (SText s, Some (ArgText v)) \<Rightarrow>
          cmp_time P (\<lambda>t u. t < u \<or> t = u \<and> s \<noteq> v \<and> collate_le P s v) (col r ts) (nth_arg as n)
      | _ \<Rightarrow> False)"

definition selected :: "postgres \<Rightarrow> conds \<Rightarrow> ('r \<Rightarrow> string \<Rightarrow> sqlval) \<Rightarrow> 'r \<Rightarrow> bool" where
  "selected P c col r = list_all (holds P (c_args c) col r) (c_where c)"

text \<open>\<open>ORDER BY ts DESC, id DESC\<close>: NULLs come first in a descending order.\<close>

definition newer :: "postgres \<Rightarrow> ('r \<Rightarrow> time option) \<Rightarrow> ('r \<Rightarrow> string) \<Rightarrow> 'r \<Rightarrow> 'r \<Rightarrow> bool" where
  "newer P ts i x y = (case (ts x, ts y) of
     (None, None) \<Rightarrow> collate_le P (i y) (i x)
   | (None, Some _) \<Rightarrow> True
   | (Some _, None) \<Rightarrow> False
   | (Some a, Some b) \<Rightarrow> b < a \<or> a = b \<and> collate_le P (i y) (i x))"

definition select_rows ::
    "postgres \<Rightarrow> ('r \<Rightarrow> string \<Rightarrow> sqlval) \<Rightarrow> ('r \<Rightarrow> time option) \<Rightarrow> ('r \<Rightarrow> string) \<Rightarrow> conds \<Rightarrow> int \<Rightarrow> 'r list \<Rightarrow> 'r list" where
  "select_rows P col ts i c n t = take (nat n) (sort_by (newer P ts i) (filter (selected P c col) t))"

definition payment_col :: "payment_row \<Rightarrow> string \<Rightarrow> sqlval" where
  "payment_col r c =
     (if c = ''payment_hash'' then SText (pay_hash r) else if c = ''direction'' then SText (pay_direction r)
      else if c = ''status'' then SText (pay_status r) else if c = ''asset'' then text_col (pay_asset r)
      else if c = ''peer'' then text_col (pay_peer r) else if c = ''created_at'' then time_col (pay_created_at r)
      else SNull)"

definition channel_col :: "channel_row \<Rightarrow> string \<Rightarrow> sqlval" where
  "channel_col r c =
     (if c = ''channel_id'' then SText (ch_id r) else if c = ''state'' then text_col (ch_state r)
      else if c = ''peer'' then text_col (ch_peer r) else if c = ''opened_at'' then time_col (ch_opened_at r)
      else SNull)"

definition event_col :: "event_row \<Rightarrow> string \<Rightarrow> sqlval" where
  "event_col r c =
     (if c = ''id'' then SText (ev_id r) else if c = ''type'' then SText (ev_type r)
      else if c = ''occurred_at'' then STime (ev_occurred_at r) else SNull)"

section \<open>\<open>queries.go\<close>\<close>

definition paginate :: "'a list \<Rightarrow> int \<Rightarrow> ('a \<Rightarrow> cursor) \<Rightarrow> 'a page" where
  "paginate items limit cursorOf =
     (if int (length items) > limit
      then \<lparr>Items = take (nat limit) items, NextCursor = Encode (cursorOf (items ! nat (limit - 1)))\<rparr>
      else \<lparr>Items = items, NextCursor = ''''\<rparr>)"

definition deref :: "time option \<Rightarrow> time" where
  "deref t = (case t of None \<Rightarrow> zero_time | Some v \<Rightarrow> v)"

text \<open>The conditions of each listing.\<close>

definition payment_conds :: "payment_filter \<Rightarrow> cursor \<Rightarrow> conds" where
  "payment_conds f cur =
     (keyset ''created_at'' ''payment_hash'' cur \<circ> tsRange ''created_at'' (pf_From f) (pf_To f) \<circ>
      eq ''peer'' (pf_Peer f) \<circ> eq ''asset'' (pf_Asset f) \<circ> eq ''status'' (pf_Status f) \<circ>
      eq ''direction'' (pf_Direction f)) no_conds"

definition channel_conds :: "channel_filter \<Rightarrow> cursor \<Rightarrow> conds" where
  "channel_conds f cur =
     (keyset ''opened_at'' ''channel_id'' cur \<circ> eq ''peer'' (cf_Peer f) \<circ> eq ''state'' (cf_State f)) no_conds"

definition event_conds :: "event_filter \<Rightarrow> cursor \<Rightarrow> conds" where
  "event_conds f cur =
     (keyset ''occurred_at'' ''id'' cur \<circ> tsRange ''occurred_at'' (ef_From f) (ef_To f) \<circ>
      eq ''type'' (ef_Type f)) no_conds"

text \<open>A timestamp column as pgx scans it, and the pointer the response models hold.\<close>

record timestamptz =
  ts_Time :: time
  ts_Valid :: bool

definition scan_ts :: "time option \<Rightarrow> timestamptz" where
  "scan_ts c = (case c of None \<Rightarrow> \<lparr>ts_Time = zero_time, ts_Valid = False\<rparr> | Some t \<Rightarrow> \<lparr>ts_Time = t, ts_Valid = True\<rparr>)"

definition tptr :: "timestamptz \<Rightarrow> time option" where
  "tptr t = (if \<not> ts_Valid t then None else Some (ts_Time t))"

lemma tptr_scan_ts [simp]: "tptr (scan_ts c) = c"
  by (simp add: tptr_def scan_ts_def split: option.splits)

text \<open>A scanned row as its response model.\<close>

definition payment_of_row :: "fibertypes \<Rightarrow> postgres \<Rightarrow> payment_row \<Rightarrow> payment" where
  "payment_of_row F P r = \<lparr>p_PaymentHash = pay_hash r, p_Direction = pay_direction r, p_Status = pay_status r,
     p_Asset = str (pay_asset r), p_Amount = hexOrEmpty F (scan_numeric P (pay_amount r)),
     p_Fee = hexOrEmpty F (scan_numeric P (pay_fee r)), p_Peer = str (pay_peer r),
     p_CreatedAt = tptr (scan_ts (pay_created_at r)), p_UpdatedAt = tptr (scan_ts (pay_updated_at r))\<rparr>"

definition channel_of_row :: "fibertypes \<Rightarrow> postgres \<Rightarrow> channel_row \<Rightarrow> channel" where
  "channel_of_row F P r = \<lparr>c_ChannelID = ch_id r, c_Peer = str (ch_peer r), c_State = str (ch_state r),
     c_Capacity = hexOrEmpty F (scan_numeric P (ch_capacity r)),
     c_LocalBalance = hexOrEmpty F (scan_numeric P (ch_local_balance r)),
     c_RemoteBalance = hexOrEmpty F (scan_numeric P (ch_remote_balance r)),
     c_OpenedAt = tptr (scan_ts (ch_opened_at r)), c_ClosedAt = tptr (scan_ts (ch_closed_at r))\<rparr>"

definition event_of_row :: "fibertypes \<Rightarrow> postgres \<Rightarrow> event_row \<Rightarrow> qevent" where
  "event_of_row F P r = \<lparr>q_ID = ev_id r, q_Type = ev_type r, q_FiberRef = str (ev_fiber_ref r),
     q_Asset = str (ev_asset r), q_Amount = hexOrEmpty F (scan_numeric P (ev_amount r)), q_Data = ev_data r,
     q_OccurredAt = ev_occurred_at r\<rparr>"

text \<open>A read-only statement, and the wrapped errors of the two ways a query fails.\<close>

definition reading :: "(db \<Rightarrow> 'a) \<Rightarrow> 'a stmt" where
  "reading f = on_schema 1 (\<lambda>_ d. Inr (f d, d))"

definition wrap_error :: "string \<Rightarrow> error \<Rightarrow> error" where
  "wrap_error msg e = Errorf msg [] (Some e)"

definition Payments :: "fibertypes \<Rightarrow> postgres \<Rightarrow> payment_filter \<Rightarrow> cursor \<Rightarrow> int \<Rightarrow> payment page io" where
  "Payments F P f cur limit0 = do {
     let limit = clampLimit limit0;
     let c = payment_conds f cur;
     r \<leftarrow> pool_query (reading (\<lambda>d. select_rows P payment_col pay_created_at pay_hash c (limit + 1) (payments d)))
            (wrap_error ''query: payments: %w'');
     case r of
       Inl e \<Rightarrow> throw e
     | Inr rows \<Rightarrow> ok (paginate (map (payment_of_row F P) rows) limit
         (\<lambda>p. \<lparr>cur_Time = deref (p_CreatedAt p), cur_ID = p_PaymentHash p\<rparr>)) }"

definition PaymentByHash :: "fibertypes \<Rightarrow> postgres \<Rightarrow> string \<Rightarrow> payment io" where
  "PaymentByHash F P hash = do {
     r \<leftarrow> pool_exec (on_schema 1 (\<lambda>_ d. case lookup_row pay_hash hash (payments d) of
            None \<Rightarrow> Inl ErrNoRows | Some p \<Rightarrow> Inr (p, d)));
     case r of
       Inl e \<Rightarrow> if errors_Is e ErrNoRows then throw query_ErrNotFound
                else throw (wrap_error ''query: payment by hash: %w'' e)
     | Inr p \<Rightarrow> ok (payment_of_row F P p) }"

definition Channels :: "fibertypes \<Rightarrow> postgres \<Rightarrow> channel_filter \<Rightarrow> cursor \<Rightarrow> int \<Rightarrow> channel page io" where
  "Channels F P f cur limit0 = do {
     let limit = clampLimit limit0;
     let c = channel_conds f cur;
     r \<leftarrow> pool_query (reading (\<lambda>d. select_rows P channel_col ch_opened_at ch_id c (limit + 1) (channels d)))
            (wrap_error ''query: channels: %w'');
     case r of
       Inl e \<Rightarrow> throw e
     | Inr rows \<Rightarrow> ok (paginate (map (channel_of_row F P) rows) limit
         (\<lambda>ch. \<lparr>cur_Time = deref (c_OpenedAt ch), cur_ID = c_ChannelID ch\<rparr>)) }"

definition ChannelByID :: "fibertypes \<Rightarrow> postgres \<Rightarrow> string \<Rightarrow> channel io" where
  "ChannelByID F P chID = do {
     r \<leftarrow> pool_exec (on_schema 1 (\<lambda>_ d. case lookup_row ch_id chID (channels d) of
            None \<Rightarrow> Inl ErrNoRows | Some ch \<Rightarrow> Inr (ch, d)));
     case r of
       Inl e \<Rightarrow> if errors_Is e ErrNoRows then throw query_ErrNotFound
                else throw (wrap_error ''query: channel by id: %w'' e)
     | Inr ch \<Rightarrow> ok (channel_of_row F P ch) }"

definition Events :: "fibertypes \<Rightarrow> postgres \<Rightarrow> event_filter \<Rightarrow> cursor \<Rightarrow> int \<Rightarrow> qevent page io" where
  "Events F P f cur limit0 = do {
     let limit = clampLimit limit0;
     let c = event_conds f cur;
     r \<leftarrow> pool_query (reading (\<lambda>d. select_rows P event_col (\<lambda>e. Some (ev_occurred_at e)) ev_id c (limit + 1) (events d)))
            (wrap_error ''query: events: %w'');
     case r of
       Inl e \<Rightarrow> throw e
     | Inr rows \<Rightarrow> ok (paginate (map (event_of_row F P) rows) limit
         (\<lambda>e. \<lparr>cur_Time = q_OccurredAt e, cur_ID = q_ID e\<rparr>)) }"

text \<open>
  \<open>GROUP BY COALESCE(asset, 'unknown') ORDER BY asset\<close>, where \<open>asset\<close> names the output column; one row
  per group with \<open>count(*)\<close> and \<open>COALESCE(sum(amount), 0)\<close>.
\<close>

definition asset_group :: "payment_row \<Rightarrow> string" where
  "asset_group r = coalesce (pay_asset r) ''unknown''"

definition stats_rows :: "postgres \<Rightarrow> conds \<Rightarrow> payment_row list \<Rightarrow> (string \<times> int \<times> int) list" where
  "stats_rows P c t =
     (let hits = filter (selected P c payment_col) t
      in map (\<lambda>a. let grp = filter (\<lambda>r. asset_group r = a) hits
                  in (a, int (length grp), coalesce (sql_sum (map pay_amount grp)) 0))
           (sort_by (collate_le P) (remdups (map asset_group hits))))"

definition StatsPayments :: "fibertypes \<Rightarrow> postgres \<Rightarrow> time option \<Rightarrow> time option \<Rightarrow> stat_row list io" where
  "StatsPayments F P from to = do {
     let c = tsRange ''created_at'' from to no_conds;
     r \<leftarrow> pool_query (reading (\<lambda>d. stats_rows P c (payments d))) (wrap_error ''query: stats: %w'');
     case r of
       Inl e \<Rightarrow> throw e
     | Inr rows \<Rightarrow> ok (map (\<lambda>(a, n, total).
         \<lparr>s_Asset = a, s_Count = n, s_Total = hexOrEmpty F (numeric_of P total)\<rparr>) rows) }"

section \<open>\<open>handlers.go\<close>\<close>

text \<open>The JSON form of the response models, field by field with their tags.\<close>

definition payment_json :: "payment \<Rightarrow> json" where
  "payment_json p = JObj ([(''payment_hash'', JStr (p_PaymentHash p)), (''direction'', JStr (p_Direction p)),
     (''status'', JStr (p_Status p))] @ omit_empty ''asset'' (p_Asset p) @ omit_empty ''amount'' (p_Amount p) @
     omit_empty ''fee'' (p_Fee p) @ omit_empty ''peer'' (p_Peer p) @ omit_nil ''created_at'' (p_CreatedAt p) @
     omit_nil ''updated_at'' (p_UpdatedAt p))"

definition channel_json :: "channel \<Rightarrow> json" where
  "channel_json ch = JObj ([(''channel_id'', JStr (c_ChannelID ch))] @ omit_empty ''peer'' (c_Peer ch) @
     omit_empty ''state'' (c_State ch) @ omit_empty ''capacity'' (c_Capacity ch) @
     omit_empty ''local_balance'' (c_LocalBalance ch) @ omit_empty ''remote_balance'' (c_RemoteBalance ch) @
     omit_nil ''opened_at'' (c_OpenedAt ch) @ omit_nil ''closed_at'' (c_ClosedAt ch))"

definition qevent_json :: "qevent \<Rightarrow> json" where
  "qevent_json e = JObj ([(''id'', JStr (q_ID e)), (''type'', JStr (q_Type e))] @
     omit_empty ''fiber_ref'' (q_FiberRef e) @ omit_empty ''asset'' (q_Asset e) @ omit_empty ''amount'' (q_Amount e) @
     [(''data'', JRaw (q_Data e)), (''occurred_at'', JTime (q_OccurredAt e))])"

definition stat_json :: "stat_row \<Rightarrow> json" where
  "stat_json s = JObj [(''asset'', JStr (s_Asset s)), (''count'', JNum (s_Count s)), (''total'', JStr (s_Total s))]"

definition page_json :: "('a \<Rightarrow> json) \<Rightarrow> 'a page \<Rightarrow> json" where
  "page_json f p = JObj ((''items'', slice_json f (Items p)) # omit_empty ''next_cursor'' (NextCursor p))"

text \<open>The end of a handler: the result as JSON, or its error with status 500.\<close>

definition reply_json :: "('a \<Rightarrow> json) \<Rightarrow> 'a io \<Rightarrow> (world, response) state" where
  "reply_json f m = do {
     r \<leftarrow> m;
     case r of Inl e \<Rightarrow> internal_error e | Inr x \<Rightarrow> respond (JSON StatusOK (f x)) }"

text \<open>The same for a single row, where \<open>ErrNotFound\<close> becomes status 404.\<close>

definition reply_found :: "string \<Rightarrow> ('a \<Rightarrow> json) \<Rightarrow> 'a io \<Rightarrow> (world, response) state" where
  "reply_found msg f m = do {
     r \<leftarrow> m;
     case r of
       Inl e \<Rightarrow> if errors_Is e query_ErrNotFound then respond (Error StatusNotFound msg) else internal_error e
     | Inr x \<Rightarrow> respond (JSON StatusOK (f x)) }"

definition bad_cursor :: "error \<Rightarrow> (world, response) state" where
  "bad_cursor e = respond (Error StatusBadRequest (error_text e))"

definition with_cursor :: "request \<Rightarrow> (cursor \<Rightarrow> (world, response) state) \<Rightarrow> (world, response) state" where
  "with_cursor r k = (case DecodeCursor (req_query r ''cursor'') of Inl e \<Rightarrow> bad_cursor e | Inr cur \<Rightarrow> k cur)"

definition with_range ::
    "request \<Rightarrow> (time option \<Rightarrow> time option \<Rightarrow> (world, response) state) \<Rightarrow> (world, response) state" where
  "with_range r k =
     (case QueryTime r ''from'' of
        Inl e \<Rightarrow> respond (Error StatusBadRequest (''invalid from: '' @ error_text e))
      | Inr from \<Rightarrow> (case QueryTime r ''to'' of
          Inl e \<Rightarrow> respond (Error StatusBadRequest (''invalid to: '' @ error_text e))
        | Inr to \<Rightarrow> k from to))"

definition listPayments :: "fibertypes \<Rightarrow> postgres \<Rightarrow> request \<Rightarrow> (world, response) state" where
  "listPayments F P r = with_cursor r (\<lambda>cur. with_range r (\<lambda>from to.
     reply_json (page_json payment_json) (Payments F P
       \<lparr>pf_Direction = req_query r ''direction'', pf_Status = req_query r ''status'', pf_Asset = req_query r ''asset'',
        pf_Peer = req_query r ''peer'', pf_From = from, pf_To = to\<rparr>
       cur (QueryInt r ''limit'' 50))))"

definition getPayment :: "fibertypes \<Rightarrow> postgres \<Rightarrow> request \<Rightarrow> (world, response) state" where
  "getPayment F P r =
     reply_found ''payment not found'' payment_json (PaymentByHash F P (req_param r ''payment_hash''))"

definition listChannels :: "fibertypes \<Rightarrow> postgres \<Rightarrow> request \<Rightarrow> (world, response) state" where
  "listChannels F P r = with_cursor r (\<lambda>cur.
     reply_json (page_json channel_json) (Channels F P
       \<lparr>cf_State = req_query r ''state'', cf_Peer = req_query r ''peer''\<rparr> cur (QueryInt r ''limit'' 50)))"

definition getChannel :: "fibertypes \<Rightarrow> postgres \<Rightarrow> request \<Rightarrow> (world, response) state" where
  "getChannel F P r =
     reply_found ''channel not found'' channel_json (ChannelByID F P (req_param r ''channel_id''))"

definition listEvents :: "fibertypes \<Rightarrow> postgres \<Rightarrow> request \<Rightarrow> (world, response) state" where
  "listEvents F P r = with_cursor r (\<lambda>cur. with_range r (\<lambda>from to.
     reply_json (page_json qevent_json) (Events F P
       \<lparr>ef_Type = req_query r ''type'', ef_From = from, ef_To = to\<rparr> cur (QueryInt r ''limit'' 50))))"

text \<open>A Go map is encoded with its keys sorted.\<close>

definition statsPayments :: "fibertypes \<Rightarrow> postgres \<Rightarrow> request \<Rightarrow> (world, response) state" where
  "statsPayments F P r = with_range r (\<lambda>from to.
     reply_json (\<lambda>stats. JObj [(''buckets'', slice_json stat_json stats), (''group_by'', JStr ''asset'')])
       (StatsPayments F P from to))"

end
