(* ===== verification/Server.thy ===== *)
theory Server
  imports Endpoints Query Merchant_Http
begin

text \<open>
  The HTTP API as \<^verbatim>\<open>internal/apiserver/server.go\<close> assembles it: the table of routes of the query, webhook
  and merchant handlers. Matching a request to a pattern and the two chi middlewares are the
  library's; the table maps each method and pattern to the handler that runs.
\<close>

record deps =
  d_fibertypes :: fibertypes
  d_postgres :: postgres
  d_node :: fiber_rpc
  d_excelize :: excelize
  d_ulid :: "byte list \<Rightarrow> string"
  d_quote :: "string \<Rightarrow> string"
  d_rows :: nat

type_synonym handler = "request \<Rightarrow> (world, response) state"

type_synonym routes = "((string \<times> string) \<times> handler) list"

definition mount :: "string \<Rightarrow> routes \<Rightarrow> routes" where
  "mount prefix rs = map (\<lambda>((meth, pat), h). ((meth, prefix @ pat), h)) rs"

definition query_Routes :: "deps \<Rightarrow> routes" where
  "query_Routes D = (let F = d_fibertypes D; P = d_postgres D in
     [((''GET'', ''/payments''), listPayments F P),
      ((''GET'', ''/payments/{payment_hash}''), getPayment F P),
      ((''GET'', ''/channels''), listChannels F P),
      ((''GET'', ''/channels/{channel_id}''), getChannel F P),
      ((''GET'', ''/events''), listEvents F P),
      ((''GET'', ''/stats/payments''), statsPayments F P)])"

definition webhook_Routes :: "deps \<Rightarrow> routes" where
  "webhook_Routes D =
     [((''POST'', ''/webhooks''), create (d_ulid D)),
      ((''GET'', ''/webhooks''), (\<lambda>_. list_endpoints (d_rows D))),
      ((''DELETE'', ''/webhooks/{id}''), remove_endpoint),
      ((''POST'', ''/webhooks/{id}/test''), test_endpoint (d_quote D) (d_postgres D)),
      ((''POST'', ''/webhooks/{id}/replay/{delivery_id}''), replay)]"

text \<open>All merchant routes are inside the group that uses \<open>authMerchant\<close>.\<close>

definition merchant_Routes :: "deps \<Rightarrow> routes" where
  "merchant_Routes D = (let F = d_fibertypes D; P = d_postgres D; N = d_node D in
     mount ''/merchant'' (map (\<lambda>(k, h). (k, authMerchant h))
       [((''POST'', ''/orders''), createOrder F P N),
        ((''GET'', ''/orders/{id}''), getOrder F P),
        ((''POST'', ''/orders/{id}/refund''), refund_handler F P N),
        ((''GET'', ''/settlements''), settlements_handler F P),
        ((''GET'', ''/reconciliation''), reconciliation_handler F P),
        ((''GET'', ''/export''), export_handler F P (d_excelize D))]))"

definition healthz :: handler where
  "healthz _ = respond (JSON StatusOK (JObj [(''status'', JStr ''ok'')]))"

definition Router :: "deps \<Rightarrow> routes" where
  "Router D = ((''GET'', ''/healthz''), healthz) #
     mount ''/api'' (query_Routes D @ webhook_Routes D @ merchant_Routes D)"

lemmas route_defs = Router_def mount_def query_Routes_def webhook_Routes_def merchant_Routes_def

text \<open>No route hides another one.\<close>

lemma Router_distinct: "distinct (map fst (Router D))"
  by (simp add: route_defs Let_def)

text \<open>The merchant part of the API is exactly what is behind the authentication.\<close>

lemma Router_merchant:
  assumes "((meth, pat), h) \<in> set (Router D)" and "take 13 pat = ''/api/merchant''"
  obtains handler where "h = authMerchant handler"
  using assms by (auto simp: route_defs Let_def)

end
