(* ===== verification/Projection.thy ===== *)
theory Projection
  imports Indexer
begin

text \<open>
  What the projector promises. \<open>event_effect\<close> is the abstract effect of one event on the tables,
  \<open>save_effect\<close> that of one raw change; the lemmas show that \<^verbatim>\<open>projector.go\<close>, \<^verbatim>\<open>deliveries.go\<close> and
  \<^verbatim>\<open>merchant_match.go\<close> implement it: under every schedule \<open>Save\<close> makes this effect or none, and on a
  quiet world it makes it. The second part shows that replaying changes is idempotent.
\<close>

section \<open>The abstract effect of an event\<close>

definition eff_event :: "kevents \<Rightarrow> postgres \<Rightarrow> int \<Rightarrow> event \<Rightarrow> time \<Rightarrow> db \<Rightarrow> db" where
  "eff_event K P seq e now d =
     (case to_jsonb P (e_Data e) of
        None \<Rightarrow> d
      | Some j \<Rightarrow> d\<lparr>events := insert_absent ev_id (event_ins K P e j seq now) (events d)\<rparr>)"

definition eff_invoice :: "postgres \<Rightarrow> invoice_paid_data \<Rightarrow> db \<Rightarrow> db" where
  "eff_invoice P dat d = d\<lparr>invoices := upsert inv_hash (invoice_ins P dat) (invoice_upd P dat) (invoices d)\<rparr>"

definition eff_match :: "postgres \<Rightarrow> invoice_paid_data \<Rightarrow> db \<Rightarrow> db" where
  "eff_match P dat d =
     (if 3 \<le> schema_version d
      then d\<lparr>merchant_orders := update_where (order_matches (ipd_PaymentHash dat))
             (mark_paid (bind_ts P (ipd_SettledAt dat))) (merchant_orders d)\<rparr>
      else d)"

definition eff_payment :: "postgres \<Rightarrow> payment_received_data \<Rightarrow> time \<Rightarrow> db \<Rightarrow> db" where
  "eff_payment P dat t d =
     d\<lparr>payments := upsert pay_hash (payment_ins P dat t) (payment_upd P dat t) (payments d)\<rparr>"

definition eff_channel :: "postgres \<Rightarrow> channel_opened_data \<Rightarrow> time \<Rightarrow> db \<Rightarrow> db" where
  "eff_channel P dat t d =
     d\<lparr>channels := upsert ch_id (channel_ins P dat t) (channel_upd P dat t) (channels d)\<rparr>"

definition eff_project :: "kevents \<Rightarrow> postgres \<Rightarrow> event \<Rightarrow> db \<Rightarrow> db" where
  "eff_project K P e d =
     (if e_Type e = InvoicePaid then
        (case unmarshal_InvoicePaid K (e_Data e) of Inl _ \<Rightarrow> d | Inr dat \<Rightarrow> eff_match P dat (eff_invoice P dat d))
      else if e_Type e = PaymentReceived then
        (case unmarshal_PaymentReceived K (e_Data e) of Inl _ \<Rightarrow> d | Inr dat \<Rightarrow> eff_payment P dat (e_CreatedAt e) d)
      else if e_Type e = ChannelOpened then
        (case unmarshal_ChannelOpened K (e_Data e) of Inl _ \<Rightarrow> d | Inr dat \<Rightarrow> eff_channel P dat (e_CreatedAt e) d)
      else d)"

text \<open>One pending delivery per active endpoint subscribed to the event's type.\<close>

definition fan_out ::
    "(byte list \<Rightarrow> string) \<Rightarrow> kevents \<Rightarrow> postgres \<Rightarrow> event \<Rightarrow> time \<Rightarrow> db \<Rightarrow> delivery_row list" where
  "fan_out ulid K P e now d =
     (case marshal_Event K e of
        Inl _ \<Rightarrow> []
      | Inr payload \<Rightarrow> (case to_jsonb P payload of
          None \<Rightarrow> []
        | Some j \<Rightarrow>
            if 2 \<le> schema_version d
            then map (\<lambda>ep. new_delivery (delivery_id ulid (e_ID e) (ep_id ep)) (ep_id ep) (e_ID e)
                             (ep_url ep) (ep_secret ep) j now)
                   (filter (endpoint_matches (e_Type e)) (webhook_endpoints d))
            else []))"

definition eff_deliver :: "(byte list \<Rightarrow> string) \<Rightarrow> kevents \<Rightarrow> postgres \<Rightarrow> event \<Rightarrow> time \<Rightarrow> db \<Rightarrow> db" where
  "eff_deliver ulid K P e now d =
     d\<lparr>webhook_deliveries := fold (insert_absent dl_id) (fan_out ulid K P e now d) (webhook_deliveries d)\<rparr>"

definition event_effect ::
    "(byte list \<Rightarrow> string) \<Rightarrow> kevents \<Rightarrow> postgres \<Rightarrow> int \<Rightarrow> event \<Rightarrow> time \<Rightarrow> db \<Rightarrow> db" where
  "event_effect ulid K P seq e now d =
     eff_deliver ulid K P e now (eff_project K P e (eff_event K P seq e now d))"

definition save_effect ::
    "(byte list \<Rightarrow> string) \<Rightarrow> kevents \<Rightarrow> postgres \<Rightarrow> event list \<Rightarrow> int \<Rightarrow> time \<Rightarrow> db \<Rightarrow> db" where
  "save_effect ulid K P es seq now d =
     (fold (\<lambda>e. event_effect ulid K P seq e now) es d)
       \<lparr>ingest_checkpoint := Some \<lparr>cp_last_seq = seq, cp_updated_at = now\<rparr>\<rparr>"

lemmas eff_defs = eff_event_def eff_invoice_def eff_match_def eff_payment_def eff_channel_def
  eff_project_def eff_deliver_def

section \<open>A successful step makes exactly its effect\<close>

lemma on_schema_InrD: "on_schema v q now d = Inr xd \<Longrightarrow> v \<le> schema_version d \<and> q now d = Inr xd"
  by (auto simp: on_schema_def split: if_splits)

lemmas tx_run_elims = prod.splits sum.splits if_splits

lemma match_does: "tx_does (matchMerchantOrder P dat) (\<lambda>_ d. ((), eff_match P dat d))"
  by (auto simp: tx_does_def matchMerchantOrder_def eff_match_def split: tx_run_elims
      dest!: tx_exec_InrD on_schema_InrD)

lemma project_does:
  "tx_does (projectPaymentReceived K P e) (\<lambda>_ d. ((),
     case unmarshal_PaymentReceived K (e_Data e) of Inl _ \<Rightarrow> d | Inr dat \<Rightarrow> eff_payment P dat (e_CreatedAt e) d))"
  "tx_does (projectChannelOpened K P e) (\<lambda>_ d. ((),
     case unmarshal_ChannelOpened K (e_Data e) of Inl _ \<Rightarrow> d | Inr dat \<Rightarrow> eff_channel P dat (e_CreatedAt e) d))"
  "tx_does (projectInvoicePaid K P e) (\<lambda>_ d. ((),
     case unmarshal_InvoicePaid K (e_Data e) of Inl _ \<Rightarrow> d | Inr dat \<Rightarrow> eff_match P dat (eff_invoice P dat d)))"
  by (auto simp: tx_does_def projectPaymentReceived_def projectChannelOpened_def projectInvoicePaid_def
      eff_payment_def eff_channel_def eff_invoice_def split: tx_run_elims
      dest!: tx_exec_InrD on_schema_InrD tx_doesD[OF match_does])

definition matching :: "string \<Rightarrow> db \<Rightarrow> endpoint_snapshot list" where
  "matching ty d =
     (if 2 \<le> schema_version d then map snapshot_of (filter (endpoint_matches ty) (webhook_endpoints d)) else [])"

lemma matchingEndpoints_does: "tx_does (matchingEndpoints ty) (\<lambda>_ d. (matching ty d, d))"
  by (auto simp: tx_does_def matchingEndpoints_def matching_def tx_query_def split: tx_run_elims
      dest!: tx_exec_InrD on_schema_InrD)

definition eff_enqueue :: "(byte list \<Rightarrow> string) \<Rightarrow> string \<Rightarrow> string \<Rightarrow> time \<Rightarrow> endpoint_snapshot \<Rightarrow> db \<Rightarrow> db" where
  "eff_enqueue ulid evid j now ep d =
     d\<lparr>webhook_deliveries := insert_absent dl_id
       (new_delivery (delivery_id ulid evid (es_id ep)) (es_id ep) evid (es_url ep) (es_secret ep) j now)
       (webhook_deliveries d)\<rparr>"

lemma fold_eff_enqueue:
  "fold (eff_enqueue ulid evid j now) eps d =
     d\<lparr>webhook_deliveries := fold (insert_absent dl_id)
       (map (\<lambda>ep. new_delivery (delivery_id ulid evid (es_id ep)) (es_id ep) evid (es_url ep) (es_secret ep) j now) eps)
       (webhook_deliveries d)\<rparr>"
  by (induction eps arbitrary: d) (simp_all add: eff_enqueue_def)

lemma enqueue_stmt_InrD:
  "enqueue_stmt P (delivery_id ulid evid (es_id ep)) ep evid payload now d = Inr (x, d') \<Longrightarrow>
   \<exists>j. to_jsonb P payload = Some j \<and> d' = eff_enqueue ulid evid j now ep d"
  by (auto simp: enqueue_stmt_def eff_enqueue_def Let_def dest!: on_schema_InrD
      split: option.splits if_splits)

lemma enqueue_loop_does:
  "tx_does (for_each (enqueueOne ulid P e payload) eps)
   (\<lambda>now d. ((), case to_jsonb P payload of None \<Rightarrow> d | Some j \<Rightarrow> fold (eff_enqueue ulid (e_ID e) j now) eps d))"
proof -
  have *: "(\<lambda>now d. ((), case to_jsonb P payload of None \<Rightarrow> d | Some j \<Rightarrow> fold (eff_enqueue ulid (e_ID e) j now) eps d)) =
    (\<lambda>now d. ((), fold (\<lambda>ep d. case to_jsonb P payload of None \<Rightarrow> d | Some j \<Rightarrow> eff_enqueue ulid (e_ID e) j now ep d) eps d))"
    by (cases "to_jsonb P payload") simp_all
  show ?thesis
    unfolding *
    by (rule tx_does_for_each)
       (auto simp: tx_does_def enqueueOne_def split: tx_run_elims dest!: tx_exec_InrD enqueue_stmt_InrD)
qed

lemma fan_out_matching:
  assumes "marshal_Event K e = Inr payload" and "to_jsonb P payload = Some j"
  shows "fan_out ulid K P e now d =
    map (\<lambda>ep. new_delivery (delivery_id ulid (e_ID e) (es_id ep)) (es_id ep) (e_ID e) (es_url ep) (es_secret ep) j now)
      (matching (e_Type e) d)"
  using assms by (simp add: fan_out_def matching_def snapshot_of_def comp_def)

lemma fan_out_no_match: "matching (e_Type e) d = [] \<Longrightarrow> fan_out ulid K P e now d = []"
  by (auto simp: fan_out_def matching_def split: sum.splits option.splits if_splits)

lemma enqueueDeliveries_does:
  "tx_does (enqueueDeliveries ulid K P e) (\<lambda>now d. ((), eff_deliver ulid K P e now d))"
  by (auto simp: tx_does_def enqueueDeliveries_def eff_deliver_def fold_eff_enqueue fan_out_def
      matching_def snapshot_of_def comp_def split: tx_run_elims option.splits
      dest!: tx_doesD[OF matchingEndpoints_does] tx_doesD[OF enqueue_loop_does])

lemma applyEvent_does:
  "tx_does (applyEvent ulid K P seq e) (\<lambda>now d. ((), event_effect ulid K P seq e now d))"
  by (auto simp: tx_does_def applyEvent_def event_effect_def eff_project_def eff_event_def insert_event_stmt_def
      split: tx_run_elims option.splits
      dest!: tx_exec_InrD on_schema_InrD tx_doesD[OF project_does(1)] tx_doesD[OF project_does(2)]
        tx_doesD[OF project_does(3)] tx_doesD[OF enqueueDeliveries_does])

lemma save_body_does:
  assumes "run_state (save_body ulid K P es seq) w = (Tx_ok, w')"
  shows "database w' = save_effect ulid K P es seq (clock w) (database w)"
proof -
  have loop: "tx_does (for_each (applyEvent ulid K P seq) es)
      (\<lambda>now d. ((), fold (\<lambda>e. event_effect ulid K P seq e now) es d))"
    by (rule tx_does_for_each) (rule applyEvent_does)
  from assms show ?thesis
    by (auto simp: save_body_def save_effect_def save_checkpoint_stmt_def split: tx_run_elims
        dest!: tx_exec_InrD on_schema_InrD tx_doesD[OF loop])
qed

text \<open>The body of \<open>Save\<close> never panics.\<close>

lemma save_body_no_panic: "run_state (save_body ulid K P es seq) w \<noteq> (Tx_panic s, w')"
  by (auto simp: save_body_def split: tx_run_elims)

lemma Save_cases:
  assumes "run_state (Save ulid K P p seq) w = ((r, p'), w')"
  shows "p' = p\<lparr>buf := []\<rparr> \<and>
    ((r \<noteq> Committed \<and> database w' = seen_db w) \<or>
     (database w' = save_effect ulid K P (buf p) seq (clock w) (seen_db w) \<and> (r = Committed \<or> (\<exists>e. r = Failed e))))"
proof -
  from assms have p': "p' = p\<lparr>buf := []\<rparr>"
    and tx: "run_state (InTx (save_body ulid K P (buf p) seq)) w = (r, w')"
    by (auto simp: Save_def split: prod.splits)
  from InTx_atomic[OF tx] p' show ?thesis
    by (auto dest: save_body_does)
qed

section \<open>On a quiet world the projector succeeds\<close>

text \<open>
  An event the projector can store: its data is JSON, the payload of its type decodes, and the event
  itself marshals to JSON.
\<close>

definition event_wf :: "kevents \<Rightarrow> postgres \<Rightarrow> event \<Rightarrow> bool" where
  "event_wf K P e \<longleftrightarrow>
     to_jsonb P (e_Data e) \<noteq> None \<and>
     (e_Type e = InvoicePaid \<longrightarrow> \<not> isl (unmarshal_InvoicePaid K (e_Data e))) \<and>
     (e_Type e = PaymentReceived \<longrightarrow> \<not> isl (unmarshal_PaymentReceived K (e_Data e))) \<and>
     (e_Type e = ChannelOpened \<longrightarrow> \<not> isl (unmarshal_ChannelOpened K (e_Data e))) \<and>
     (case marshal_Event K e of Inl _ \<Rightarrow> False | Inr payload \<Rightarrow> to_jsonb P payload \<noteq> None)"

lemma schema_version_effects [simp]:
  "schema_version (eff_event K P seq e now d) = schema_version d"
  "schema_version (eff_project K P e d) = schema_version d"
  "schema_version (eff_deliver ulid K P e now d) = schema_version d"
  "schema_version (event_effect ulid K P seq e now d) = schema_version d"
  by (simp_all add: event_effect_def eff_defs split: option.splits sum.splits)

lemma webhook_endpoints_effects [simp]:
  "webhook_endpoints (eff_event K P seq e now d) = webhook_endpoints d"
  "webhook_endpoints (eff_project K P e d) = webhook_endpoints d"
  "webhook_endpoints (eff_deliver ulid K P e now d) = webhook_endpoints d"
  "webhook_endpoints (event_effect ulid K P seq e now d) = webhook_endpoints d"
  by (simp_all add: event_effect_def eff_defs split: option.splits sum.splits)

lemma run_project:
  assumes "quiet w" and "event_wf K P e" and "1 \<le> schema_version (database w)"
  shows "run_state (if e_Type e = InvoicePaid then projectInvoicePaid K P e
               else if e_Type e = PaymentReceived then projectPaymentReceived K P e
               else if e_Type e = ChannelOpened then projectChannelOpened K P e
               else ok ()) w = (Inr (), w\<lparr>database := eff_project K P e (database w)\<rparr>)"
  using assms
  by (auto simp: projectInvoicePaid_def projectPaymentReceived_def projectChannelOpened_def io_simps
      matchMerchantOrder_def eff_project_def eff_match_def eff_invoice_def eff_payment_def eff_channel_def
      on_schema_def event_wf_def split: sum.splits)

lemma run_enqueue:
  assumes "quiet w" and "event_wf K P e" and "e_ID e \<in> ev_id ` set (events (database w))"
  shows "run_state (enqueueDeliveries ulid K P e) w =
    (Inr (), w\<lparr>database := eff_deliver ulid K P e (clock w) (database w)\<rparr>)"
proof -
  let ?d = "database w" and ?eps = "matching (e_Type e) (database w)"
  from assms(2) obtain payload j where pj: "marshal_Event K e = Inr payload" "to_jsonb P payload = Some j"
    by (auto simp: event_wf_def split: sum.splits)
  have m: "run_state (matchingEndpoints (e_Type e)) w = (Inr ?eps, w)"
    using assms(1) by (auto simp: matchingEndpoints_def matching_def io_simps on_schema_def)
  have loop: "run_state (for_each (enqueueOne ulid P e payload) ?eps) (w\<lparr>database := ?d\<rparr>) =
      (Inr (), w\<lparr>database := fold (eff_enqueue ulid (e_ID e) j (clock w)) ?eps ?d\<rparr>)"
  proof (rule run_for_each[where I = "\<lambda>d. schema_version d = schema_version ?d \<and>
        webhook_endpoints d = webhook_endpoints ?d \<and> events d = events ?d"])
    fix ep :: endpoint_snapshot and d :: db
    assume ep: "ep \<in> set ?eps" and d: "schema_version d = schema_version ?d \<and>
        webhook_endpoints d = webhook_endpoints ?d \<and> events d = events ?d"
    from ep have "2 \<le> schema_version ?d" and "es_id ep \<in> ep_id ` set (webhook_endpoints ?d)"
      by (auto simp: matching_def snapshot_of_def split: if_splits)
    with d pj(2) assms(1,3) show "run_state (enqueueOne ulid P e payload ep) (w\<lparr>database := d\<rparr>) =
        (Inr (), w\<lparr>database := eff_enqueue ulid (e_ID e) j (clock w) ep d\<rparr>)"
      by (simp add: enqueueOne_def io_simps enqueue_stmt_def on_schema_def delivery_refs_ok_def
          new_delivery_def eff_enqueue_def)
  qed (use assms(1) in \<open>simp_all add: eff_enqueue_def\<close>)
  show ?thesis
  proof (cases "?eps = []")
    case True
    with m show ?thesis
      by (simp add: enqueueDeliveries_def eff_deliver_def fan_out_no_match)
  next
    case False
    with m loop pj show ?thesis
      by (simp add: enqueueDeliveries_def eff_deliver_def fan_out_matching fold_eff_enqueue)
  qed
qed

lemma run_applyEvent:
  assumes "quiet w" and "event_wf K P e" and "1 \<le> schema_version (database w)"
  shows "run_state (applyEvent ulid K P seq e) w =
    (Inr (), w\<lparr>database := event_effect ulid K P seq e (clock w) (database w)\<rparr>)"
proof -
  from assms(2) obtain j where j: "to_jsonb P (e_Data e) = Some j" by (auto simp: event_wf_def)
  let ?d1 = "eff_event K P seq e (clock w) (database w)" and ?w1 = "w\<lparr>database :=
    eff_event K P seq e (clock w) (database w)\<rparr>"
  have ins: "run_state (tx_exec (insert_event_stmt K P e seq)) w = (Inr (), ?w1)"
    using assms j by (simp add: io_simps insert_event_stmt_def on_schema_def eff_event_def)
  have "e_ID e \<in> ev_id ` set (events ?d1)"
    using j insert_absent_has_key[of ev_id "event_ins K P e j seq (clock w)" "events (database w)"]
    by (simp add: eff_event_def event_ins_def)
  then have ev: "e_ID e \<in> ev_id ` set (events (eff_project K P e ?d1))"
    by (simp add: eff_project_def eff_match_def eff_invoice_def eff_payment_def eff_channel_def split: sum.splits)
  from assms ins run_project[of ?w1 K P e] run_enqueue[of "?w1\<lparr>database := eff_project K P e ?d1\<rparr>" K P e ulid]
  show ?thesis using ev by (simp add: applyEvent_def event_effect_def)
qed

lemma schema_version_fold [simp]:
  "schema_version (fold (\<lambda>e. event_effect ulid K P seq e now) es d) = schema_version d"
  by (induction es arbitrary: d) simp_all

lemma save_effect_runs:
  assumes "quiet w" and "\<forall>e \<in> set es. event_wf K P e" and "1 \<le> schema_version (database w)"
  shows "run_state (save_body ulid K P es seq) w =
    (Tx_ok, w\<lparr>database := save_effect ulid K P es seq (clock w) (database w)\<rparr>)"
proof -
  have "run_state (for_each (applyEvent ulid K P seq) es) (w\<lparr>database := database w\<rparr>) =
      (Inr (), w\<lparr>database := fold (\<lambda>e. event_effect ulid K P seq e (clock w)) es (database w)\<rparr>)"
    using assms
    by (intro run_for_each[where I = "\<lambda>d. 1 \<le> schema_version d"])
       (simp_all add: run_applyEvent)
  then show ?thesis
    using assms by (simp add: save_body_def io_simps save_checkpoint_stmt_def on_schema_def save_effect_def)
qed

lemma run_Save:
  assumes "quiet w" and "\<forall>e \<in> set (buf p). event_wf K P e" and "1 \<le> schema_version (database w)"
  shows "run_state (Save ulid K P p seq) w =
    ((Committed, p\<lparr>buf := []\<rparr>), w\<lparr>database := save_effect ulid K P (buf p) seq (clock w) (database w)\<rparr>)"
  using run_InTx_commit[OF assms(1) save_effect_runs[OF assms]] assms(1) by (simp add: Save_def)

section \<open>Tables after a batch of changes\<close>

text \<open>A change as the runner delivers it, stamped with the time its transaction runs at.\<close>

type_synonym change = "event list \<times> int \<times> time"

definition changes_effect ::
    "(byte list \<Rightarrow> string) \<Rightarrow> kevents \<Rightarrow> postgres \<Rightarrow> change list \<Rightarrow> db \<Rightarrow> db" where
  "changes_effect ulid K P cs d = fold (\<lambda>(es, seq, now). save_effect ulid K P es seq now) cs d"

text \<open>The decoded payloads of the projected event types, in stream order.\<close>

definition invoice_data :: "kevents \<Rightarrow> event \<Rightarrow> invoice_paid_data list" where
  "invoice_data K e = (if e_Type e = InvoicePaid
     then (case unmarshal_InvoicePaid K (e_Data e) of Inl _ \<Rightarrow> [] | Inr dat \<Rightarrow> [dat]) else [])"

definition payment_data :: "kevents \<Rightarrow> event \<Rightarrow> (payment_received_data \<times> time) list" where
  "payment_data K e = (if e_Type e = PaymentReceived
     then (case unmarshal_PaymentReceived K (e_Data e) of Inl _ \<Rightarrow> [] | Inr dat \<Rightarrow> [(dat, e_CreatedAt e)]) else [])"

definition channel_data :: "kevents \<Rightarrow> event \<Rightarrow> (channel_opened_data \<times> time) list" where
  "channel_data K e = (if e_Type e = ChannelOpened
     then (case unmarshal_ChannelOpened K (e_Data e) of Inl _ \<Rightarrow> [] | Inr dat \<Rightarrow> [(dat, e_CreatedAt e)]) else [])"

definition event_data :: "kevents \<Rightarrow> postgres \<Rightarrow> int \<Rightarrow> time \<Rightarrow> event \<Rightarrow> event_row list" where
  "event_data K P seq now e = (case to_jsonb P (e_Data e) of None \<Rightarrow> [] | Some j \<Rightarrow> [event_ins K P e j seq now])"

definition change_events :: "change list \<Rightarrow> event list" where
  "change_events cs = concat (map fst cs)"

abbreviation "inv_apply P \<equiv> apply_upserts inv_hash (invoice_ins P) (invoice_upd P)"
abbreviation "pay_apply P \<equiv> apply_upserts pay_hash (\<lambda>(dat, t). payment_ins P dat t) (\<lambda>(dat, t). payment_upd P dat t)"
abbreviation "chan_apply P \<equiv> apply_upserts ch_id (\<lambda>(dat, t). channel_ins P dat t) (\<lambda>(dat, t). channel_upd P dat t)"

definition match_orders :: "postgres \<Rightarrow> invoice_paid_data list \<Rightarrow> order_row list \<Rightarrow> order_row list" where
  "match_orders P dats t = fold (\<lambda>dat. update_where (order_matches (ipd_PaymentHash dat))
     (mark_paid (bind_ts P (ipd_SettledAt dat)))) dats t"

lemma event_types_distinct [simp]:
  "InvoicePaid \<noteq> PaymentReceived" "PaymentReceived \<noteq> InvoicePaid" "InvoicePaid \<noteq> ChannelOpened"
  "ChannelOpened \<noteq> InvoicePaid" "PaymentReceived \<noteq> ChannelOpened" "ChannelOpened \<noteq> PaymentReceived"
  by (simp_all add: event_types)

text \<open>The tables the projection of events never writes.\<close>

definition untouched :: "db \<Rightarrow> nat \<times> checkpoint_row option \<times> endpoint_row list \<times> delivery_log_row list \<times>
    merchant_row list \<times> refund_row list \<times> settlement_row list \<times> reconciliation_row list" where
  "untouched d = (schema_version d, ingest_checkpoint d, webhook_endpoints d, webhook_delivery_log d,
     merchants d, refunds d, settlements d, reconciliation_runs d)"

lemma event_effect_tables:
  assumes d'_def: "d' = event_effect ulid K P seq e now d"
  shows "events d' = fold (insert_absent ev_id) (event_data K P seq now e) (events d)"
    and "invoices d' = inv_apply P (invoice_data K e) (invoices d)"
    and "payments d' = pay_apply P (payment_data K e) (payments d)"
    and "channels d' = chan_apply P (channel_data K e) (channels d)"
    and "merchant_orders d' = (if 3 \<le> schema_version d
           then match_orders P (invoice_data K e) (merchant_orders d) else merchant_orders d)"
    and "webhook_deliveries d' =
           fold (insert_absent dl_id) (fan_out ulid K P e now d) (webhook_deliveries d)"
    and "untouched d' = untouched d"
proof -
  have fan: "fan_out ulid K P e now (eff_project K P e (eff_event K P seq e now d)) = fan_out ulid K P e now d"
    by (simp add: fan_out_def split: sum.split option.split)
  note defs = d'_def event_effect_def eff_deliver_def eff_project_def eff_event_def eff_match_def
    eff_invoice_def eff_payment_def eff_channel_def
  show "events d' = fold (insert_absent ev_id) (event_data K P seq now e) (events d)"
    by (simp add: defs event_data_def split: option.splits sum.splits)
  show "invoices d' = inv_apply P (invoice_data K e) (invoices d)"
    by (simp add: defs invoice_data_def split: option.splits sum.splits)
  show "payments d' = pay_apply P (payment_data K e) (payments d)"
    by (simp add: defs payment_data_def split: option.splits sum.splits)
  show "channels d' = chan_apply P (channel_data K e) (channels d)"
    by (simp add: defs channel_data_def split: option.splits sum.splits)
  show "merchant_orders d' = (if 3 \<le> schema_version d
      then match_orders P (invoice_data K e) (merchant_orders d) else merchant_orders d)"
    by (simp add: defs invoice_data_def match_orders_def split: option.splits sum.splits)
  show "webhook_deliveries d' = fold (insert_absent dl_id) (fan_out ulid K P e now d) (webhook_deliveries d)"
    unfolding d'_def event_effect_def eff_deliver_def fan
    by (simp add: eff_project_def eff_event_def eff_match_def eff_invoice_def eff_payment_def
        eff_channel_def split: option.splits sum.splits)
  show "untouched d' = untouched d"
    by (simp add: defs untouched_def split: option.splits sum.splits)
qed

text \<open>The same for a whole batch: the effects on the tables do not depend on each other.\<close>

lemma apply_upserts_append:
  "apply_upserts key ins upd (es @ fs) t = apply_upserts key ins upd fs (apply_upserts key ins upd es t)"
  by (simp add: apply_upserts_def)

lemma match_orders_append: "match_orders P (xs @ ys) t = match_orders P ys (match_orders P xs t)"
  by (simp add: match_orders_def)

lemma fan_out_cong:
  "webhook_endpoints d' = webhook_endpoints d \<Longrightarrow> schema_version d' = schema_version d \<Longrightarrow>
   fan_out ulid K P e now d' = fan_out ulid K P e now d"
  by (simp add: fan_out_def split: sum.split option.split)

lemma webhook_endpoints_fold [simp]:
  "webhook_endpoints (fold (\<lambda>e. event_effect ulid K P seq e now) es d) = webhook_endpoints d"
  by (induction es arbitrary: d) simp_all

lemma events_effect_tables:
  assumes "d' = fold (\<lambda>e. event_effect ulid K P seq e now) es d"
  shows "events d' = fold (insert_absent ev_id) (concat (map (event_data K P seq now) es)) (events d)"
    and "invoices d' = inv_apply P (concat (map (invoice_data K) es)) (invoices d)"
    and "payments d' = pay_apply P (concat (map (payment_data K) es)) (payments d)"
    and "channels d' = chan_apply P (concat (map (channel_data K) es)) (channels d)"
    and "merchant_orders d' = (if 3 \<le> schema_version d
           then match_orders P (concat (map (invoice_data K) es)) (merchant_orders d) else merchant_orders d)"
    and "webhook_deliveries d' =
           fold (insert_absent dl_id) (concat (map (\<lambda>e. fan_out ulid K P e now d) es)) (webhook_deliveries d)"
    and "untouched d' = untouched d"
  unfolding assms
proof (induction es arbitrary: d)
  case Nil
  { case 1 show ?case by simp
  next case 2 show ?case by simp
  next case 3 show ?case by simp
  next case 4 show ?case by simp
  next case 5 show ?case by (simp add: match_orders_def)
  next case 6 show ?case by simp
  next case 7 show ?case by simp }
next
  case (Cons e es)
  note one = event_effect_tables[OF refl]
  have fan: "fan_out ulid K P x now (event_effect ulid K P seq e now d) = fan_out ulid K P x now d" for x d
    by (rule fan_out_cong) simp_all
  { case 1 show ?case by (simp add: Cons.IH(1) one(1))
  next case 2 show ?case by (simp add: Cons.IH(2) one(2) apply_upserts_append)
  next case 3 show ?case by (simp add: Cons.IH(3) one(3) apply_upserts_append)
  next case 4 show ?case by (simp add: Cons.IH(4) one(4) apply_upserts_append)
  next case 5 show ?case by (simp add: Cons.IH(5) one(5) match_orders_append)
  next case 6 show ?case by (simp add: Cons.IH(6) one(6) fan)
  next case 7 show ?case by (simp add: Cons.IH(7) one(7)) }
qed

end
