(* ===== verification/Replay.thy ===== *)
theory Replay
  imports Projection
begin

text \<open>
  At-least-once ingestion. The runner of the library hands the projector one raw change after
  another: it calls \<open>Handle\<close> for every event of the change and then \<open>Save\<close> with its sequence number
  (\<^verbatim>\<open>projector.go\<close>, package comment). \<open>feed\<close> is this protocol. After a crash, or a lost acknowledgement
  of a commit, changes are fed again; the theorems here show that a second feed of the same changes
  leaves every table as the first one left it.
\<close>

section \<open>The protocol of the runner\<close>

definition feed_change ::
    "(byte list \<Rightarrow> string) \<Rightarrow> kevents \<Rightarrow> postgres \<Rightarrow> projector \<Rightarrow> change \<Rightarrow> (world, tx_result \<times> projector) state" where
  "feed_change ulid K P p c = do {
     State (\<lambda>w. ((), w\<lparr>clock := snd (snd c)\<rparr>));
     Save ulid K P (fold (\<lambda>e p. Handle p e) (fst c) p) (fst (snd c)) }"

fun feed ::
    "(byte list \<Rightarrow> string) \<Rightarrow> kevents \<Rightarrow> postgres \<Rightarrow> projector \<Rightarrow> change list \<Rightarrow> (world, tx_result \<times> projector) state" where
  "feed ulid K P p [] = State_Monad.return (Committed, p)"
| "feed ulid K P p (c # cs) = do {
     (r, p') \<leftarrow> feed_change ulid K P p c;
     if r = Committed then feed ulid K P p' cs else State_Monad.return (r, p') }"

lemma buf_fold_Handle: "buf (fold (\<lambda>e p. Handle p e) es p) = buf p @ es"
  by (induction es arbitrary: p) (simp_all add: Handle_def)

lemma fold_Handle_clear: "(fold (\<lambda>e p. Handle p e) es p)\<lparr>buf := []\<rparr> = p\<lparr>buf := []\<rparr>"
  by (induction es arbitrary: p) (simp_all add: Handle_def)

lemma schema_version_save [simp]: "schema_version (save_effect ulid K P es seq now d) = schema_version d"
  by (simp add: save_effect_def)

lemma changes_effect_simps [simp]:
  "changes_effect ulid K P [] d = d"
  "changes_effect ulid K P ((es, seq, now) # cs) d =
     changes_effect ulid K P cs (save_effect ulid K P es seq now d)"
  by (simp_all add: changes_effect_def)

text \<open>On a quiet world the whole feed commits, and the tables are those of the abstract effect.\<close>

lemma run_feed:
  assumes "quiet w" and "\<forall>e \<in> set (change_events cs). event_wf K P e"
    and "1 \<le> schema_version (database w)" and "buf p = []"
  shows "\<exists>w'. run_state (feed ulid K P p cs) w = ((Committed, p), w') \<and> quiet w' \<and>
    database w' = changes_effect ulid K P cs (database w)"
  using assms
proof (induction cs arbitrary: w)
  case Nil
  then show ?case by simp
next
  case (Cons c cs)
  obtain es seq t where c: "c = (es, seq, t)" by (cases c)
  let ?w = "w\<lparr>clock := t, database := save_effect ulid K P es seq t (database w)\<rparr>"
  have "run_state (feed_change ulid K P p c) w = ((Committed, p), ?w)"
    using Cons.prems run_Save[of "w\<lparr>clock := t\<rparr>" "fold (\<lambda>e p. Handle p e) es p" K P ulid seq]
    by (simp add: feed_change_def c buf_fold_Handle fold_Handle_clear change_events_def)
  moreover have "\<exists>w'. run_state (feed ulid K P p cs) ?w = ((Committed, p), w') \<and> quiet w' \<and>
      database w' = changes_effect ulid K P cs (database ?w)"
    using Cons.prems by (intro Cons.IH) (simp_all add: change_events_def)
  ultimately show ?case by (auto simp: c)
qed

section \<open>The tables after a feed\<close>

definition event_ids :: "postgres \<Rightarrow> event \<Rightarrow> string list" where
  "event_ids P e = (if to_jsonb P (e_Data e) = None then [] else [e_ID e])"

definition change_event_rows :: "kevents \<Rightarrow> postgres \<Rightarrow> change list \<Rightarrow> event_row list" where
  "change_event_rows K P cs = concat (map (\<lambda>(es, seq, now). concat (map (event_data K P seq now) es)) cs)"

definition change_deliveries ::
    "(byte list \<Rightarrow> string) \<Rightarrow> kevents \<Rightarrow> postgres \<Rightarrow> change list \<Rightarrow> db \<Rightarrow> delivery_row list" where
  "change_deliveries ulid K P cs d =
     concat (map (\<lambda>(es, seq, now). concat (map (\<lambda>e. fan_out ulid K P e now d) es)) cs)"

lemma map_ev_id_rows: "map ev_id (change_event_rows K P cs) = concat (map (event_ids P) (change_events cs))"
proof -
  have "map ev_id (event_data K P seq now e) = event_ids P e" for seq now e
    by (simp add: event_data_def event_ids_def event_ins_def split: option.splits)
  then show ?thesis
    by (induction cs) (auto simp: change_event_rows_def change_events_def map_concat comp_def)
qed

lemma map_dl_id_fan_out: "map dl_id (fan_out ulid K P e now d) = map dl_id (fan_out ulid K P e now' d)"
  by (simp add: fan_out_def new_delivery_def comp_def split: sum.split option.split)

lemma map_dl_id_rows:
  "map dl_id (change_deliveries ulid K P cs d) =
   concat (map (\<lambda>e. map dl_id (fan_out ulid K P e now d)) (change_events cs))"
proof (induction cs)
  case Nil
  then show ?case by (simp add: change_deliveries_def change_events_def)
next
  case (Cons c cs)
  obtain es seq t where c: "c = (es, seq, t)" by (cases c)
  have "concat (map (\<lambda>e. map dl_id (fan_out ulid K P e t d)) es) =
      concat (map (\<lambda>e. map dl_id (fan_out ulid K P e now d)) es)"
    by (rule arg_cong[where f = concat], rule map_cong[OF refl]) (rule map_dl_id_fan_out)
  with Cons c show ?case by (simp add: change_deliveries_def change_events_def map_concat comp_def)
qed

definition untouched' :: "db \<Rightarrow> nat \<times> endpoint_row list \<times> delivery_log_row list \<times>
    merchant_row list \<times> refund_row list \<times> settlement_row list \<times> reconciliation_row list" where
  "untouched' d = (schema_version d, webhook_endpoints d, webhook_delivery_log d,
     merchants d, refunds d, settlements d, reconciliation_runs d)"

lemma untouched'_untouched: "untouched d = untouched d' \<Longrightarrow> untouched' d = untouched' d'"
  by (simp add: untouched_def untouched'_def)

lemma save_effect_tables:
  fixes d :: db
  assumes "d' = save_effect ulid K P es seq now d"
  shows "events d' = fold (insert_absent ev_id) (concat (map (event_data K P seq now) es)) (events d)"
    and "invoices d' = inv_apply P (concat (map (invoice_data K) es)) (invoices d)"
    and "payments d' = pay_apply P (concat (map (payment_data K) es)) (payments d)"
    and "channels d' = chan_apply P (concat (map (channel_data K) es)) (channels d)"
    and "merchant_orders d' = (if 3 \<le> schema_version d
           then match_orders P (concat (map (invoice_data K) es)) (merchant_orders d) else merchant_orders d)"
    and "webhook_deliveries d' =
           fold (insert_absent dl_id) (concat (map (\<lambda>e. fan_out ulid K P e now d) es)) (webhook_deliveries d)"
    and "untouched' d' = untouched' d"
  using events_effect_tables[OF refl, of ulid K P seq now es d]
  by (simp_all add: assms save_effect_def untouched_def untouched'_def)

lemma changes_effect_tables:
  assumes "d' = changes_effect ulid K P cs d"
  shows "events d' = fold (insert_absent ev_id) (change_event_rows K P cs) (events d)"
    and "invoices d' = inv_apply P (concat (map (invoice_data K) (change_events cs))) (invoices d)"
    and "payments d' = pay_apply P (concat (map (payment_data K) (change_events cs))) (payments d)"
    and "channels d' = chan_apply P (concat (map (channel_data K) (change_events cs))) (channels d)"
    and "merchant_orders d' = (if 3 \<le> schema_version d
           then match_orders P (concat (map (invoice_data K) (change_events cs))) (merchant_orders d)
           else merchant_orders d)"
    and "webhook_deliveries d' = fold (insert_absent dl_id) (change_deliveries ulid K P cs d) (webhook_deliveries d)"
    and "untouched' d' = untouched' d"
    and "map_option cp_last_seq (ingest_checkpoint d') =
      (if cs = [] then map_option cp_last_seq (ingest_checkpoint d) else Some (fst (snd (last cs))))"
  unfolding assms
proof (induction cs arbitrary: d)
  case Nil
  { case 1 show ?case by (simp add: change_event_rows_def)
  next case 2 show ?case by (simp add: change_events_def)
  next case 3 show ?case by (simp add: change_events_def)
  next case 4 show ?case by (simp add: change_events_def)
  next case 5 show ?case by (simp add: change_events_def match_orders_def)
  next case 6 show ?case by (simp add: change_deliveries_def)
  next case 7 show ?case by simp
  next case 8 show ?case by simp }
next
  case (Cons c cs)
  obtain es seq t where c: "c = (es, seq, t)" by (cases c)
  note one = save_effect_tables[OF refl]
  have fan: "fan_out ulid K P x n (save_effect ulid K P es seq t d) = fan_out ulid K P x n d" for x n d
    by (rule fan_out_cong) (simp_all add: save_effect_def)
  then have dels: "change_deliveries ulid K P cs (save_effect ulid K P es seq t d) = change_deliveries ulid K P cs d" for d
    by (simp add: change_deliveries_def)
  { case 1 show ?case by (simp add: c Cons.IH(1) one(1) change_event_rows_def)
  next case 2 show ?case by (simp add: c Cons.IH(2) one(2) change_events_def apply_upserts_append)
  next case 3 show ?case by (simp add: c Cons.IH(3) one(3) change_events_def apply_upserts_append)
  next case 4 show ?case by (simp add: c Cons.IH(4) one(4) change_events_def apply_upserts_append)
  next case 5 show ?case by (simp add: c Cons.IH(5) one(5) change_events_def match_orders_append)
  next case 6 show ?case by (simp add: c Cons.IH(6) one(6) dels) (simp add: change_deliveries_def)
  next case 7 show ?case by (simp add: c Cons.IH(7) one(7))
  next case 8 show ?case by (simp add: c Cons.IH(8)) (simp add: save_effect_def) }
qed

section \<open>The projections meet the replay contract\<close>

text \<open>
  Payments and channels overwrite every column they set, so the last event of a key wins. Invoices
  keep the first known asset and amount (\<open>COALESCE(invoices.asset, EXCLUDED.asset)\<close>), which still
  settles after one pass.
\<close>

interpretation pay: last_writer_upsert pay_hash "\<lambda>(dat, t). prd_PaymentHash dat"
    "\<lambda>(dat, t). payment_ins P dat t" "\<lambda>(dat, t). payment_upd P dat t" for P
  by unfold_locales (auto simp: payment_ins_def payment_upd_def split: prod.splits)

interpretation chan: last_writer_upsert ch_id "\<lambda>(dat, t). cod_ChannelID dat"
    "\<lambda>(dat, t). channel_ins P dat t" "\<lambda>(dat, t). channel_upd P dat t" for P
  by unfold_locales (auto simp: channel_ins_def channel_upd_def split: prod.splits)

lemma fold_coalesce2_Some: "fold (\<lambda>e a. coalesce2 a (f e)) es (Some v) = Some v"
  by (induction es) simp_all

lemma fold_coalesce2_replay:
  "fold (\<lambda>e a. coalesce2 a (f e)) es (fold (\<lambda>e a. coalesce2 a (f e)) es a) =
   fold (\<lambda>e a. coalesce2 a (f e)) es a"
proof (cases "fold (\<lambda>e a. coalesce2 a (f e)) es a")
  case (Some v)
  then show ?thesis by (simp add: fold_coalesce2_Some)
next
  case None
  then have "a = None" by (cases a) (simp_all add: fold_coalesce2_Some)
  with None show ?thesis by simp
qed

lemma fold_invoice_upd:
  "fold (invoice_upd P) es r =
     (if es = [] then r
      else r\<lparr>inv_status := Some ''paid'',
             inv_settled_at := Some (bind_ts P (ipd_SettledAt (last es))),
             inv_asset := fold (\<lambda>e a. coalesce2 a (nullText (ipd_Asset e))) es (inv_asset r),
             inv_amount := fold (\<lambda>e a. coalesce2 a (numeric_arg (ipd_Amount e))) es (inv_amount r)\<rparr>)"
  by (induction es arbitrary: r) (auto simp: invoice_upd_def invoice_ins_def)

interpretation invc: replayable_upsert inv_hash ipd_PaymentHash "invoice_ins P" "invoice_upd P" for P
proof unfold_locales
  show "fold (invoice_upd P) es (fold (invoice_upd P) es r) = fold (invoice_upd P) es r" for es r
    using fold_coalesce2_replay[of "\<lambda>e. nullText (ipd_Asset e)" es "inv_asset r"]
      fold_coalesce2_replay[of "\<lambda>e. numeric_arg (ipd_Amount e)" es "inv_amount r"]
    by (simp add: fold_invoice_upd del: numeric_arg_simp)
qed (simp_all add: invoice_ins_def invoice_upd_def)

text \<open>An order is matched at most once: after a pass no order of a paid hash is pending.\<close>

definition match_order :: "postgres \<Rightarrow> invoice_paid_data list \<Rightarrow> order_row \<Rightarrow> order_row" where
  "match_order P dats ord = fold (\<lambda>dat ord. if order_matches (ipd_PaymentHash dat) ord
     then mark_paid (bind_ts P (ipd_SettledAt dat)) ord else ord) dats ord"

lemma match_orders_map: "match_orders P dats t = map (match_order P dats) t"
proof (induction dats arbitrary: t)
  case Nil
  then show ?case by (simp add: match_orders_def match_order_def)
next
  case (Cons dat dats)
  then show ?case by (simp add: match_orders_def match_order_def update_where_def)
qed

lemma match_order_not_pending: "o_status ord \<noteq> ''pending'' \<Longrightarrow> match_order P dats ord = ord"
  by (induction dats) (simp_all add: match_order_def order_matches_def)

lemma match_order_eq:
  "match_order P dats ord =
     (case find (\<lambda>dat. order_matches (ipd_PaymentHash dat) ord) dats of
        None \<Rightarrow> ord | Some dat \<Rightarrow> mark_paid (bind_ts P (ipd_SettledAt dat)) ord)"
proof (induction dats)
  case Nil
  then show ?case by (simp add: match_order_def)
next
  case (Cons dat dats)
  have "match_order P dats (mark_paid t ord) = mark_paid t ord" for t
    by (rule match_order_not_pending) (simp add: mark_paid_def)
  with Cons show ?case by (simp add: match_order_def)
qed

lemma match_order_replay: "match_order P dats (match_order P dats ord) = match_order P dats ord"
proof (cases "find (\<lambda>dat. order_matches (ipd_PaymentHash dat) ord) dats")
  case None
  then show ?thesis by (simp add: match_order_eq)
next
  case (Some dat)
  then have "match_order P dats ord = mark_paid (bind_ts P (ipd_SettledAt dat)) ord"
    by (simp add: match_order_eq)
  then show ?thesis by (simp add: match_order_not_pending mark_paid_def)
qed

lemma match_orders_replay: "match_orders P dats (match_orders P dats t) = match_orders P dats t"
  by (simp add: match_orders_map match_order_replay)

section \<open>Replaying a feed\<close>

text \<open>The same changes, possibly stamped with other times.\<close>

definition same_changes :: "change list \<Rightarrow> change list \<Rightarrow> bool" where
  "same_changes cs cs' \<longleftrightarrow> map (\<lambda>(es, seq, _). (es, seq)) cs = map (\<lambda>(es, seq, _). (es, seq)) cs'"

text \<open>The database without the time of the last checkpoint write, which every save refreshes.\<close>

definition forget_saved_at :: "db \<Rightarrow> db" where
  "forget_saved_at d = d\<lparr>ingest_checkpoint := map_option (\<lambda>c. c\<lparr>cp_updated_at := 0\<rparr>) (ingest_checkpoint d)\<rparr>"

lemma forget_saved_at_eqI:
  assumes "untouched' d = untouched' d'" and "events d = events d'" and "invoices d = invoices d'"
    and "payments d = payments d'" and "channels d = channels d'"
    and "merchant_orders d = merchant_orders d'" and "webhook_deliveries d = webhook_deliveries d'"
    and "map_option cp_last_seq (ingest_checkpoint d) = map_option cp_last_seq (ingest_checkpoint d')"
  shows "forget_saved_at d = forget_saved_at d'"
proof -
  have "map_option (\<lambda>c. c\<lparr>cp_updated_at := 0\<rparr>) (ingest_checkpoint d) =
      map_option (\<lambda>c. c\<lparr>cp_updated_at := 0\<rparr>) (ingest_checkpoint d')"
    using assms(8) by (cases "ingest_checkpoint d"; cases "ingest_checkpoint d'") auto
  with assms show ?thesis by (simp add: forget_saved_at_def untouched'_def)
qed

lemma same_changes_events: "same_changes cs cs' \<Longrightarrow> change_events cs = change_events cs'"
proof -
  assume "same_changes cs cs'"
  then have "map fst (map (\<lambda>(es, seq, _). (es, seq)) cs) = map fst (map (\<lambda>(es, seq, _). (es, seq)) cs')"
    by (simp only: same_changes_def)
  then have "map fst cs = map fst cs'" by (simp add: comp_def case_prod_beta)
  then show ?thesis by (simp add: change_events_def)
qed

lemma same_changes_last: "same_changes cs cs' \<Longrightarrow> cs \<noteq> [] \<Longrightarrow> fst (snd (last cs)) = fst (snd (last cs'))"
proof -
  assume same: "same_changes cs cs'" and "cs \<noteq> []"
  moreover from this have "cs' \<noteq> []" by (auto simp: same_changes_def)
  moreover have "last (map (\<lambda>(es, seq, _). (es, seq)) cs) = last (map (\<lambda>(es, seq, _). (es, seq)) cs')"
    using same by (simp only: same_changes_def)
  ultimately show ?thesis by (simp add: last_map case_prod_beta)
qed

lemma changes_effect_replay:
  assumes "same_changes cs cs'" and "keyed inv_hash (invoices d)" and "keyed pay_hash (payments d)"
    and "keyed ch_id (channels d)"
  shows "forget_saved_at (changes_effect ulid K P cs' (changes_effect ulid K P cs d)) =
    forget_saved_at (changes_effect ulid K P cs d)"
proof -
  define d1 where "d1 = changes_effect ulid K P cs d"
  note one = changes_effect_tables[OF d1_def]
  note two = changes_effect_tables[OF refl, of ulid K P cs' d1]
  from assms(1) have evs: "change_events cs' = change_events cs"
    by (simp add: same_changes_events)
  from one(7) have sv: "schema_version d1 = schema_version d" and eps: "webhook_endpoints d1 = webhook_endpoints d"
    by (simp_all add: untouched'_def)
  have fan: "fan_out ulid K P e now d1 = fan_out ulid K P e now d" for e now
    using sv eps by (intro fan_out_cong) simp_all
  have dels: "map dl_id (change_deliveries ulid K P cs' d1) = map dl_id (change_deliveries ulid K P cs d)"
    by (simp add: map_dl_id_rows[where now = 0] evs fan)
  show ?thesis
    unfolding d1_def[symmetric]
  proof (rule forget_saved_at_eqI)
    show "events (changes_effect ulid K P cs' d1) = events d1"
      unfolding two(1) one(1) by (rule fold_insert_absent_replay) (simp add: map_ev_id_rows evs)
    show "invoices (changes_effect ulid K P cs' d1) = invoices d1"
      unfolding two(2) one(2) evs using assms(2) by (rule invc.replay_table)
    show "payments (changes_effect ulid K P cs' d1) = payments d1"
      unfolding two(3) one(3) evs using assms(3) by (rule pay.replay_table)
    show "channels (changes_effect ulid K P cs' d1) = channels d1"
      unfolding two(4) one(4) evs using assms(4) by (rule chan.replay_table)
    show "merchant_orders (changes_effect ulid K P cs' d1) = merchant_orders d1"
      unfolding two(5) one(5) evs sv by (simp add: match_orders_replay)
    show "webhook_deliveries (changes_effect ulid K P cs' d1) = webhook_deliveries d1"
      unfolding two(6) one(6) using dels by (rule fold_insert_absent_replay)
    show "map_option cp_last_seq (ingest_checkpoint (changes_effect ulid K P cs' d1)) =
        map_option cp_last_seq (ingest_checkpoint d1)"
      unfolding two(8) using assms(1) one(8) same_changes_last[OF assms(1)]
      by (auto simp: same_changes_def)
  qed (rule two(7))
qed

end
