(* ===== verification/Indexer_Spec.thy ===== *)
theory Indexer_Spec
  imports Replay Samples
begin

text \<open>
  The contract of the indexer: one raw change is one atomic write, a replay of changes changes
  nothing, the declared constraints of the schema are kept, settled invoices mark the merchant
  orders waiting for them, and every subscribed endpoint gets one pending delivery per event.
\<close>

section \<open>Events that cannot be stored\<close>

text \<open>An event whose data does not decode for its type, or is not JSON at all.\<close>

definition unprojectable :: "kevents \<Rightarrow> postgres \<Rightarrow> event \<Rightarrow> bool" where
  "unprojectable K P e \<longleftrightarrow>
     to_jsonb P (e_Data e) = None \<or>
     (e_Type e = InvoicePaid \<and> isl (unmarshal_InvoicePaid K (e_Data e))) \<or>
     (e_Type e = PaymentReceived \<and> isl (unmarshal_PaymentReceived K (e_Data e))) \<or>
     (e_Type e = ChannelOpened \<and> isl (unmarshal_ChannelOpened K (e_Data e)))"

lemma applyEvent_fails:
  assumes "unprojectable K P e"
  shows "isl (fst (run_state (applyEvent ulid K P seq e) w))"
proof (rule ccontr)
  assume "\<not> ?thesis"
  then obtain x w' where "run_state (applyEvent ulid K P seq e) w = (Inr x, w')"
    by (metis isl_def fst_conv prod.exhaust sum.exhaust)
  with assms show False
    by (auto simp: applyEvent_def unprojectable_def insert_event_stmt_def projectInvoicePaid_def
        projectPaymentReceived_def projectChannelOpened_def isl_def split: tx_run_elims
        dest!: tx_exec_InrD on_schema_InrD)
qed

lemma for_each_fails:
  assumes "x \<in> set xs" and "\<And>w. isl (fst (run_state (f x) w))"
  shows "isl (fst (run_state (for_each f xs) w))"
  using assms(1)
proof (induction xs arbitrary: w)
  case Nil
  then show ?case by simp
next
  case (Cons y ys)
  obtain r w1 where r: "run_state (f y) w = (r, w1)" by fastforce
  with Cons assms(2)[of w] show ?case by (cases "y = x"; cases r) auto
qed

lemma save_body_fails:
  assumes "e \<in> set es" and "unprojectable K P e"
  shows "fst (run_state (save_body ulid K P es seq) w) \<noteq> Tx_ok"
proof -
  obtain r w1 where r: "run_state (for_each (applyEvent ulid K P seq) es) w = (r, w1)" by fastforce
  moreover from for_each_fails[where f = "applyEvent ulid K P seq", OF assms(1) applyEvent_fails[OF assms(2)], of w] r
  obtain err where "r = Inl err" by (auto simp: isl_def)
  ultimately show ?thesis by (simp add: save_body_def)
qed

section \<open>Constraints are kept\<close>

lemma keyed_map_same: "map key t' = map key t \<Longrightarrow> keyed key t' = keyed key t"
  by (simp add: keyed_def)

lemma match_order_keys:
  "o_id (match_order P dats ord) = o_id ord"
  "o_merchant_id (match_order P dats ord) = o_merchant_id ord"
  "order_ext_key (match_order P dats ord) = order_ext_key ord"
  by (simp_all add: match_order_eq mark_paid_def order_ext_key_def split: option.splits)

lemma map_filter_map: "List.map_filter f (map g xs) = List.map_filter (f \<circ> g) xs"
  by (induction xs) (simp_all add: map_filter_simps split: option.splits)

lemma match_orders_unique: "orders_unique (match_orders P dats t) = orders_unique t"
  by (simp add: orders_unique_def match_orders_map map_filter_map comp_def match_order_keys)

lemma set_fold_insert_absent: "set (fold (insert_absent key) rs t) \<subseteq> set t \<union> set rs"
proof (induction rs arbitrary: t)
  case Nil
  then show ?case by simp
next
  case (Cons r rs)
  have "set (insert_absent key r t) \<subseteq> insert r (set t)" by (auto simp: insert_absent_def)
  with Cons.IH[of "insert_absent key r t"] show ?case by auto
qed

lemma fan_out_refs:
  "dl \<in> set (fan_out ulid K P e now d) \<Longrightarrow>
   dl_endpoint_id dl \<in> ep_id ` set (webhook_endpoints d) \<and> dl_event_id dl = e_ID e"
  by (auto simp: fan_out_def new_delivery_def split: sum.splits option.splits if_splits)

lemma keyed_match_orders: "keyed o_id t \<Longrightarrow> keyed o_id (match_orders P dats t)"
  by (simp add: keyed_def match_orders_map comp_def match_order_keys)

lemma save_effect_keys:
  assumes "db_keys_ok d"
  shows "db_keys_ok (save_effect ulid K P es seq now d)"
proof -
  note tabs = save_effect_tables[OF refl, of ulid K P es seq now d]
  from tabs(7) have "webhook_endpoints (save_effect ulid K P es seq now d) = webhook_endpoints d"
    "merchants (save_effect ulid K P es seq now d) = merchants d"
    "refunds (save_effect ulid K P es seq now d) = refunds d"
    "settlements (save_effect ulid K P es seq now d) = settlements d"
    "reconciliation_runs (save_effect ulid K P es seq now d) = reconciliation_runs d"
    by (simp_all add: untouched'_def)
  with assms show ?thesis
    unfolding db_keys_ok_def tabs(1-6)
    by (auto intro: keyed_fold_insert_absent invc.keyed_apply pay.keyed_apply chan.keyed_apply keyed_match_orders)
qed

lemma save_effect_refs:
  assumes "db_refs_ok d" and "\<forall>e \<in> set es. \<not> unprojectable K P e"
  shows "db_refs_ok (save_effect ulid K P es seq now d)"
proof -
  let ?d = "save_effect ulid K P es seq now d"
  note tabs = save_effect_tables[OF refl, of ulid K P es seq now d]
  have old: "ev_id ` set (events d) \<subseteq> ev_id ` set (events ?d)"
    unfolding tabs(1) by (rule subsetI) (rule fold_insert_absent_keeps)
  have new: "e_ID e \<in> ev_id ` set (events ?d)" if "e \<in> set es" for e
  proof -
    from that assms(2) obtain j where "to_jsonb P (e_Data e) = Some j" by (auto simp: unprojectable_def)
    with that have "event_ins K P e j seq now \<in> set (concat (map (event_data K P seq now) es))"
      by (force simp: event_data_def)
    from fold_insert_absent_covers[OF this, of ev_id "events d"] show ?thesis by (simp add: tabs(1) event_ins_def)
  qed
  have "dl_endpoint_id dl \<in> ep_id ` set (webhook_endpoints d) \<and> dl_event_id dl \<in> ev_id ` set (events ?d)"
    if "dl \<in> set (webhook_deliveries ?d)" for dl
  proof -
    from that have "dl \<in> set (webhook_deliveries d) \<union> set (concat (map (\<lambda>e. fan_out ulid K P e now d) es))"
      unfolding tabs(6) by (rule subsetD[OF set_fold_insert_absent])
    then consider "dl \<in> set (webhook_deliveries d)" | e where "e \<in> set es" "dl \<in> set (fan_out ulid K P e now d)"
      by auto
    then show ?thesis
    proof cases
      case 1
      with assms(1) old show ?thesis by (auto simp: db_refs_ok_def)
    next
      case 2
      with new show ?thesis by (auto dest: fan_out_refs)
    qed
  qed
  moreover have "set (merchant_orders ?d) \<subseteq> (\<lambda>ord. if 3 \<le> schema_version d then
      match_order P (concat (map (invoice_data K) es)) ord else ord) ` set (merchant_orders d)"
    unfolding tabs(5) by (auto simp: match_orders_map)
  then have "\<forall>ord \<in> set (merchant_orders ?d). o_merchant_id ord \<in> o_merchant_id ` set (merchant_orders d)"
    by (auto simp: match_order_keys split: if_splits)
  moreover have "o_id ` set (merchant_orders ?d) = o_id ` set (merchant_orders d)"
    unfolding tabs(5) by (simp add: match_orders_map match_order_keys image_image)
  moreover from tabs(7) have "webhook_endpoints ?d = webhook_endpoints d" "merchants ?d = merchants d"
    "refunds ?d = refunds d" by (simp_all add: untouched'_def)
  ultimately show ?thesis
    using assms(1) unfolding db_refs_ok_def by force
qed

lemma save_effect_ok:
  "db_ok d \<Longrightarrow> \<forall>e \<in> set es. \<not> unprojectable K P e \<Longrightarrow> db_ok (save_effect ulid K P es seq now d)"
  using save_effect_tables(5)[OF refl, of ulid K P es seq now d]
  by (simp add: db_ok_def save_effect_keys save_effect_refs match_orders_unique)

section \<open>Fan-out\<close>


lemma dl_id_fan_out:
  "dl \<in> set (fan_out ulid K P e now d) \<Longrightarrow>
   \<exists>ep \<in> set (webhook_endpoints d). dl_id dl = delivery_id ulid (e_ID e) (ep_id ep)"
  by (auto simp: fan_out_def new_delivery_def split: sum.splits option.splits if_splits)

text \<open>
  No two of the given events and endpoints collide in the 128 bits a derived delivery id keeps of
  its hash.
\<close>

definition no_collision :: "(byte list \<Rightarrow> string) \<Rightarrow> string set \<Rightarrow> string set \<Rightarrow> bool" where
  "no_collision ulid evs eps \<longleftrightarrow>
     (\<forall>a \<in> evs. \<forall>b \<in> evs. \<forall>x \<in> eps. \<forall>y \<in> eps.
        delivery_id ulid a x = delivery_id ulid b y \<longrightarrow> a = b \<and> x = y)"

lemma distinct_map_filter_key: "distinct (map f xs) \<Longrightarrow> distinct (map f (filter Q xs))"
  by (induction xs) auto

lemma distinct_fan_out:
  assumes "no_collision ulid {e_ID e} (ep_id ` set (webhook_endpoints d))" and "keyed ep_id (webhook_endpoints d)"
  shows "distinct (map dl_id (fan_out ulid K P e now d))"
proof -
  let ?eps = "filter (endpoint_matches (e_Type e)) (webhook_endpoints d)"
  have "inj_on (delivery_id ulid (e_ID e)) (set (map ep_id ?eps))"
    using assms(1) by (auto simp: inj_on_def no_collision_def)
  moreover have "distinct (map ep_id ?eps)"
    using assms(2) by (simp add: keyed_def distinct_map_filter_key)
  ultimately have "distinct (map (delivery_id ulid (e_ID e)) (map ep_id ?eps))"
    by (subst distinct_map) (intro conjI)
  then show ?thesis
    by (simp add: fan_out_def new_delivery_def comp_def split: sum.split option.split)
qed

lemma no_collision_mono:
  "no_collision ulid evs eps \<Longrightarrow> evs' \<subseteq> evs \<Longrightarrow> no_collision ulid evs' eps"
  unfolding no_collision_def by blast

lemma no_collisionD:
  assumes "no_collision ulid evs eps" and "delivery_id ulid a x = delivery_id ulid b y"
    and "a \<in> evs" and "b \<in> evs" and "x \<in> eps" and "y \<in> eps"
  shows "a = b \<and> x = y"
  using assms unfolding no_collision_def by blast

lemma distinct_fan_outs:
  assumes "no_collision ulid (e_ID ` set es) (ep_id ` set (webhook_endpoints d))"
    and "keyed ep_id (webhook_endpoints d)" and "distinct (map e_ID es)"
  shows "distinct (map dl_id (concat (map (\<lambda>e. fan_out ulid K P e now d) es)))"
  using assms
proof (induction es)
  case Nil
  then show ?case by simp
next
  case (Cons e es)
  have "distinct (map dl_id (fan_out ulid K P e now d))"
    using Cons.prems by (intro distinct_fan_out no_collision_mono[OF Cons.prems(1)]) auto
  moreover have "distinct (map dl_id (concat (map (\<lambda>e. fan_out ulid K P e now d) es)))"
    using Cons.prems by (intro Cons.IH no_collision_mono[OF Cons.prems(1)]) auto
  moreover have "dl_id x \<noteq> dl_id y"
    if "x \<in> set (fan_out ulid K P e now d)" and "y \<in> set (fan_out ulid K P e' now d)" and "e' \<in> set es" for x y e'
  proof
    assume eq: "dl_id x = dl_id y"
    from dl_id_fan_out[OF that(1)] obtain ep where
      ep: "ep \<in> set (webhook_endpoints d)" "dl_id x = delivery_id ulid (e_ID e) (ep_id ep)" by blast
    from dl_id_fan_out[OF that(2)] obtain ep' where
      ep': "ep' \<in> set (webhook_endpoints d)" "dl_id y = delivery_id ulid (e_ID e') (ep_id ep')" by blast
    from ep ep' eq have "delivery_id ulid (e_ID e) (ep_id ep) = delivery_id ulid (e_ID e') (ep_id ep')" by simp
    from no_collisionD[OF Cons.prems(1) this] ep(1) ep'(1) that(3) have "e_ID e = e_ID e'" by simp
    with Cons.prems(3) that(3) show False by auto
  qed
  then have "dl_id ` set (fan_out ulid K P e now d) \<inter>
      dl_id ` set (concat (map (\<lambda>e. fan_out ulid K P e now d) es)) = {}"
    by force
  ultimately show ?case by simp
qed

lemma length_fan_outs:
  "length (concat (map (\<lambda>e. fan_out ulid K P e now d) es)) \<le> length es * length (webhook_endpoints d)"
proof (induction es)
  case Nil
  then show ?case by simp
next
  case (Cons e es)
  have "length (fan_out ulid K P e now d) \<le> length (webhook_endpoints d)"
    by (simp add: fan_out_def split: sum.split option.split)
  with Cons show ?case by simp
qed

lemma length_saved_deliveries:
  "length (filter Q (webhook_deliveries (save_effect ulid K P es seq now d))) \<le>
   length (filter Q (webhook_deliveries d)) + length es * length (webhook_endpoints d)"
  unfolding save_effect_tables(6)[OF refl]
  using length_filter_fold_insert_absent[of Q dl_id "concat (map (\<lambda>e. fan_out ulid K P e now d) es)" "webhook_deliveries d"]
    length_fan_outs[of ulid K P now d es] by linarith

text \<open>What a batch leaves of a new event: the row, and the delivery to each of its subscribers.\<close>

lemma new_event_saved:
  assumes "e \<in> set es" and "event_wf K P e" and "distinct (map e_ID es)" and "e_ID e \<notin> ev_id ` set (events d)"
    and "keyed ev_id (events d)" and "d' = save_effect ulid K P es seq now d"
  shows "\<exists>r. lookup_row ev_id (e_ID e) (events d') = Some r \<and> ev_type r = e_Type e"
proof -
  from assms(2) obtain j where j: "to_jsonb P (e_Data e) = Some j" by (auto simp: event_wf_def)
  let ?rows = "concat (map (event_data K P seq now) es)"
  have "map ev_id ?rows = map e_ID (filter (\<lambda>e. to_jsonb P (e_Data e) \<noteq> None) es)"
    by (induction es) (auto simp: event_data_def event_ins_def split: option.splits)
  then have "distinct (map ev_id ?rows)" using assms(3) by (simp add: distinct_map_filter_key)
  moreover have "event_ins K P e j seq now \<in> set ?rows" using assms(1) j by (force simp: event_data_def)
  ultimately have "event_ins K P e j seq now \<in> set (events d')"
    unfolding save_effect_tables(1)[OF assms(6)] using assms(4)
    by (intro fold_insert_absent_adds) (simp_all add: event_ins_def)
  moreover have "keyed ev_id (events d')"
    unfolding save_effect_tables(1)[OF assms(6)] using assms(5) by (rule keyed_fold_insert_absent)
  ultimately show ?thesis
    using keyed_lookup[of ev_id "events d'" "event_ins K P e j seq now"] by (auto simp: event_ins_def)
qed

lemma new_delivery_saved:
  assumes e: "e \<in> set es" "event_wf K P e" "distinct (map e_ID es)" and d: "2 \<le> schema_version d" "keyed ep_id (webhook_endpoints d)"
    and ep: "ep \<in> set (webhook_endpoints d)" "ep_active ep" "e_Type e \<in> set (ep_event_types ep)"
    and ids: "no_collision ulid (e_ID ` set es) (ep_id ` set (webhook_endpoints d))"
      "delivery_id ulid (e_ID e) (ep_id ep) \<notin> dl_id ` set (webhook_deliveries d)"
    and d': "d' = save_effect ulid K P es seq now d"
  shows "new_delivery (delivery_id ulid (e_ID e) (ep_id ep)) (ep_id ep) (e_ID e) (ep_url ep) (ep_secret ep)
    (the (to_jsonb P (projr (marshal_Event K e)))) now \<in> set (webhook_deliveries d')" (is "?dl \<in> _")
proof -
  have "?dl \<in> set (fan_out ulid K P e now d)"
    using e(2) d(1) ep by (auto simp: fan_out_def event_wf_def endpoint_matches_def split: sum.splits option.splits)
  with e(1) have "?dl \<in> set (concat (map (\<lambda>e. fan_out ulid K P e now d) es))" by auto
  moreover have "dl_id ?dl \<notin> dl_id ` set (webhook_deliveries d)" using ids(2) by (simp add: new_delivery_def)
  moreover note distinct_fan_outs[OF ids(1) d(2) e(3)]
  ultimately show ?thesis unfolding save_effect_tables(6)[OF d'] by (rule fold_insert_absent_adds)
qed

section \<open>The outcomes of \<open>Save\<close>\<close>

lemma Save_no_panic: "run_state (Save ulid K P p seq) w \<noteq> ((Panicking s, p'), w')"
  using save_body_no_panic[of ulid K P "buf p" seq _ s]
  by (auto simp: Save_def InTx_def split: tx_run_elims tx_outcome.splits)

lemma save_body_schema:
  assumes "run_state (save_body ulid K P es seq) w = (Tx_ok, w')"
  shows "1 \<le> schema_version (database w)"
proof -
  have version: "schema_version d = n" if "d'\<lparr>ingest_checkpoint := c\<rparr> = d" "schema_version d' = n" for d d' :: db and c n
    using that by auto
  have "1 \<le> schema_version (database w')"
    using assms
    by (auto simp: save_body_def save_checkpoint_stmt_def split: tx_run_elims dest!: tx_exec_InrD on_schema_InrD)
       (drule version[OF _ refl], simp)
  moreover have "untouched' (database w') = untouched' (database w)"
    using save_effect_tables(7)[OF refl] save_body_does[OF assms] by simp
  ultimately show ?thesis by (simp add: untouched'_def)
qed

lemma Save_outcomes:
  assumes "run_state (Save ulid K P p seq) w = ((r, p'), w')"
  obtains (nothing) e where "r = Failed e" "database w' = seen_db w"
  | (effect) "database w' = save_effect ulid K P (buf p) seq (clock w) (seen_db w)"
      "\<forall>e \<in> set (buf p). \<not> unprojectable K P e" "r = Committed \<or> (\<exists>e. r = Failed e)"
      "1 \<le> schema_version (seen_db w)"
proof -
  from assms have "run_state (InTx (save_body ulid K P (buf p) seq)) w = (r, w')"
    by (auto simp: Save_def split: prod.splits)
  from InTx_atomic[OF this] consider "r \<noteq> Committed" "database w' = seen_db w"
    | w1 w2 where "database w1 = seen_db w" "clock w1 = clock w" "database w' = database w2"
      "run_state (save_body ulid K P (buf p) seq) w1 = (Tx_ok, w2)" "r = Committed \<or> (\<exists>e. r = Failed e)"
    by blast
  then show ?thesis
  proof cases
    case 1
    with assms show ?thesis using that(1) Save_no_panic by (cases r) blast+
  next
    case 2
    moreover from save_body_fails[of _ "buf p" K P ulid seq w1] 2(4)
    have "\<forall>e \<in> set (buf p). \<not> unprojectable K P e" by auto
    moreover from save_body_does[OF 2(4)] 2(1-3)
    have "database w' = save_effect ulid K P (buf p) seq (clock w) (seen_db w)" by simp
    moreover from save_body_schema[OF 2(4)] 2(1) have "1 \<le> schema_version (seen_db w)" by simp
    ultimately show ?thesis using that(2) by blast
  qed
qed

lemma Save_committedD:
  assumes "run_state (Save ulid K P p seq) w = ((Committed, p'), w')"
  shows "database w' = save_effect ulid K P (buf p) seq (clock w) (seen_db w)"
  using assms by (cases rule: Save_outcomes) simp_all

section \<open>Properties\<close>

text \<open>C1: \<open>Save\<close> is atomic under every schedule of other sessions, failures and lost acknowledgements.
  It empties the buffer; the database is afterwards either the one the transaction saw, and then \<open>Save\<close>
  reported no success, or that database with the complete effect of every buffered event and the new
  checkpoint. \<open>Save\<close> never panics.\<close>

theorem Save_atomic:
  assumes "run_state (Save ulid K P p seq) w = ((r, p'), w')"
  shows "buf p' = [] \<and>
    ((\<exists>e. r = Failed e) \<and> database w' = seen_db w \<or>
     database w' = save_effect ulid K P (buf p) seq (clock w) (seen_db w) \<and>
       (r = Committed \<or> (\<exists>e. r = Failed e)))"
proof -
  from assms have "buf p' = []" by (auto simp: Save_def split: prod.splits)
  with assms show ?thesis by (cases rule: Save_outcomes) auto
qed

text \<open>A session whose commit is acknowledged as lost.\<close>

definition sample_lossy :: world where
  "sample_lossy = (sample_world sample_db)\<lparr>schedule := replicate 7 quiet_tick @
     [\<lparr>others = id, tick_reply = Fail_after ''connection reset''\<rparr>]\<rparr>"

theorem Save_atomic_witness:
  "\<exists>r p' w'. run_state (Save (\<lambda>_. '''') sample_kevents sample_postgres (Handle New sample_payment) 4) sample_lossy
     = ((r, p'), w') \<and> buf p' = []"
proof -
  obtain r p' w' where run:
    "run_state (Save (\<lambda>_. '''') sample_kevents sample_postgres (Handle New sample_payment) 4) sample_lossy = ((r, p'), w')"
    by (metis prod.exhaust)
  from Save_atomic[OF run] run show ?thesis by blast
qed

text \<open>C9: on a server that serves this session alone, \<open>Save\<close> succeeds on every storable batch and makes
  exactly the abstract effect: the events, the projections, the matched orders, the deliveries and
  the checkpoint, and nothing else.\<close>

theorem Save_implements_effect:
  assumes "quiet w" and "\<forall>e \<in> set (buf p). event_wf K P e" and "1 \<le> schema_version (database w)"
  shows "run_state (Save ulid K P p seq) w =
    ((Committed, p\<lparr>buf := []\<rparr>), w\<lparr>database := save_effect ulid K P (buf p) seq (clock w) (database w)\<rparr>)"
  using assms by (rule run_Save)

lemma sample_wf:
  "event_wf sample_kevents sample_postgres sample_invoice"
  "event_wf sample_kevents sample_postgres sample_payment"
  "event_wf sample_kevents sample_postgres sample_channel"
  by (simp_all add: event_wf_def sample_defs event_types)

theorem Save_implements_effect_witness:
  "run_state (Save (\<lambda>_. '''') sample_kevents sample_postgres (Handle New sample_invoice) 4) (sample_world sample_db) =
    ((Committed, New), (sample_world sample_db)\<lparr>database :=
       save_effect (\<lambda>_. '''') sample_kevents sample_postgres [sample_invoice] 4 10000 sample_db\<rparr>)"
proof -
  have "quiet (sample_world sample_db)" "1 \<le> schema_version (database (sample_world sample_db))"
    "\<forall>e \<in> set (buf (Handle New sample_invoice)). event_wf sample_kevents sample_postgres e"
    by (simp_all add: sample_wf Handle_def New_def) (simp_all add: sample_defs)
  from Save_implements_effect[OF this(1) this(3) this(2), of "\<lambda>_. ''''" 4] show ?thesis
    by (simp add: Handle_def New_def sample_world_def)
qed

text \<open>C5: replaying a feed is idempotent. After any list of changes has been fed and committed, feeding
  the same changes again (at whatever later times) also commits and leaves every table as it was;
  only the time of the last checkpoint write is refreshed. This is what lets the runner resume from
  a checkpoint that is behind.\<close>

theorem feed_replay:
  assumes "quiet w" and "db_keys_ok (database w)" and "1 \<le> schema_version (database w)" and "buf p = []"
    and "\<forall>e \<in> set (change_events cs). event_wf K P e" and "same_changes cs cs'"
    and "run_state (feed ulid K P p cs) w = (x, w1)" and "run_state (feed ulid K P p cs') w1 = (y, w2)"
  shows "x = (Committed, p) \<and> y = (Committed, p) \<and> forget_saved_at (database w2) = forget_saved_at (database w1)"
proof -
  from run_feed[OF assms(1,5,3,4), of ulid] assms(7)
  have 1: "x = (Committed, p)" "quiet w1" "database w1 = changes_effect ulid K P cs (database w)" by auto
  have "schema_version (database w1) = schema_version (database w)"
    using changes_effect_tables(7)[OF 1(3)] by (simp add: untouched'_def)
  with run_feed[OF 1(2), of cs' K P p ulid] assms(3,4,5,8) same_changes_events[OF assms(6)]
  have 2: "y = (Committed, p)" "database w2 = changes_effect ulid K P cs' (database w1)" by auto
  with 1 changes_effect_replay[OF assms(6), of "database w" ulid K P] assms(2)
  show ?thesis by (simp add: db_keys_ok_def)
qed

theorem feed_replay_witness:
  "\<exists>x w1 y w2.
     run_state (feed (\<lambda>_. '''') sample_kevents sample_postgres New
       [([sample_invoice], 1, 100), ([sample_payment, sample_channel], 2, 200)]) (sample_world sample_db) = (x, w1) \<and>
     run_state (feed (\<lambda>_. '''') sample_kevents sample_postgres New
       [([sample_invoice], 1, 300), ([sample_payment, sample_channel], 2, 400)]) w1 = (y, w2) \<and>
     x = (Committed, New) \<and> y = (Committed, New) \<and> forget_saved_at (database w2) = forget_saved_at (database w1)"
proof -
  let ?cs = "[([sample_invoice], 1, 100), ([sample_payment, sample_channel], 2, 200)] :: change list"
  let ?cs' = "[([sample_invoice], 1, 300), ([sample_payment, sample_channel], 2, 400)] :: change list"
  obtain x w1 where 1: "run_state (feed (\<lambda>_. '''') sample_kevents sample_postgres New ?cs) (sample_world sample_db) = (x, w1)"
    by fastforce
  obtain y w2 where 2: "run_state (feed (\<lambda>_. '''') sample_kevents sample_postgres New ?cs') w1 = (y, w2)"
    by fastforce
  have "db_keys_ok sample_db" using sample_db_ok by (simp only: db_ok_def)
  then have "x = (Committed, New) \<and> y = (Committed, New) \<and> forget_saved_at (database w2) = forget_saved_at (database w1)"
    by (intro feed_replay[OF _ _ _ _ _ _ 1 2])
       (simp_all add: sample_wf change_events_def New_def same_changes_def sample_world_def sample_db_def empty_db_def)
  with 1 2 show ?thesis by blast
qed


text \<open>Calling \<open>Save\<close> a second time without the events does not recover them: it commits an empty batch, which moves the
  checkpoint past the change and writes nothing else.\<close>

lemma bare_retry_loses_events:
  assumes "run_state (Save ulid K P p seq) w = ((Failed err, p1), w1)" and "quiet w1" and "1 \<le> schema_version (seen_db w)"
    and "run_state (Save ulid K P p1 seq) w1 = ((r, p2), w2)"
  shows "r = Committed \<and> run_state Load w2 = (Inr seq, w2) \<and> events (database w2) = events (database w1)"
proof -
  have "buf p1 = []" using assms(1) by (auto simp: Save_def split: prod.splits)
  moreover have "schema_version (database w1) = schema_version (seen_db w)"
    using assms(1) by (cases rule: Save_outcomes) simp_all
  ultimately have 2: "r = Committed" "w2 = w1\<lparr>database := save_effect ulid K P [] seq (clock w1) (database w1)\<rparr>"
    and v: "1 \<le> schema_version (database w1)"
    using run_Save[of w1 p1 K P ulid seq] assms(2-4) by auto
  have "run_state Load w2 = (Inr seq, w2)"
    using assms(2) v by (simp add: 2 Load_def io_simps on_schema_def) (simp add: save_effect_def)
  moreover have "events (database w2) = events (database w1)"
    by (simp add: 2 save_effect_tables(1)[OF refl])
  ultimately show ?thesis using 2(1) by simp
qed



text \<open>The declared constraints (primary keys, unique external order ids, foreign keys) hold after
  \<open>Save\<close>, whatever it reports and under every schedule, if they held in the database it saw.\<close>

lemma Save_keeps_constraints:
  assumes "run_state (Save ulid K P p seq) w = ((r, p'), w')" and "db_ok (seen_db w)"
  shows "db_ok (database w')"
  using assms(1)
proof (cases rule: Save_outcomes)
  case nothing
  with assms(2) show ?thesis by simp
next
  case effect
  with assms(2) show ?thesis by (simp add: save_effect_ok)
qed

text \<open>C32: a change with an event whose data is not JSON, or does not decode for its type, is refused as
  a whole: \<open>Save\<close> reports an error and the database is the one the transaction saw, so neither the
  other events of the change nor the checkpoint are written.\<close>

theorem Save_rejects_undecodable:
  assumes "run_state (Save ulid K P p seq) w = ((r, p'), w')" and "e \<in> set (buf p)" and "unprojectable K P e"
  shows "(\<exists>err. r = Failed err) \<and> database w' = seen_db w"
  using assms(1)
proof (cases rule: Save_outcomes)
  case nothing
  then show ?thesis by simp
next
  case effect
  with assms(2,3) show ?thesis by blast
qed

theorem Save_rejects_undecodable_witness:
  "\<exists>err p' w'. run_state (Save (\<lambda>_. '''') sample_kevents sample_postgres
       (Handle (Handle New sample_payment) sample_broken) 4) (sample_world sample_db) = ((Failed err, p'), w') \<and>
     database w' = sample_db"
proof -
  let ?p = "Handle (Handle New sample_payment) sample_broken"
  obtain r p' w' where run:
    "run_state (Save (\<lambda>_. '''') sample_kevents sample_postgres ?p 4) (sample_world sample_db) = ((r, p'), w')"
    by (metis prod.exhaust)
  have "sample_broken \<in> set (buf ?p)" by (simp add: Handle_def)
  moreover have "unprojectable sample_kevents sample_postgres sample_broken"
    by (simp add: unprojectable_def sample_defs)
  ultimately show ?thesis
    using Save_rejects_undecodable[OF run] run by (auto simp: seen_db_def sample_world_def quiet_tick_def next_tick_def)
qed

text \<open>C18: payment matching. After a committed \<open>Save\<close> on a database with the merchant tables, every order
  is as before, except that a pending order whose invoice hash was settled by an \<open>invoice.paid\<close> event
  of the change is paid, at the settlement time of the first such event. No order changes twice.\<close>

theorem Save_matches_orders:
  assumes "run_state (Save ulid K P p seq) w = ((Committed, p'), w')" and "3 \<le> schema_version (seen_db w)"
  shows "merchant_orders (database w') =
    map (\<lambda>ord. case find (\<lambda>dat. o_invoice_payment_hash ord = Some (ipd_PaymentHash dat) \<and> o_status ord = ''pending'')
                    (concat (map (invoice_data K) (buf p))) of
           None \<Rightarrow> ord
         | Some dat \<Rightarrow> ord\<lparr>o_status := ''paid'', o_paid_at := Some (bind_ts P (ipd_SettledAt dat))\<rparr>)
      (merchant_orders (seen_db w))"
  using assms(2) save_effect_tables(5)[OF Save_committedD[OF assms(1)]]
  by (simp add: match_orders_map match_order_eq order_matches_def mark_paid_def cong: option.case_cong)

theorem Save_matches_orders_witness:
  "\<exists>p' w'. run_state (Save (\<lambda>_. '''') sample_kevents sample_postgres (Handle New sample_invoice) 4)
       (sample_world sample_db) = ((Committed, p'), w') \<and>
     merchant_orders (database w') = [sample_order\<lparr>o_status := ''paid'', o_paid_at := Some 7000\<rparr>]"
proof -
  let ?p = "Handle New sample_invoice" and ?w = "sample_world sample_db"
  have "run_state (Save (\<lambda>_. '''') sample_kevents sample_postgres ?p 4) ?w = ((Committed, ?p\<lparr>buf := []\<rparr>),
      ?w\<lparr>database := save_effect (\<lambda>_. '''') sample_kevents sample_postgres (buf ?p) 4 (clock ?w) (database ?w)\<rparr>)"
    by (rule run_Save) (simp_all add: Handle_def New_def sample_wf, simp_all add: sample_defs)
  moreover from Save_matches_orders[OF this] have
    "merchant_orders (save_effect (\<lambda>_. '''') sample_kevents sample_postgres (buf ?p) 4 (clock ?w) (database ?w)) =
     [sample_order\<lparr>o_status := ''paid'', o_paid_at := Some 7000\<rparr>]"
    by (simp add: Handle_def New_def invoice_data_def sample_defs)
  ultimately show ?thesis by simp
qed



text \<open>The checkpoint round trip. \<open>Load\<close> on a migrated database without a checkpoint returns 0, and after
  a committed \<open>Save\<close> it returns exactly the sequence number that was saved.\<close>

lemma Load_after_Save:
  assumes "run_state (Save ulid K P p seq) w = ((Committed, p'), w')" and "quiet w'" and "1 \<le> schema_version (seen_db w)"
  shows "run_state Load w' = (Inr seq, w') \<and>
    (\<forall>v. quiet v \<longrightarrow> 1 \<le> schema_version (database v) \<longrightarrow> ingest_checkpoint (database v) = None \<longrightarrow>
       run_state Load v = (Inr 0, v))"
  using assms(2,3) Save_committedD[OF assms(1)]
  by (auto simp: Load_def io_simps on_schema_def ErrNoRows_def save_effect_def)

text \<open>The payments table after a feed. For every payment hash the row carries the data of the last
  \<open>payment.received\<close> event with that hash, the creation time of the first, and for a hash already in the
  table the creation time and the fee it had; a hash no event mentions is untouched.\<close>

lemma payments_last_writer:
  assumes "quiet w" and "1 \<le> schema_version (database w)" and "buf p = []"
    and "\<forall>e \<in> set (change_events cs). event_wf K P e"
    and "run_state (feed ulid K P p cs) w = (x, w')"
    and "hits = filter (\<lambda>(dat, t). prd_PaymentHash dat = h) (concat (map (payment_data K) (change_events cs)))"
  shows "lookup_row pay_hash h (payments (database w')) =
    (if hits = [] then lookup_row pay_hash h (payments (database w))
     else Some (case last hits of (dat, t) \<Rightarrow>
       \<lparr>pay_hash = h, pay_direction = ''received'', pay_status = ''succeeded'', pay_asset = nullText (prd_Asset dat),
        pay_amount = Some (int (prd_Amount dat)),
        pay_fee = (case lookup_row pay_hash h (payments (database w)) of None \<Rightarrow> None | Some r \<Rightarrow> pay_fee r),
        pay_peer = nullText (prd_PayerPubkey dat),
        pay_created_at = (case lookup_row pay_hash h (payments (database w)) of
           None \<Rightarrow> Some (bind_ts P (snd (hd hits))) | Some r \<Rightarrow> pay_created_at r),
        pay_updated_at = Some (bind_ts P t)\<rparr>))"
proof -
  have db: "database w' = changes_effect ulid K P cs (database w)"
    using run_feed[OF assms(1,4,2,3), of ulid] assms(5) by auto
  have hits: "pay.events_at h (concat (map (payment_data K) (change_events cs))) = hits"
    unfolding pay.events_at_def assms(6) by (simp add: case_prod_unfold)
  have hash: "\<forall>x \<in> set hits. prd_PaymentHash (fst x) = h"
    using assms(6) by auto
  have row: "fold (\<lambda>(dat, t). payment_upd P dat t) es r = (if es = [] then r else case last es of (dat, t) \<Rightarrow>
      payment_upd P dat t r)" for es r
    unfolding pay.fold_upd by (simp add: case_prod_unfold)
  have look: "lookup_row pay_hash h (payments (database w')) =
      (case lookup_row pay_hash h (payments (database w)) of
         Some r \<Rightarrow> Some (fold (\<lambda>(dat, t). payment_upd P dat t) hits r)
       | None \<Rightarrow> (case hits of [] \<Rightarrow> None
           | e # es \<Rightarrow> Some (fold (\<lambda>(dat, t). payment_upd P dat t) es ((\<lambda>(dat, t). payment_ins P dat t) e))))"
    by (simp only: changes_effect_tables(3)[OF db] pay.lookup_apply hits)
  show ?thesis
  proof (cases hits)
    case Nil
    then show ?thesis by (simp add: look split: option.splits)
  next
    case (Cons hit rest)
    obtain dat t where l: "last hits = (dat, t)" by fastforce
    with Cons hash have "prd_PaymentHash dat = h" "prd_PaymentHash (fst hit) = h"
      by (metis fst_conv last_in_set list.discI list.set_intros(1))+
    with Cons l show ?thesis
      by (cases hit; cases "lookup_row pay_hash h (payments (database w))")
         (auto simp: look row payment_upd_def payment_ins_def split: if_splits dest: lookup_row_key)
  qed
qed

end
