(* ===== verification/Migrations.thy ===== *)
theory Migrations
  imports Pool
begin

text \<open>
  The schema and how it comes about: the three SQL files of \<^verbatim>\<open>migrations/\<close> and
  \<^verbatim>\<open>internal/platform/db/migrate.go\<close>. \<open>schema_version\<close> counts the migrations that have run; a table that
  has not been created is represented as empty, and every statement that mentions it fails
  (\<open>on_schema\<close>). goose is a parameter; \<open>goose_ok\<close> states what its documentation promises.
\<close>

section \<open>The SQL files\<close>

text \<open>The tables each file creates, in its order, and its \<open>REFERENCES\<close> clauses: a table that has one and the
  table it names.\<close>

definition ingest_tables :: "string list" where
  "ingest_tables = [''ingest_checkpoint'', ''events'', ''payments'', ''channels'', ''invoices'']"

definition webhook_tables :: "string list" where
  "webhook_tables = [''webhook_endpoints'', ''webhook_deliveries'', ''webhook_delivery_log'']"

definition merchant_tables :: "string list" where
  "merchant_tables = [''merchants'', ''merchant_orders'', ''refunds'', ''settlements'', ''reconciliation_runs'']"

definition webhook_foreign_keys :: "(string \<times> string) list" where
  "webhook_foreign_keys = [(''webhook_deliveries'', ''webhook_endpoints''), (''webhook_deliveries'', ''events'')]"

definition merchant_foreign_keys :: "(string \<times> string) list" where
  "merchant_foreign_keys = [(''merchant_orders'', ''merchants''), (''refunds'', ''merchant_orders'')]"

definition foreign_keys :: "(string \<times> string) list" where
  "foreign_keys = webhook_foreign_keys @ merchant_foreign_keys"

text \<open>The embedded files by their number; the \<open>Down\<close> part of each drops its tables in the reverse order.\<close>

definition migration_tables :: "nat \<Rightarrow> string list" where
  "migration_tables v =
     (if v = 1 then ingest_tables else if v = 2 then webhook_tables else if v = 3 then merchant_tables else [])"

definition migration_drops :: "nat \<Rightarrow> string list" where
  "migration_drops v = rev (migration_tables v)"

lemmas table_defs = migration_tables_def ingest_tables_def webhook_tables_def merchant_tables_def
  foreign_keys_def webhook_foreign_keys_def merchant_foreign_keys_def

text \<open>
  Running the statements of a file against the tables that exist: a name that is taken, a reference
  to a missing table, and dropping a table that another one references are errors.
\<close>

fun create_tables :: "string list \<Rightarrow> string list \<Rightarrow> string list option" where
  "create_tables [] tabs = Some tabs"
| "create_tables (t # ts) tabs =
     (if t \<in> set tabs \<or> (\<exists>(src, target) \<in> set foreign_keys. src = t \<and> target \<notin> set tabs) then None
      else create_tables ts (tabs @ [t]))"

fun drop_tables :: "string list \<Rightarrow> string list \<Rightarrow> string list option" where
  "drop_tables [] tabs = Some tabs"
| "drop_tables (t # ts) tabs =
     (if t \<notin> set tabs \<or> (\<exists>(src, target) \<in> set foreign_keys. target = t \<and> src \<in> set tabs) then None
      else drop_tables ts (remove1 t tabs))"

definition schema_tables :: "nat \<Rightarrow> string list" where
  "schema_tables v = concat (map migration_tables [1..<Suc v])"

lemma less_3_cases: "v < 3 \<Longrightarrow> v = 0 \<or> v = 1 \<or> v = (2::nat)"
  by linarith

text \<open>Each file runs after the ones before it, and its two parts undo each other.\<close>

lemma migrations_run:
  assumes "v < 3"
  shows "create_tables (migration_tables (Suc v)) (schema_tables v) = Some (schema_tables (Suc v))"
    and "drop_tables (migration_drops (Suc v)) (schema_tables (Suc v)) = Some (schema_tables v)"
proof -
  let ?runs = "\<lambda>v. create_tables (migration_tables (Suc v)) (schema_tables v) = Some (schema_tables (Suc v)) \<and>
    drop_tables (migration_drops (Suc v)) (schema_tables (Suc v)) = Some (schema_tables v)"
  have "?runs 0" by code_simp
  moreover have "?runs 1" by code_simp
  moreover have "?runs 2" by code_simp
  ultimately have "?runs v" using less_3_cases[OF assms] by blast
  then show "create_tables (migration_tables (Suc v)) (schema_tables v) = Some (schema_tables (Suc v))"
    "drop_tables (migration_drops (Suc v)) (schema_tables (Suc v)) = Some (schema_tables v)" by simp_all
qed

text \<open>What a migration does to the database: its tables can be used from then on.\<close>

definition migration_up :: "nat \<Rightarrow> db \<Rightarrow> db" where
  "migration_up v d = d\<lparr>schema_version := v\<rparr>"

definition clear_table :: "string \<Rightarrow> db \<Rightarrow> db" where
  "clear_table tbl d =
     (if tbl = ''ingest_checkpoint'' then d\<lparr>ingest_checkpoint := None\<rparr>
      else if tbl = ''events'' then d\<lparr>events := []\<rparr>
      else if tbl = ''payments'' then d\<lparr>payments := []\<rparr>
      else if tbl = ''channels'' then d\<lparr>channels := []\<rparr>
      else if tbl = ''invoices'' then d\<lparr>invoices := []\<rparr>
      else if tbl = ''webhook_endpoints'' then d\<lparr>webhook_endpoints := []\<rparr>
      else if tbl = ''webhook_deliveries'' then d\<lparr>webhook_deliveries := []\<rparr>
      else if tbl = ''webhook_delivery_log'' then d\<lparr>webhook_delivery_log := []\<rparr>
      else if tbl = ''merchants'' then d\<lparr>merchants := []\<rparr>
      else if tbl = ''merchant_orders'' then d\<lparr>merchant_orders := []\<rparr>
      else if tbl = ''refunds'' then d\<lparr>refunds := []\<rparr>
      else if tbl = ''settlements'' then d\<lparr>settlements := []\<rparr>
      else if tbl = ''reconciliation_runs'' then d\<lparr>reconciliation_runs := []\<rparr>
      else d)"

definition tables_migrated :: "db \<Rightarrow> bool" where
  "tables_migrated d \<longleftrightarrow>
     (schema_version d < 1 \<longrightarrow> ingest_checkpoint d = None \<and> events d = [] \<and> payments d = [] \<and> channels d = [] \<and> invoices d = []) \<and>
     (schema_version d < 2 \<longrightarrow> webhook_endpoints d = [] \<and> webhook_deliveries d = [] \<and> webhook_delivery_log d = []) \<and>
     (schema_version d < 3 \<longrightarrow> merchants d = [] \<and> merchant_orders d = [] \<and> refunds d = [] \<and> settlements d = [] \<and>
        reconciliation_runs d = [])"

text \<open>So the tables a migration creates are empty, and those that exist keep their rows.\<close>

lemma migration_creates_empty:
  assumes "tables_migrated d" and "schema_version d < v"
  shows "fold clear_table (migration_tables v) (migration_up v d) = migration_up v d"
proof -
  consider "v = 1" | "v = 2" | "v = 3" | "migration_tables v = []" unfolding migration_tables_def by presburger
  then show ?thesis
    using assms by cases (simp_all add: table_defs migration_up_def clear_table_def tables_migrated_def)
qed

lemma tables_migrated_up: "tables_migrated d \<Longrightarrow> schema_version d \<le> v \<Longrightarrow> tables_migrated (migration_up v d)"
  by (simp add: tables_migrated_def migration_up_def)

section \<open>goose\<close>

text \<open>
  \<open>goose.Up\<close> applies the migrations that have not run, one after the other in the order of their
  numbers, each in a transaction, and stops at the first error; other sessions may commit in between.
\<close>

definition migrate_step :: "tick list \<Rightarrow> db \<Rightarrow> db \<Rightarrow> bool" where
  "migrate_step ts d d' \<longleftrightarrow> (\<exists>t \<in> set ts. d' = others t d) \<or>
     (schema_version d < 3 \<and> d' = migration_up (Suc (schema_version d)) d)"

definition migrate_all :: "db \<Rightarrow> db" where
  "migrate_all d = fold migration_up [Suc (schema_version d)..<4] d"

definition migrates :: "(world, 'a) state \<Rightarrow> bool" where
  "migrates m \<longleftrightarrow> (\<forall>w. set (schedule (snd (run_state m w))) \<subseteq> set (schedule w) \<and>
     (migrate_step (schedule w))\<^sup>*\<^sup>* (database w) (database (snd (run_state m w))))"

definition goose_ok :: "unit io \<Rightarrow> bool" where
  "goose_ok up \<longleftrightarrow> migrates up \<and>
     (\<forall>w. quiet w \<longrightarrow> run_state up w = (Inr (), w\<lparr>database := migrate_all (database w)\<rparr>))"

lemma migrate_all_eq: "migrate_all d = (if schema_version d < 3 then d\<lparr>schema_version := 3\<rparr> else d)"
  using less_3_cases[of "schema_version d"] by (auto simp: migrate_all_def migration_up_def upt_rec)

lemma migrate_all_idem: "migrate_all (migrate_all d) = migrate_all d"
  by (simp add: migrate_all_eq)

section \<open>\<open>migrate.go\<close>\<close>

definition Migrate :: "(string \<Rightarrow> error option) \<Rightarrow> error option \<Rightarrow> unit io \<Rightarrow> string \<Rightarrow> unit io" where
  "Migrate sql_Open set_dialect goose_Up dsn =
     (case sql_Open dsn of
        Some e \<Rightarrow> throw (Errorf ''db: migrate open: %w'' [] (Some e))
      | None \<Rightarrow> (case set_dialect of
          Some e \<Rightarrow> throw (Errorf ''db: migrate dialect: %w'' [] (Some e))
        | None \<Rightarrow> do {
            r \<leftarrow> goose_Up;
            case r of Inl e \<Rightarrow> throw (Errorf ''db: migrate up: %w'' [] (Some e)) | Inr _ \<Rightarrow> ok () }))"

lemma run_Migrate:
  assumes "goose_ok up" and "quiet w" and "sql_Open dsn = None"
  shows "run_state (Migrate sql_Open None up dsn) w = (Inr (), w\<lparr>database := migrate_all (database w)\<rparr>)"
  using assms by (simp add: Migrate_def goose_ok_def)

end
