(* ===== verification/System.thy ===== *)
theory System
  imports Tenant_Spec Outbox Server Indexer_Spec Migrations
begin

text \<open>
  The program as one transition system over its database. \<open>commit\<close> is a step relation with one rule per
  statement or transaction by which any part of the program changes the database; \<open>operation\<close> is
  everything the binary runs: the requests of the router, the projector, the store the dispatcher
  drives, the sweeper, the migrations and the provisioning command. Operations are not atomic: between any two of
  their statements other processes act. \<open>rely\<close> says that those take \<open>commit\<close> steps too, and the main
  lemma is the matching guarantee: whatever fails, an operation moves the database along \<open>commit\<close>
  steps only. What holds of every \<open>commit\<close> step therefore holds of the program with any number of
  concurrent processes.
\<close>

section \<open>Commits\<close>

text \<open>An order that may be refunded: it has been paid.\<close>

definition refundable :: "string \<Rightarrow> db \<Rightarrow> bool" where
  "refundable orderID d \<longleftrightarrow>
     (\<exists>x \<in> set (merchant_orders d). o_id x = orderID \<and> o_status x \<in> {''paid'', ''refunded''})"

definition refund_recorded :: "string \<Rightarrow> db \<Rightarrow> bool" where
  "refund_recorded orderID d \<longleftrightarrow> orderID \<in> rf_order_id ` set (refunds d)"

definition run_consistent :: "string \<Rightarrow> reconciliation \<Rightarrow> bool" where
  "run_consistent period rc \<longleftrightarrow> rec_Period rc = period \<and> 0 \<le> rec_Matched rc \<and>
     rec_UnmatchedCount rc = int (length (rec_UnmatchedOrders rc))"

inductive commit :: "deps \<Rightarrow> db \<Rightarrow> db \<Rightarrow> bool" for D where
  c_save: "1 \<le> schema_version d \<Longrightarrow> \<forall>e \<in> set es. \<not> unprojectable K (d_postgres D) e \<Longrightarrow>
    commit D d (save_effect (d_ulid D) K (d_postgres D) es seq now d)"
| c_claim: "claim_stmt s limit locked now d = Inr (rows, d') \<Longrightarrow> commit D d d'"
| c_succeed: "mark_stmt i set_succeeded (\<lambda>dl. dl_attempts dl + 1) None now d = Inr (u, d') \<Longrightarrow> commit D d d'"
| c_fail: "mark_stmt i (set_failed t msg) dl_attempts (Some msg) now d = Inr (u, d') \<Longrightarrow> commit D d d'"
| c_dead: "mark_stmt i set_dead dl_attempts (Some ''max attempts exceeded'') now d = Inr (u, d') \<Longrightarrow> commit D d d'"
| c_requeue: "requeue_stmt now d = Inr (n, d') \<Longrightarrow> commit D d d'"
| c_subscribe: "cr_URL req \<noteq> '''' \<Longrightarrow> cr_EventTypes req \<noteq> [] \<Longrightarrow>
    create_stmt (endpoint_id (d_ulid D) (cr_URL req)) req secret now d = Inr (u, d') \<Longrightarrow> commit D d d'"
| c_unsubscribe: "deactivate_stmt epID now d = Inr (m, d') \<Longrightarrow> commit D d d'"
| c_test_event: "insert_test_event (d_postgres D) evtID epID ping now d = Inr (u, d') \<Longrightarrow> commit D d d'"
| c_test_delivery: "insert_test_delivery (d_postgres D) dlvID epID evtID url secret ping now d = Inr (u, d') \<Longrightarrow>
    commit D d d'"
| c_replay: "replay_stmt dlvID epID now d = Inr (m, d') \<Longrightarrow> commit D d d'"
| c_order: "insert_order_stmt (order_ins orderID merchantID extID hash amount asset) now d = Inr (u, d') \<Longrightarrow> commit D d d'"
| c_refund: "refundable orderID d \<Longrightarrow>
    insert_refund_stmt (refund_ins refundID orderID amount asset reason hash) now d = Inr (u, d') \<Longrightarrow> commit D d d'"
| c_refunded: "refund_recorded orderID d \<Longrightarrow> mark_refunded_stmt orderID now d = Inr (u, d') \<Longrightarrow> commit D d d'"
| c_settle: "insert_settlement_stmt (\<lambda>now. \<lparr>st_id = sid, st_merchant_id = merchantID, st_period = period, st_gross = int g,
      st_fees = int f, st_net = int k, st_asset = asset, st_status = ''generated'', st_generated_at = now\<rparr>) now d = Inr (u, d') \<Longrightarrow>
    commit D d d'"
| c_reconcile: "run_consistent period rc \<Longrightarrow>
    insert_run_stmt (\<lambda>now. \<lparr>rc_id = rid, rc_merchant_id = merchantID, rc_period = period, rc_matched = rec_Matched rc,
      rc_unmatched_count = rec_UnmatchedCount rc, rc_discrepancy_total = int disc, rc_report = rc, rc_created_at = now\<rparr>)
      now d = Inr (u, d') \<Longrightarrow> commit D d d'"
| c_provision: "asset \<noteq> '''' \<Longrightarrow>
    insert_merchant_stmt (\<lambda>now. \<lparr>m_id = merchantID, m_name = name, m_api_key_hash = HashAPIKey key,
      m_settlement_asset = asset, m_created_at = now\<rparr>) now d = Inr (u, d') \<Longrightarrow> commit D d d'"
| c_migrate: "schema_version d < 3 \<Longrightarrow> commit D d (migration_up (Suc (schema_version d)) d)"

text \<open>Any number of commits.\<close>

abbreviation commits :: "deps \<Rightarrow> db \<Rightarrow> db \<Rightarrow> bool" where
  "commits D \<equiv> (commit D)\<^sup>*\<^sup>*"

text \<open>The definitions of all statements that write.\<close>

lemmas write_stmts = claim_stmt_def mark_stmt_def requeue_stmt_def create_stmt_def deactivate_stmt_def
  insert_test_event_def insert_test_delivery_def replay_stmt_def insert_order_stmt_def insert_refund_stmt_def
  mark_refunded_stmt_def insert_settlement_stmt_def insert_run_stmt_def insert_merchant_stmt_def

section \<open>Rely and guarantee\<close>

definition rely :: "deps \<Rightarrow> world \<Rightarrow> bool" where
  "rely D w \<longleftrightarrow> (\<forall>t \<in> set (schedule w). \<forall>d. commits D d (others t d))"

text \<open>A fact about the database that no commit of any process destroys.\<close>

definition lasting :: "deps \<Rightarrow> (db \<Rightarrow> bool) \<Rightarrow> bool" where
  "lasting D A \<longleftrightarrow> (\<forall>d d'. commit D d d' \<longrightarrow> A d \<longrightarrow> A d')"

text \<open>\<open>guar D A m\<close>: started where \<open>A\<close> holds, \<open>m\<close> moves the database along commits only.\<close>

definition guar :: "deps \<Rightarrow> (db \<Rightarrow> bool) \<Rightarrow> (world, 'a) state \<Rightarrow> bool" where
  "guar D A m \<longleftrightarrow> (\<forall>w. rely D w \<longrightarrow> A (database w) \<longrightarrow>
     commits D (database w) (database (snd (run_state m w))) \<and> rely D (snd (run_state m w)))"

lemma guarD:
  assumes "guar D A m" and "rely D w" and "A (database w)" and "run_state m w = (r, w')"
  shows "commits D (database w) (database w') \<and> rely D w'"
  using assms unfolding guar_def by (metis snd_conv)

lemma lasting_commits:
  assumes "lasting D A" and "commits D d d'" and "A d"
  shows "A d'"
  using assms(2,3,1) by (induction rule: rtranclp_induct) (auto simp: lasting_def)

lemma lasting_True [simp]: "lasting D (\<lambda>_. True)"
  by (simp add: lasting_def)

lemma rely_seen: "rely D w \<Longrightarrow> commits D (database w) (seen_db w)"
  by (auto simp: rely_def seen_db_def next_tick_def quiet_tick_def split: list.splits)

lemma rely_tl: "rely D w \<Longrightarrow> schedule w' = schedule w \<or> schedule w' = tl (schedule w) \<Longrightarrow> rely D w'"
  by (cases "schedule w") (auto simp: rely_def)

named_theorems guar_intros \<open>computations that guarantee commits\<close>

lemma guar_return [guar_intros]: "guar D A (State_Monad.return x)"
  by (simp add: guar_def)

lemma guar_local [guar_intros]:
  "(\<And>w. database (snd (f w)) = database w \<and> schedule (snd (f w)) = schedule w) \<Longrightarrow> guar D A (State f)"
  by (simp add: guar_def rely_def)

lemma guar_sum [guar_intros]:
  "(\<And>e. r = Inl e \<Longrightarrow> guar D A (f e)) \<Longrightarrow> (\<And>x. r = Inr x \<Longrightarrow> guar D A (g x)) \<Longrightarrow>
   guar D A (case r of Inl e \<Rightarrow> f e | Inr x \<Rightarrow> g x)"
  by (cases r) simp_all

lemma guar_option [guar_intros]:
  "guar D A m \<Longrightarrow> (\<And>x. v = Some x \<Longrightarrow> guar D A (g x)) \<Longrightarrow> guar D A (case v of None \<Rightarrow> m | Some x \<Rightarrow> g x)"
  by (cases v) simp_all

lemma guar_if [guar_intros]: "(b \<Longrightarrow> guar D A m) \<Longrightarrow> (\<not> b \<Longrightarrow> guar D A n) \<Longrightarrow> guar D A (if b then m else n)"
  by simp

text \<open>What a first step has found out may be used by the rest, as long as no commit destroys it.\<close>

lemma guar_bind_post:
  assumes m: "guar D A m"
    and post: "\<And>w r w'. rely D w \<Longrightarrow> A (database w) \<Longrightarrow> run_state m w = (r, w') \<Longrightarrow> B r (database w')"
    and k: "\<And>r. guar D (B r) (k r)"
  shows "guar D A (m \<bind> k)"
  unfolding guar_def
proof (intro allI impI)
  fix w
  assume w: "rely D w" "A (database w)"
  obtain r w1 where r: "run_state m w = (r, w1)" by fastforce
  have 1: "commits D (database w) (database w1)" "rely D w1"
    using guarD[OF m w r] by simp_all
  obtain x w2 where x: "run_state (k r) w1 = (x, w2)" by fastforce
  have "commits D (database w1) (database w2)" "rely D w2"
    using guarD[OF k 1(2) post[OF w r] x] by simp_all
  with 1 r x show "commits D (database w) (database (snd (run_state (m \<bind> k) w))) \<and> rely D (snd (run_state (m \<bind> k) w))"
    by auto
qed

lemma guar_bind:
  assumes A: "lasting D A" and m: "guar D A m" and k: "\<And>r. guar D A (k r)"
  shows "guar D A (m \<bind> k)"
proof (rule guar_bind_post[where B = "\<lambda>_. A", OF m _ k])
  show "A (database w')" if "rely D w" "A (database w)" "run_state m w = (r, w')" for w r w'
    using lasting_commits[OF A] guarD[OF m that] that(2) by blast
qed

lemmas guar_bind_True [guar_intros] = guar_bind[OF lasting_True]

lemma guar_exec:
  assumes A: "lasting D A"
    and q: "\<And>now d x d'. A d \<Longrightarrow> q now d = Inr (x, d') \<Longrightarrow> d' = d \<or> commit D d d'"
  shows "guar D A (pool_exec q)"
  unfolding guar_def
proof (intro allI impI)
  fix w
  assume w: "rely D w" "A (database w)"
  obtain r w1 where r: "run_state (pool_exec q) w = (r, w1)" by fastforce
  obtain t w0 where t: "next_tick w = (t, w0)" by fastforce
  have "A (seen_db w)" by (rule lasting_commits[OF A rely_seen[OF w(1)] w(2)])
  moreover have "database w1 = seen_db w \<or> (\<exists>now x. q now (seen_db w) = Inr (x, database w1))"
    using r by (cases rule: pool_exec_cases) auto
  ultimately have "commits D (seen_db w) (database w1)" using q by (metis r_into_rtranclp rtranclp.rtrancl_refl)
  then have "commits D (database w) (database w1)" using rely_seen[OF w(1)] by (rule rtranclp_trans[rotated])
  moreover have "run_reply (tick_reply t) q (w0\<lparr>database := others t (database w0)\<rparr>) = (r, w1)"
    using r t by (simp add: pool_exec_def)
  then have "schedule w1 = schedule w0" by (auto dest!: run_reply_cases)
  then have "rely D w1"
    using rely_tl[OF w(1), of w1] t by (auto simp: next_tick_def split: list.splits)
  ultimately show "commits D (database w) (database (snd (run_state (pool_exec q) w))) \<and> rely D (snd (run_state (pool_exec q) w))"
    using r by simp
qed

lemma guar_read [guar_intros]:
  assumes "\<And>now d x d'. q now d = Inr (x, d') \<Longrightarrow> d' = d"
  shows "guar D (\<lambda>_. True) (pool_exec q)"
  by (rule guar_exec) (auto dest: assms)

lemma guar_query [guar_intros]:
  assumes "\<And>now d x d'. q now d = Inr (x, d') \<Longrightarrow> d' = d"
  shows "guar D (\<lambda>_. True) (pool_query q wrap)"
  unfolding pool_query_def by (intro guar_intros) (auto dest: assms)

lemma guar_for_each [guar_intros]:
  "(\<And>x. x \<in> set xs \<Longrightarrow> guar D (\<lambda>_. True) (f x)) \<Longrightarrow> guar D (\<lambda>_. True) (for_each f xs)"
  by (induction xs) (auto intro!: guar_intros)

lemma guar_weaken: "guar D (\<lambda>_. True) m \<Longrightarrow> guar D A m"
  by (simp add: guar_def)

section \<open>The projector\<close>

text \<open>Every computation only consumes its schedule.\<close>

definition consumes :: "(world, 'a) state \<Rightarrow> bool" where
  "consumes m \<longleftrightarrow> (\<forall>w. set (schedule (snd (run_state m w))) \<subseteq> set (schedule w))"

named_theorems consumes_intros \<open>computations that consume their schedule\<close>

lemma consumes_return [consumes_intros]: "consumes (State_Monad.return x)"
  by (simp add: consumes_def)

lemma consumes_bind [consumes_intros]: "consumes m \<Longrightarrow> (\<And>x. consumes (k x)) \<Longrightarrow> consumes (m \<bind> k)"
  unfolding consumes_def by (simp add: split_beta) blast

lemma consumes_local [consumes_intros]: "(\<And>w. schedule (snd (f w)) = schedule w) \<Longrightarrow> consumes (State f)"
  by (simp add: consumes_def)

lemma consumes_sum [consumes_intros]:
  "(\<And>e. consumes (f e)) \<Longrightarrow> (\<And>x. consumes (g x)) \<Longrightarrow> consumes (case r of Inl e \<Rightarrow> f e | Inr x \<Rightarrow> g x)"
  by (cases r) simp_all

lemma consumes_if [consumes_intros]: "consumes m \<Longrightarrow> consumes n \<Longrightarrow> consumes (if b then m else n)"
  by simp

lemma run_reply_schedule: "schedule (snd (run_reply rep q w)) = schedule w"
  using run_reply_cases[of rep q w] by (cases "run_reply rep q w") fastforce

lemma next_tick_schedule: "set (schedule (snd (next_tick w))) \<subseteq> set (schedule w)"
  by (auto simp: next_tick_def split: list.splits)

lemma consumes_exec [consumes_intros]: "consumes (tx_exec q)" "consumes (pool_exec q)"
  unfolding consumes_def tx_exec_def pool_exec_def
  using next_tick_schedule by (simp_all add: split_beta run_reply_schedule)

lemma consumes_tx_query [consumes_intros]: "consumes (tx_query q wrap)"
  unfolding tx_query_def by (intro consumes_intros)

lemma consumes_for_each [consumes_intros]: "(\<And>x. consumes (f x)) \<Longrightarrow> consumes (for_each f xs)"
  by (induction xs) (auto intro!: consumes_intros)

lemma consumes_outcome [consumes_intros]:
  "consumes a \<Longrightarrow> (\<And>e. consumes (f e)) \<Longrightarrow> (\<And>s. consumes (g s)) \<Longrightarrow>
   consumes (case r of Tx_ok \<Rightarrow> a | Tx_err e \<Rightarrow> f e | Tx_panic s \<Rightarrow> g s)"
  by (cases r) simp_all

lemma consumes_InTx [consumes_intros]: "consumes fn \<Longrightarrow> consumes (InTx fn)"
  unfolding InTx_def rollback_to_def by (intro consumes_intros) simp_all

lemma consumes_applyEvent [consumes_intros]: "consumes (applyEvent ulid K P seq e)"
  unfolding applyEvent_def projectInvoicePaid_def projectPaymentReceived_def projectChannelOpened_def matchMerchantOrder_def
    enqueueDeliveries_def matchingEndpoints_def enqueueOne_def
  by (intro consumes_intros)

lemma consumes_Save: "consumes (Save ulid K P p seq)"
  unfolding Save_def save_body_def by (intro consumes_intros)

lemma guar_Save [guar_intros]: "guar D (\<lambda>_. True) (Save (d_ulid D) K (d_postgres D) p seq)"
  unfolding guar_def
proof (intro allI impI)
  fix w
  assume w: "rely D w"
  obtain r p' w' where run: "run_state (Save (d_ulid D) K (d_postgres D) p seq) w = ((r, p'), w')" by (metis prod.exhaust)
  then have "commits D (seen_db w) (database w')"
    by (cases rule: Save_outcomes) (auto intro!: r_into_rtranclp c_save)
  with rely_seen[OF w] have "commits D (database w) (database w')" by (rule rtranclp_trans)
  moreover have "rely D w'"
    using consumes_Save[of "d_ulid D" K "d_postgres D" p seq] w run unfolding consumes_def rely_def by (metis snd_conv subsetD)
  ultimately show "commits D (database w) (database (snd (run_state (Save (d_ulid D) K (d_postgres D) p seq) w))) \<and>
      rely D (snd (run_state (Save (d_ulid D) K (d_postgres D) p seq) w))"
    using run by simp
qed

lemma guar_Load [guar_intros]: "guar D (\<lambda>_. True) Load"
  unfolding Load_def by (intro guar_intros) (auto simp: on_schema_def split: if_splits option.splits)

section \<open>The outbox\<close>

lemma guar_write: "(\<And>now d x d'. q now d = Inr (x, d') \<Longrightarrow> commit D d d') \<Longrightarrow> guar D (\<lambda>_. True) (pool_exec q)"
  by (rule guar_exec) simp_all

lemma guar_ClaimDue [guar_intros]: "guar D (\<lambda>_. True) (ClaimDue s locked limit)"
  unfolding ClaimDue_def by (intro guar_intros guar_write) (auto intro: c_claim guar_intros)

lemma guar_marks [guar_intros]:
  "guar D (\<lambda>_. True) (MarkSucceeded i)" "guar D (\<lambda>_. True) (MarkFailed P i t msg)" "guar D (\<lambda>_. True) (MarkDead i)"
  unfolding MarkSucceeded_def MarkFailed_def MarkDead_def
  by (intro guar_intros guar_write; erule c_succeed c_fail c_dead)+

lemma guar_Requeue [guar_intros]: "guar D (\<lambda>_. True) Requeue"
  unfolding Requeue_def by (intro guar_intros guar_write) (rule c_requeue)

lemma guar_sweep [guar_intros]: "guar D (\<lambda>_. True) (sweep sigs)"
  by (induction sigs rule: sweep.induct) (auto intro!: guar_intros)

section \<open>The handlers\<close>

lemma guar_respond [guar_intros]: "guar D A (internal_error e)" "guar D A (writeErr e)"
  by (simp_all add: internal_error_def writeErr_def guar_intros)

lemma guar_sources [guar_intros]:
  "guar D A id_New" "guar D A (NewInvoice N p)" "guar D A (SendPayment N q)"
  by (simp_all add: id_New_def NewInvoice_def SendPayment_def guar_intros)

lemma guar_random [guar_intros]:
  "guar D (\<lambda>_. True) NewAPIKey" "guar D (\<lambda>_. True) NewWebhookSecret"
  by (auto simp: NewAPIKey_def NewWebhookSecret_def randHex_def rand_Read_def intro!: guar_intros)

lemma guar_query_handlers [guar_intros]:
  "guar D (\<lambda>_. True) (listPayments F P r)" "guar D (\<lambda>_. True) (getPayment F P r)" "guar D (\<lambda>_. True) (listChannels F P r)"
  "guar D (\<lambda>_. True) (getChannel F P r)" "guar D (\<lambda>_. True) (listEvents F P r)" "guar D (\<lambda>_. True) (statsPayments F P r)"
  unfolding listPayments_def getPayment_def listChannels_def getChannel_def listEvents_def statsPayments_def
    with_cursor_def with_range_def reply_json_def reply_found_def bad_cursor_def
    Payments_def PaymentByHash_def Channels_def ChannelByID_def Events_def StatsPayments_def reading_def Let_def
  by (intro guar_intros; auto simp: on_schema_def split: if_splits option.splits)+

lemma guar_webhook_handlers [guar_intros]:
  "guar D (\<lambda>_. True) (create (d_ulid D) r)" "guar D (\<lambda>_. True) (list_endpoints n)" "guar D (\<lambda>_. True) (remove_endpoint r)"
  "guar D (\<lambda>_. True) (replay r)"
  unfolding create_def list_endpoints_def remove_endpoint_def replay_def Let_def
  by (intro guar_intros guar_write; auto simp: on_schema_def intro: c_subscribe c_unsubscribe c_replay split: if_splits)+

lemma guar_test [guar_intros]: "guar D (\<lambda>_. True) (test_endpoint enc (d_postgres D) r)"
proof -
  have stmts: "guar D (\<lambda>_. True) (pool_exec (insert_test_event (d_postgres D) e i p))"
    "guar D (\<lambda>_. True) (pool_exec (insert_test_delivery (d_postgres D) l i e u k p))" for e i p l u k
    by (rule guar_write, erule c_test_event, rule guar_write, erule c_test_delivery)
  show ?thesis
    unfolding test_endpoint_def Let_def split_beta
    by (intro guar_bind_True stmts guar_sum guar_if guar_respond guar_return guar_sources, rule guar_read)
       (auto simp: on_schema_def split: if_splits option.splits)
qed

section \<open>The merchant backend\<close>

lemma guar_lookups [guar_intros]:
  "guar D (\<lambda>_. True) (GetOrder F P m x)" "guar D (\<lambda>_. True) (orderByExternalID F P m e)" "guar D (\<lambda>_. True) (payerPubkey h)"
  unfolding GetOrder_def orderByExternalID_def scanOrder_def payerPubkey_def Let_def
  by (intro guar_intros; auto simp: on_schema_def split: if_splits option.splits)+

lemma guar_CreateOrder [guar_intros]: "guar D (\<lambda>_. True) (CreateOrder F P N merchantID extID amountHex asset)"
proof -
  have insert: "guar D (\<lambda>_. True) (pool_exec (insert_order_stmt (order_ins i merchantID extID h a s)))" for i h a s
    by (rule guar_exec) (auto intro: c_order)
  have "guar D (\<lambda>_. True) (place_order F P merchantID extID a s iv)" for a s iv
    unfolding place_order_def
    by (intro guar_bind_True insert guar_sum guar_if guar_return guar_sources guar_lookups)
  then show ?thesis
    unfolding CreateOrder_def mint_order_def Let_def by (auto intro!: guar_intros split: prod.splits option.splits)
qed

lemma guar_reports [guar_intros]:
  "guar D (\<lambda>_. True) (Settlement F P merchantID period)"
  "guar D (\<lambda>_. True) (Export F P X merchantID period format)"
proof -
  have "guar D (\<lambda>_. True) (persist_settlement F merchantID period l)" for l
    unfolding persist_settlement_def Let_def by (intro guar_bind_True guar_sum guar_return guar_sources guar_write) (erule c_settle)
  then show "guar D (\<lambda>_. True) (Settlement F P merchantID period)"
    unfolding Settlement_def Let_def by (intro guar_intros) (auto simp: on_schema_def split: if_splits)
  show "guar D (\<lambda>_. True) (Export F P X merchantID period format)"
    unfolding Export_def exportRows_def by (intro guar_intros) (auto simp: on_schema_def split: if_splits)
qed

lemma reconcile_loop_consistent:
  assumes "run_consistent period rc" and "reconcile_loop F P rows (rc, disc) = (rc', disc')"
  shows "run_consistent period (rc'\<lparr>rec_DiscrepancyTotal := x\<rparr>)"
  using assms
proof (induction F P rows "(rc, disc)" arbitrary: rc disc rule: reconcile_loop.induct)
  case (2 F P orderID matched amount rows rc disc)
  show ?case
    by (cases matched; rule 2(1)) (use 2(2,3) in \<open>auto simp: run_consistent_def\<close>)
qed (simp add: run_consistent_def)

lemma guar_Reconciliation [guar_intros]: "guar D (\<lambda>_. True) (Reconciliation F P merchantID period)"
proof -
  let ?rc0 = "\<lparr>rec_Period = period, rec_Matched = 0, rec_UnmatchedCount = 0, rec_DiscrepancyTotal = '''', rec_UnmatchedOrders = []\<rparr>"
  have "run_consistent period ((fst (reconcile_loop F P rows (?rc0, 0)))\<lparr>rec_DiscrepancyTotal := x\<rparr>)" for rows x
    by (rule reconcile_loop_consistent[where disc' = "snd (reconcile_loop F P rows (?rc0, 0))"]) (simp_all add: run_consistent_def)
  then show ?thesis
    unfolding Reconciliation_def Let_def split_beta
    by (intro guar_bind_True guar_sum guar_return guar_sources guar_query guar_write)
       (auto simp: on_schema_def intro!: c_reconcile split: if_splits)
qed

lemma guar_Provision [guar_intros]: "guar D (\<lambda>_. True) (Provision name asset)"
proof -
  have key: "h = HashAPIKey k" if "run_state NewAPIKey w = ((k, h), w')" for k h w w'
    using that by (auto simp: NewAPIKey_def split: prod.splits)
  have insert: "guar D (\<lambda>_. hash = HashAPIKey k) (pool_exec (insert_merchant_stmt (\<lambda>now. \<lparr>m_id = i, m_name = name,
      m_api_key_hash = hash, m_settlement_asset = a, m_created_at = now\<rparr>)))" if "a \<noteq> []" for i k hash a
    by (rule guar_exec) (use that in \<open>auto simp: lasting_def intro: c_provision\<close>)
  show ?thesis
    unfolding Provision_def Let_def split_beta
    by (intro guar_bind_True guar_sources guar_bind_post[where B = "\<lambda>r _. snd r = HashAPIKey (fst r)" and m = NewAPIKey]
        guar_random guar_bind[where A = "\<lambda>_. x = HashAPIKey y" for x y] guar_sum guar_return insert)
       (auto simp: lasting_def dest: key)
qed

text \<open>A paid order stays paid until it is refunded, and a recorded refund stays recorded.\<close>

lemma save_keeps_refundable:
  assumes "refundable orderID d"
  shows "refundable orderID (save_effect ulid K P es seq now d)"
proof -
  obtain x where x: "x \<in> set (merchant_orders d)" "o_id x = orderID" "o_status x \<in> {''paid'', ''refunded''}"
    using assms by (auto simp: refundable_def)
  then have "match_order P dats x = x" for dats by (intro match_order_not_pending) auto
  with x(1) have "x \<in> set (merchant_orders (save_effect ulid K P es seq now d))"
    unfolding save_effect_tables(5)[OF refl] match_orders_map by (force intro: rev_image_eqI)
  with x(2,3) show ?thesis by (auto simp: refundable_def)
qed

lemma refundable_mark:
  assumes "refundable orderID d"
  shows "refundable orderID (d\<lparr>merchant_orders :=
    update_where (\<lambda>x. o_id x = i) (\<lambda>x. x\<lparr>o_status := ''refunded''\<rparr>) (merchant_orders d)\<rparr>)"
proof -
  obtain x where x: "x \<in> set (merchant_orders d)" "o_id x = orderID" "o_status x \<in> {''paid'', ''refunded''}"
    using assms by (auto simp: refundable_def)
  then have "(if o_id x = i then x\<lparr>o_status := ''refunded''\<rparr> else x) \<in> set (update_where (\<lambda>x. o_id x = i)
      (\<lambda>x. x\<lparr>o_status := ''refunded''\<rparr>) (merchant_orders d))" by (auto simp: update_where_def)
  with x(2,3) show ?thesis by (auto simp: refundable_def split: if_splits intro: bexI[rotated])
qed

lemma lasting_refundable: "lasting D (refundable orderID)"
  unfolding lasting_def
proof (intro allI impI)
  fix d d'
  assume "commit D d d'" and A: "refundable orderID d"
  then show "refundable orderID d'"
  proof cases
    case c_save
    with A show ?thesis by (simp add: save_keeps_refundable)
  next
    case (c_refunded i now u)
    then have "d' = d\<lparr>merchant_orders := update_where (\<lambda>x. o_id x = i) (\<lambda>x. x\<lparr>o_status := ''refunded''\<rparr>) (merchant_orders d)\<rparr>"
      by (auto simp: mark_refunded_stmt_def on_schema_def split: if_splits)
    with A show ?thesis by (simp add: refundable_mark)
  qed (use A in \<open>auto simp: write_stmts migration_up_def on_schema_def Let_def refundable_def split: if_splits option.splits\<close>)
qed

lemma lasting_recorded: "lasting D (refund_recorded orderID)"
  unfolding lasting_def
proof (intro allI impI)
  fix d d'
  assume "commit D d d'" and A: "refund_recorded orderID d"
  then show "refund_recorded orderID d'"
  proof cases
    case (c_save es K seq now)
    with A show ?thesis using save_effect_tables(7)[OF c_save(1)] by (simp add: refund_recorded_def untouched'_def)
  qed (use A in \<open>auto simp: write_stmts migration_up_def on_schema_def Let_def refund_recorded_def split: if_splits option.splits\<close>)
qed

lemma read_keeps_db:
  assumes "\<And>now d x d'. q now d = Inr (x, d') \<Longrightarrow> d' = d" and "run_state (pool_exec q) w = (r, w')"
  shows "database w' = seen_db w"
  using assms(2) by (cases rule: pool_exec_cases) (auto dest: assms(1))

lemma GetOrder_paid:
  assumes "run_state (GetOrder F P merchantID orderID) w = (Inr ord, w')" and "or_Status ord = ''paid''"
  shows "refundable orderID (database w')"
proof -
  let ?q = "on_schema 3 (\<lambda>_ d. case find (\<lambda>x. o_id x = orderID \<and> o_merchant_id x = merchantID) (merchant_orders d) of
    None \<Rightarrow> Inl ErrNoRows | Some x \<Rightarrow> Inr (x, d))"
  obtain r w1 where r: "run_state (pool_exec ?q) w = (r, w1)" by fastforce
  have db: "database w1 = seen_db w"
    by (rule read_keeps_db[OF _ r]) (auto simp: on_schema_def split: if_splits option.splits)
  have "w' = w1" using assms(1) r by (auto simp: GetOrder_def scanOrder_def split: sum.splits if_splits)
  moreover from assms(1)[unfolded GetOrder_def] obtain x where
    "find (\<lambda>x. o_id x = orderID \<and> o_merchant_id x = merchantID) (merchant_orders (seen_db w)) = Some x" "ord = scan_order F P x"
    by (rule scanOrder_seen)
  ultimately show ?thesis
    using assms(2) db by (auto simp: refundable_def scan_order_def find_Some_iff)
qed

lemma insert_refund_recorded:
  assumes "run_state (pool_exec (insert_refund_stmt (refund_ins i orderID a s reason h))) w = (Inr u, w')"
  shows "refund_recorded orderID (database w')"
  using assms
proof (cases rule: pool_exec_cases)
  case (effect x d)
  from effect(1) have "refunds d = refunds (seen_db w) @ [refund_ins i orderID a s reason h (clock w)]"
    by (auto simp: insert_refund_stmt_def on_schema_def Let_def split: if_splits)
  with effect(2) show ?thesis by (simp add: refund_recorded_def refund_ins_def)
qed simp

lemma guar_record_refund: "guar D (refundable orderID) (record_refund F orderID amount asset reason hash)"
proof -
  let ?ins = "\<lambda>i. pool_exec (insert_refund_stmt (refund_ins i orderID amount asset reason hash))"
  have insert: "guar D (refundable orderID) (?ins i)" for i
    by (rule guar_exec[OF lasting_refundable]) (auto intro: c_refund)
  have mark: "guar D (refund_recorded orderID) (pool_exec (mark_refunded_stmt orderID))"
    by (rule guar_exec[OF lasting_recorded]) (auto intro: c_refunded)
  show ?thesis
    unfolding record_refund_def
    by (rule guar_bind[OF lasting_refundable guar_sources(1)],
        rule guar_bind_post[OF insert, where B = "\<lambda>r d. case r of Inl _ \<Rightarrow> True | Inr _ \<Rightarrow> refund_recorded orderID d"])
       (auto dest: insert_refund_recorded intro!: guar_intros guar_bind[OF lasting_recorded] mark split: sum.splits)
qed

lemma guar_Refund [guar_intros]: "guar D (\<lambda>_. True) (Refund F P N merchantID orderID amountHex reason)"
proof -
  have pay: "guar D (refundable orderID) (payerPubkey h)" for h by (rule guar_weaken) (rule guar_lookups)
  show ?thesis
    unfolding Refund_def
    by (rule guar_bind_post[where B = "\<lambda>r d. case r of Inl _ \<Rightarrow> True | Inr ord \<Rightarrow> or_Status ord = ''paid'' \<longrightarrow> refundable orderID d"])
       (auto intro!: guar_intros guar_bind[OF lasting_refundable] pay guar_record_refund dest: GetOrder_paid
         split: sum.splits prod.splits option.splits)
qed

section \<open>The whole program\<close>

lemma guar_authMerchant: "(\<And>m. guar D (\<lambda>_. True) (h m r)) \<Longrightarrow> guar D (\<lambda>_. True) (authMerchant h r)"
  unfolding authMerchant_def Let_def
  by (intro guar_intros) (auto simp: on_schema_def split: if_splits option.splits)

lemma guar_merchant_handlers [guar_intros]:
  "guar D (\<lambda>_. True) (createOrder F P N m r)" "guar D (\<lambda>_. True) (getOrder F P m r)" "guar D (\<lambda>_. True) (refund_handler F P N m r)"
  "guar D (\<lambda>_. True) (settlements_handler F P m r)" "guar D (\<lambda>_. True) (reconciliation_handler F P m r)"
  "guar D (\<lambda>_. True) (export_handler F P X m r)"
  unfolding createOrder_def getOrder_def refund_handler_def settlements_handler_def reconciliation_handler_def
    export_handler_def with_period_def Let_def split_beta
  by (intro guar_intros)+

lemma guar_Router: "(k, h) \<in> set (Router D) \<Longrightarrow> guar D (\<lambda>_. True) (h r)"
  by (auto simp: route_defs healthz_def Let_def intro!: guar_intros guar_authMerchant)

text \<open>A process that migrates the schema while others run.\<close>

lemma guar_goose [guar_intros]:
  assumes "goose_ok up"
  shows "guar D (\<lambda>_. True) up"
  unfolding guar_def
proof (intro allI impI)
  fix w
  assume w: "rely D w"
  let ?w' = "snd (run_state up w)"
  have step: "commits D d d'" if "migrate_step (schedule w) d d'" for d d'
    using w that by (auto simp: migrate_step_def rely_def intro: c_migrate)
  have "commits D d d'" if "(migrate_step (schedule w))\<^sup>*\<^sup>* d d'" for d d'
    using that by (induction rule: rtranclp_induct) (auto dest: step intro: rtranclp_trans)
  moreover have "(migrate_step (schedule w))\<^sup>*\<^sup>* (database w) (database ?w')" "set (schedule ?w') \<subseteq> set (schedule w)"
    using assms by (simp_all add: goose_ok_def migrates_def)
  ultimately show "commits D (database w) (database ?w') \<and> rely D ?w'"
    using w by (auto simp: rely_def)
qed

lemma guar_Migrate [guar_intros]: "goose_ok up \<Longrightarrow> guar D (\<lambda>_. True) (Migrate sql_Open set_dialect up dsn)"
  unfolding Migrate_def by (intro guar_intros)

text \<open>Everything the binary runs against its database, and the passing of time.\<close>

inductive operation :: "deps \<Rightarrow> (world \<Rightarrow> world) \<Rightarrow> bool" for D where
  op_request: "(k, h) \<in> set (Router D) \<Longrightarrow> operation D (\<lambda>w. snd (run_state (h r) w))"
| op_load: "operation D (\<lambda>w. snd (run_state Load w))"
| op_save: "operation D (\<lambda>w. snd (run_state (Save (d_ulid D) K (d_postgres D) p seq) w))"
| op_claim: "operation D (\<lambda>w. snd (run_state (ClaimDue s locked limit) w))"
| op_succeeded: "operation D (\<lambda>w. snd (run_state (MarkSucceeded i) w))"
| op_failed: "operation D (\<lambda>w. snd (run_state (MarkFailed (d_postgres D) i t msg) w))"
| op_dead: "operation D (\<lambda>w. snd (run_state (MarkDead i) w))"
| op_sweep: "operation D (\<lambda>w. snd (run_state (sweep sigs) w))"
| op_provision: "operation D (\<lambda>w. snd (run_state (Provision name asset) w))"
| op_migrate: "goose_ok up \<Longrightarrow> operation D (\<lambda>w. snd (run_state (Migrate sql_Open set_dialect up dsn) w))"
| op_wait: "operation D (\<lambda>w. w\<lparr>clock := t\<rparr>)"

lemma operation_commits:
  assumes "operation D f" and "rely D w"
  shows "commits D (database w) (database (f w)) \<and> rely D (f w)"
proof -
  have run: "commits D (database w) (database (snd (run_state m w))) \<and> rely D (snd (run_state m w))"
    if "guar D (\<lambda>_. True) m" for m :: "(world, 'a) state"
    using that assms(2) by (simp add: guar_def)
  show ?thesis using assms(1) 
  proof cases
    case op_wait
    with assms(2) show ?thesis by (simp add: rely_def)
  qed (auto intro!: run guar_intros guar_Router)
qed

end
