(* ===== verification/Webhook_Spec.thy ===== *)
theory Webhook_Spec
  imports Outbox Samples
begin

text \<open>
  What the webhook layer promises the library's dispatcher and its clients: bounded backoff, exclusive
  claims in order of due time, exact attempt counts, and the effects of the endpoint handlers.
\<close>

section \<open>Backoff\<close>

lemma sint_double:
  assumes "0 < sint d" and "sint d < 2 ^ 62"
  shows "sint (d * 2 :: 64 word) = 2 * sint d"
proof -
  have "sint (d * 2) = signed_take_bit 63 (sint d * 2)"
    by (simp add: sint_word_ariths)
  also have "\<dots> = sint d * 2" using assms by (simp add: signed_take_bit_int_eq_self)
  finally show ?thesis by simp
qed

lemma sint_backoff_loop:
  assumes "0 < sint d" and "sint d \<le> sint mx" and "sint mx < 2 ^ 62"
  shows "sint (backoff_loop mx n d) = min (sint mx) (sint d * 2 ^ n)"
  using assms(1,2)
proof (induction n arbitrary: d)
  case 0
  then show ?case by simp
next
  case (Suc n)
  have dbl: "sint (d * 2) = 2 * sint d" using Suc.prems assms(3) by (intro sint_double) auto
  show ?case
  proof (cases "sint mx \<le> 2 * sint d")
    case True
    moreover have "2 * sint d \<le> sint d * 2 ^ Suc n" using Suc.prems(1) by simp
    ultimately show ?thesis by (simp add: Let_def word_sle_eq dbl)
  next
    case False
    have "sint (backoff_loop mx n (d * 2)) = min (sint mx) (sint (d * 2) * 2 ^ n)"
      using Suc.prems False dbl by (intro Suc.IH) auto
    with False show ?thesis by (simp add: Let_def word_sle_eq dbl mult.assoc)
  qed
qed

lemma sint_word_of_int64: "- (2 ^ 63) \<le> i \<Longrightarrow> i < 2 ^ 63 \<Longrightarrow> sint (word_of_int i :: 64 word) = i"
  by (simp add: sint_sbintrunc' signed_take_bit_int_eq_self)

text \<open>C33: the retry delay. For a positive base of at most \<open>max\<close>, \<open>max\<close> below 2 to the 62 ns, and every attempt
  number from 1, \<open>expJitter\<close> returns a positive duration in [d/2, d] for d = min(max, base * 2^(attempt-1)):
  the doubling never overflows and the delay never exceeds \<open>max\<close>, whatever the random source returns
  within its range.\<close>

theorem expJitter_bounds:
  assumes "0 < sint base" and "sint base \<le> sint mx" and "sint mx < 2 ^ 62" and "1 \<le> attempt"
    and "\<forall>n > 0. 0 \<le> rnd n \<and> rnd n < n" and "D = min (sint mx) (sint base * 2 ^ nat (attempt - 1))"
  shows "D div 2 \<le> sint (expJitter rnd base mx attempt) \<and> sint (expJitter rnd base mx attempt) \<le> D \<and>
    0 < sint (expJitter rnd base mx attempt)"
proof -
  define d where "d = backoff_loop mx (nat (attempt - 1)) base"
  have d: "sint d = D" using sint_backoff_loop[OF assms(1-3)] assms(6) by (simp add: d_def)
  have "0 < D" "D < 2 ^ 62" using assms by auto
  let ?half = "word_of_int (fst (QuoRem (sint d) 2)) :: 64 word"
  have quo: "fst (QuoRem (sint d) 2) = D div 2" using \<open>0 < D\<close> d by (simp add: QuoRem_def Let_def)
  then have half: "sint ?half = D div 2" using \<open>0 < D\<close> \<open>D < 2 ^ 62\<close> by (simp add: sint_word_of_int64)
  show ?thesis
  proof (cases "D div 2 = 0")
    case True
    with half d \<open>0 < D\<close> show ?thesis by (simp add: expJitter_def Let_def flip: d_def)
  next
    case False
    then have pos: "\<not> D div 2 \<le> 0" using \<open>0 < D\<close> by linarith
    define r where "r = rnd (D div 2 + 1)"
    have r: "0 \<le> r" "r \<le> D div 2" using assms(5)[rule_format, of "D div 2 + 1"] \<open>0 < D\<close> by (simp_all add: r_def)
    have "?half + word_of_int r = word_of_int (D div 2 + r)"
      using quo by simp
    moreover have "sint (word_of_int (D div 2 + r) :: 64 word) = D div 2 + r"
      using r \<open>D < 2 ^ 62\<close> \<open>0 < D\<close> by (intro sint_word_of_int64) auto
    ultimately have "sint (?half + word_of_int r) = D div 2 + r" by (simp only:)
    moreover have "expJitter rnd base mx attempt = ?half + word_of_int r"
      using pos half by (simp add: expJitter_def Let_def r_def flip: d_def)
    ultimately show ?thesis using r False \<open>0 < D\<close> by auto
  qed
qed

theorem expJitter_bounds_witness:
  "300000000000 div 2 \<le> sint (Backoff (dispatcher_of (\<lambda>n. n - 1) 8 4) 12) \<and>
   sint (Backoff (dispatcher_of (\<lambda>n. n - 1) 8 4) 12) \<le> 300000000000"
proof -
  have J: "300000000000 div 2 \<le> sint (expJitter (\<lambda>n. n - 1) base mx 12) \<and> sint (expJitter (\<lambda>n. n - 1) base mx 12) \<le> 300000000000"
    if "sint base = 1000000000" and "sint mx = 300000000000" for base mx :: "64 word"
  proof -
    have "(300000000000 :: int) = min (sint mx) (sint base * 2 ^ nat (12 - 1))" unfolding that by simp
    from expJitter_bounds[OF _ _ _ _ _ this, of "\<lambda>n. n - 1"] show ?thesis unfolding that by auto
  qed
  have "sint (word_of_int Second :: 64 word) = 1000000000" "sint (word_of_int (5 * Minute) :: 64 word) = 300000000000"
    by (subst sint_word_of_int64; simp add: Second_def Minute_def)+
  from J[OF this] show ?thesis unfolding dispatcher_of_def dispatcher.simps .
qed

section \<open>Claims\<close>

interpretation due_order: total_preorder due_before
  by unfold_locales (auto simp: due_before_def)

lemma scan_all_mem: "scan_all f rs = Inr vs \<Longrightarrow> v \<in> set vs \<Longrightarrow> \<exists>r \<in> set rs. f r = Inr v"
  by (induction rs arbitrary: vs) (auto split: sum.splits)

lemma scan_all_ok: "(\<And>r. r \<in> set rs \<Longrightarrow> f r = Inr (g r)) \<Longrightarrow> scan_all f rs = Inr (map g rs)"
  by (induction rs) simp_all

lemma scan_delivery_ID: "scan_delivery r = Inr kd \<Longrightarrow> kd_ID kd = dl_id (fst r)"
  by (auto simp: scan_delivery_def split: prod.splits option.splits)

text \<open>Whatever the schedule, a delivery \<open>ClaimDue\<close> returns was claimed by its statement.\<close>

lemma ClaimDue_ids:
  assumes "run_state (ClaimDue s locked limit) w = ((out, err), w')" and "kd \<in> set out"
  shows "kd_ID kd \<in> fst (claim_ids s (limit, locked) (clock w) (seen_db w))"
proof -
  obtain r w1 where r: "run_state (pool_exec (claim_stmt s limit locked)) w = (r, w1)" by fastforce
  with assms obtain rows where rows: "r = Inr rows" by (cases r) (auto simp: ClaimDue_def)
  with r have stmt: "\<exists>d. claim_stmt s limit locked (clock w) (seen_db w) = Inr (rows, d)"
    by (cases rule: pool_exec_cases) auto
  from assms r rows obtain out' where out: "scan_all scan_delivery rows = Inr out'" "out = out'"
    by (auto simp: ClaimDue_def split: sum.splits prod.splits)
  with assms(2) scan_all_mem[OF out(1), of kd] obtain row where
    row: "row \<in> set rows" "scan_delivery row = Inr kd" by blast
  from stmt obtain d where "claim_stmt s limit locked (clock w) (seen_db w) = Inr (rows, d)" by blast
  then have "fst (claim_ids s (limit, locked) (clock w) (seen_db w)) = dl_id ` fst ` set rows"
    by (simp add: claim_ids_def)
  with row(1) scan_delivery_ID[OF row(2)] show ?thesis by simp
qed

lemma claim_effect: "snd (claim_ids s (limit, locked) now d) = effect (claim_stmt s limit locked) now d"
  by (auto simp: claim_ids_def effect_def split: sum.splits)

text \<open>C6: no two workers hold the same delivery. After \<open>ClaimDue\<close> has returned a delivery, and while every
  process may claim, mark other deliveries, sweep, replay others and enqueue, no \<open>ClaimDue\<close> returns it
  again before its lease has run out, unless it was marked or replayed itself.\<close>

theorem claims_are_exclusive:
  assumes "run_state (ClaimDue s locked limit) w = ((out, err), w')" and "kd \<in> set out"
    and "outbox_run s tr (clock w, effect (claim_stmt s limit locked) (clock w) (seen_db w)) (t, seen_db v)"
    and "\<forall>(u, op) \<in> set tr. u < clock w + lease s \<and> \<not> addresses op (kd_ID kd)"
    and "run_state (ClaimDue s locked' limit') v = ((out', err'), v')"
  shows "kd_ID kd \<notin> kd_ID ` set out'"
proof
  assume "kd_ID kd \<in> kd_ID ` set out'"
  then obtain kd' where kd': "kd' \<in> set out'" "kd_ID kd' = kd_ID kd" by (metis imageE)
  obtain ids d1 where c1: "claim_ids s (limit, locked) (clock w) (seen_db w) = (ids, d1)" by fastforce
  obtain ids' d2 where c2: "claim_ids s (limit', locked') (clock v) (seen_db v) = (ids', d2)" by fastforce
  have "kd_ID kd \<in> ids" using ClaimDue_ids[OF assms(1,2)] c1 by simp
  moreover have "seen_db v = fold (\<lambda>(now, op) st. op_effect s op now st) tr d1"
    using outbox_run_fold[OF assms(3)] c1 claim_effect[of s limit locked "clock w" "seen_db w"] by simp
  ultimately have "kd_ID kd \<notin> ids'"
    using outbox.exclusive[OF c1 _ assms(4), of "(limit', locked')" "clock v" ids' d2] c2 by simp
  with ClaimDue_ids[OF assms(5) kd'(1)] kd'(2) c2 show False by simp
qed

definition sample_delivery :: "string \<Rightarrow> time \<Rightarrow> delivery_row" where
  "sample_delivery i t = new_delivery i ''ep1'' ''e1'' ''https://a.test/h'' ''s'' ''{}'' t"

definition sample_outbox :: db where
  "sample_outbox = sample_db\<lparr>events := [event_ins sample_kevents sample_postgres sample_invoice ''{}'' 1 0],
     webhook_deliveries := [sample_delivery ''d1'' 300, sample_delivery ''d2'' 200]\<rparr>"

theorem claims_are_exclusive_witness:
  "\<exists>out err w' out' err' v'.
     run_state (ClaimDue NewStore (\<lambda>_. False) 1) (sample_world sample_outbox) = ((out, err), w') \<and>
     run_state (ClaimDue NewStore (\<lambda>_. False) 5) w' = ((out', err'), v') \<and>
     map kd_ID out = [''d2''] \<and> ''d2'' \<notin> kd_ID ` set out'"
proof -
  let ?w = "sample_world sample_outbox"
  obtain out err w' where run: "run_state (ClaimDue NewStore (\<lambda>_. False) 1) ?w = ((out, err), w')"
    by (metis prod.exhaust)
  have ev: "map kd_ID out = [''d2''] \<and> seen_db w' = effect (claim_stmt NewStore 1 (\<lambda>_. False)) (clock ?w) (seen_db ?w)"
    using run
    by (auto simp: ClaimDue_def io_simps sample_world_def claim_stmt_def on_schema_def sample_outbox_def sample_db_def
        empty_db_def claimed_rows_def claim_rows_def claimable_def due_def due_before_def sample_delivery_def
        new_delivery_def update_where_def take_lease_def row_simps event_ins_def sample_invoice_def
        scan_delivery_def effect_def)
  then obtain kd where kd: "kd \<in> set out" "kd_ID kd = ''d2''" by (cases out) auto
  obtain out' err' v' where run': "run_state (ClaimDue NewStore (\<lambda>_. False) 5) w' = ((out', err'), v')"
    by (metis prod.exhaust)
  have "''d2'' \<notin> kd_ID ` set out'"
    using claims_are_exclusive[OF run kd(1) _ _ run', of "[]" "clock ?w"] ev kd(2) run_nil by simp
  with run run' conjunct1[OF ev] show ?thesis by (intro exI conjI)
qed

section \<open>What a claim returns\<close>

lemma sorted_claimable: "sorted_wrt due_before (claimable n locked now t)"
  unfolding claimable_def by (intro sorted_wrt_take sorted_wrt_filter due_order.sorted_sort_by)

lemma claim_rest_later:
  assumes "dl \<in> set t" and "due now dl" and "\<not> locked (dl_id dl)" and "dl \<notin> set (claimable n locked now t)"
    and "x \<in> set (claimable n locked now t)"
  shows "dl_next_attempt_at x \<le> dl_next_attempt_at dl"
proof -
  let ?c = "filter (\<lambda>dl. \<not> locked (dl_id dl)) (sort_by due_before (filter (due now) t))"
  have "sorted_wrt due_before (take n ?c @ drop n ?c)"
    unfolding append_take_drop_id by (intro sorted_wrt_filter due_order.sorted_sort_by)
  moreover have "x \<in> set (take n ?c)" using assms(5) by (simp add: claimable_def)
  moreover have "dl \<in> set (take n ?c @ drop n ?c)"
    unfolding append_take_drop_id using assms(1-3) by simp
  then have "dl \<in> set (drop n ?c)"
    using assms(4) unfolding claimable_def set_append by blast
  ultimately have "due_before x dl" unfolding sorted_wrt_append by blast
  then show ?thesis by (simp add: due_before_def)
qed

lemma distinct_claimable: "keyed dl_id t \<Longrightarrow> distinct (map dl_id (claimable n locked now t))"
  unfolding claimable_def keyed_def take_map[symmetric]
  by (intro distinct_take distinct_map_filter) (simp add: distinct_map_filter)

lemma length_claimable:
  "length (claimable n locked now t) = min n (length (filter (\<lambda>dl. due now dl \<and> \<not> locked (dl_id dl)) t))"
proof -
  have "length (filter Q (insort_by le x xs)) = length (filter Q (x # xs))" for Q le and x :: delivery_row and xs
    by (induction xs) auto
  then have "length (filter Q (sort_by le xs)) = length (filter Q xs)" for Q le and xs :: "delivery_row list"
    by (induction xs) auto
  then show ?thesis by (simp add: claimable_def conj_commute)
qed

lemma length_filter_mem:
  assumes "distinct xs" and "distinct ys" and "set ys \<subseteq> set xs"
  shows "length (filter (\<lambda>x. x \<in> set ys) xs) = length ys"
proof -
  have "set (filter (\<lambda>x. x \<in> set ys) xs) = set ys" using assms(3) by auto
  with assms(1,2) show ?thesis by (metis distinct_card distinct_filter)
qed

text \<open>The columns of a scanned row.\<close>

definition kdelivery_of :: "db \<Rightarrow> delivery_row \<Rightarrow> kdelivery" where
  "kdelivery_of d dl = \<lparr>kd_ID = dl_id dl, kd_EndpointID = dl_endpoint_id dl, kd_EventID = dl_event_id dl,
     kd_EventType = ev_type (the (lookup_row ev_id (dl_event_id dl) (events d))), kd_URL = dl_url dl,
     kd_Secret = dl_secret dl, kd_Payload = dl_payload dl, kd_Attempts = dl_attempts dl,
     kd_NextAttemptAt = dl_next_attempt_at dl\<rparr>"

lemma run_ClaimDue:
  assumes "quiet w" and "2 \<le> schema_version (database w)" and "db_refs_ok (database w)" and "0 \<le> limit"
    and "t = webhook_deliveries (database w)" and "ids = dl_id ` set (claimable (nat limit) locked (clock w) t)"
  shows "run_state (ClaimDue s locked limit) w =
    ((map (kdelivery_of (database w)) (filter (\<lambda>dl. dl_id dl \<in> ids) (claim_rows s (nat limit) locked (clock w) t)), None),
     w\<lparr>database := effect (claim_stmt s limit locked) (clock w) (database w)\<rparr>)"
proof -
  have ev: "dl_event_id dl \<in> ev_id ` set (events (database w))"
    if "dl \<in> set (claim_rows s (nat limit) locked (clock w) t)" for dl
    using that assms(3,5) by (auto simp: set_claim_rows db_refs_ok_def take_lease_def)
  have "scan_all scan_delivery (claimed_rows s (nat limit) locked (clock w) (database w)) =
      Inr (map (\<lambda>r. kdelivery_of (database w) (fst r)) (claimed_rows s (nat limit) locked (clock w) (database w)))"
  proof (rule scan_all_ok)
    fix r assume "r \<in> set (claimed_rows s (nat limit) locked (clock w) (database w))"
    then obtain dl where dl: "dl \<in> set (claim_rows s (nat limit) locked (clock w) t)"
      "r = (dl, map_option ev_type (lookup_row ev_id (dl_event_id dl) (events (database w))))"
      by (auto simp: claimed_rows_def Let_def assms(5))
    from ev[OF dl(1)] obtain e where "lookup_row ev_id (dl_event_id dl) (events (database w)) = Some e"
      by (metis lookup_row_None_iff not_None_eq)
    with dl show "scan_delivery r = Inr (kdelivery_of (database w) (fst r))"
      by (simp add: scan_delivery_def kdelivery_of_def)
  qed
  moreover have "map (\<lambda>r. kdelivery_of (database w) (fst r)) (claimed_rows s (nat limit) locked (clock w) (database w)) =
      map (kdelivery_of (database w)) (filter (\<lambda>dl. dl_id dl \<in> ids) (claim_rows s (nat limit) locked (clock w) t))"
    by (simp add: claimed_rows_def Let_def assms(5,6))
  ultimately show ?thesis
    using assms(1,2,4) by (simp add: ClaimDue_def io_simps claim_stmt_def on_schema_def effect_def)
qed

lemma claimed_ids:
  assumes "keyed dl_id t" and "ids = dl_id ` set (claimable n locked now t)"
  shows "map dl_id (filter (\<lambda>dl. dl_id dl \<in> ids) (claim_rows s n locked now t)) = filter (\<lambda>i. i \<in> ids) (map dl_id t)"
    and "distinct (map dl_id (filter (\<lambda>dl. dl_id dl \<in> ids) (claim_rows s n locked now t)))"
    and "length (filter (\<lambda>dl. dl_id dl \<in> ids) (claim_rows s n locked now t)) = length (claimable n locked now t)"
proof -
  let ?c = "filter (\<lambda>dl. dl_id dl \<in> ids) (claim_rows s n locked now t)"
  show 1: "map dl_id ?c = filter (\<lambda>i. i \<in> ids) (map dl_id t)"
    unfolding map_dl_id_claim_rows[of s n locked now t, symmetric] by (simp add: filter_map comp_def)
  show "distinct (map dl_id ?c)" unfolding 1 using assms(1) by (simp add: keyed_def)
  have "length (filter (\<lambda>i. i \<in> set (map dl_id (claimable n locked now t))) (map dl_id t)) =
      length (map dl_id (claimable n locked now t))"
    using assms(1) distinct_claimable[OF assms(1)] claimable_due
    by (intro length_filter_mem) (fastforce simp: keyed_def)+
  then show "length ?c = length (claimable n locked now t)"
    using arg_cong[OF 1, of length] assms(2) by simp
qed

lemma claimed_row:
  assumes "keyed dl_id t" and "r \<in> set (claim_rows s n locked now t)" and "dl_id r \<in> dl_id ` set (claimable n locked now t)"
  shows "\<exists>dl \<in> set (claimable n locked now t). r = take_lease s now dl"
proof -
  from assms(2,3) obtain x where x: "x \<in> set t" "r = take_lease s now x" "dl_id x \<in> dl_id ` set (claimable n locked now t)"
    by (auto simp: set_claim_rows split: if_splits)
  then obtain y where y: "y \<in> set (claimable n locked now t)" "dl_id y = dl_id x" by auto
  with claimable_due have "y \<in> set t" by blast
  with x(1) y(2) assms(1) have "x = y" by (metis keyed_lookup option.inject)
  with x y show ?thesis by blast
qed

text \<open>C27: \<open>ClaimDue\<close> serves the oldest due deliveries first. On an undisturbed server it returns no error and as
  many deliveries as the limit and the due, unlocked rows allow, each once, each due and unlocked
  before and now leased, with the stored url, secret, payload and attempt count; a due, unlocked row
  that is left out was due no earlier than any returned one.\<close>

theorem ClaimDue_serves_oldest:
  assumes "quiet w" and "2 \<le> schema_version (database w)" and "db_ok (database w)" and "0 \<le> limit"
    and "t = webhook_deliveries (database w)"
    and "run_state (ClaimDue s locked limit) w = ((out, err), w')"
  shows "err = None \<and> distinct (map kd_ID out) \<and>
    length out = min (nat limit) (length (filter (\<lambda>dl. due (clock w) dl \<and> \<not> locked (dl_id dl)) t)) \<and>
    (\<forall>kd \<in> set out. \<exists>dl \<in> set t. due (clock w) dl \<and> \<not> locked (dl_id dl) \<and>
       (kd_ID kd, kd_URL kd, kd_Secret kd, kd_Payload kd, kd_Attempts kd) =
         (dl_id dl, dl_url dl, dl_secret dl, dl_payload dl, dl_attempts dl) \<and>
       kd_NextAttemptAt kd = clock w + lease s \<and>
       (\<forall>x \<in> set t. due (clock w) x \<longrightarrow> \<not> locked (dl_id x) \<longrightarrow> dl_id x \<notin> kd_ID ` set out \<longrightarrow>
          dl_next_attempt_at dl \<le> dl_next_attempt_at x))"
proof -
  define c where "c = claimable (nat limit) locked (clock w) t"
  define rows where "rows = filter (\<lambda>dl. dl_id dl \<in> dl_id ` set c) (claim_rows s (nat limit) locked (clock w) t)"
  have key: "keyed dl_id t" and refs: "db_refs_ok (database w)"
    using assms(3,5) by (simp_all add: db_ok_def db_keys_ok_def)
  note ids = claimed_ids[OF key c_def[THEN arg_cong, of "\<lambda>c. dl_id ` set c"], of s, folded rows_def]
  have out: "out = map (kdelivery_of (database w)) rows" and err: "err = None"
    using run_ClaimDue[OF assms(1,2) refs assms(4,5) refl, of s locked] assms(6)
    unfolding rows_def c_def by simp_all
  have kid: "map kd_ID out = map dl_id rows" by (simp add: out kdelivery_of_def comp_def)
  have "dl_id ` set c \<subseteq> dl_id ` set t" using claimable_due unfolding c_def by blast
  moreover have "dl_id ` set rows = {i \<in> dl_id ` set t. i \<in> dl_id ` set c}"
    using arg_cong[OF ids(1), of set] by simp
  ultimately have "dl_id ` set rows = dl_id ` set c" by auto
  then have outids: "kd_ID ` set out = dl_id ` set c" using kid by (metis list.set_map)
  have row: "\<exists>dl \<in> set c. r = take_lease s (clock w) dl" if "r \<in> set rows" for r
    using that claimed_row[OF key] unfolding rows_def c_def by auto
  show ?thesis
  proof (intro conjI ballI)
    show "err = None" by (fact err)
    show "distinct (map kd_ID out)" unfolding kid by (fact ids(2))
    show "length out = min (nat limit) (length (filter (\<lambda>dl. due (clock w) dl \<and> \<not> locked (dl_id dl)) t))"
      using ids(3) by (simp add: out c_def length_claimable)
    fix kd assume "kd \<in> set out"
    then obtain r where r: "r \<in> set rows" "kd = kdelivery_of (database w) r" by (auto simp: out)
    from row[OF r(1)] obtain dl where dl: "dl \<in> set c" "r = take_lease s (clock w) dl" by blast
    have rest: "dl_next_attempt_at dl \<le> dl_next_attempt_at x"
      if "x \<in> set t" "due (clock w) x" "\<not> locked (dl_id x)" "dl_id x \<notin> kd_ID ` set out" for x
      using that dl(1) outids unfolding c_def by (intro claim_rest_later) auto
    from claimable_due dl(1) have "dl \<in> set t \<and> due (clock w) dl \<and> \<not> locked (dl_id dl)" unfolding c_def by blast
    with rest show "\<exists>dl \<in> set t. due (clock w) dl \<and> \<not> locked (dl_id dl) \<and>
       (kd_ID kd, kd_URL kd, kd_Secret kd, kd_Payload kd, kd_Attempts kd) =
         (dl_id dl, dl_url dl, dl_secret dl, dl_payload dl, dl_attempts dl) \<and>
       kd_NextAttemptAt kd = clock w + lease s \<and>
       (\<forall>x \<in> set t. due (clock w) x \<longrightarrow> \<not> locked (dl_id x) \<longrightarrow> dl_id x \<notin> kd_ID ` set out \<longrightarrow>
          dl_next_attempt_at dl \<le> dl_next_attempt_at x)"
      by (intro bexI[of _ dl]) (auto simp: r dl kdelivery_of_def take_lease_def)
  qed
qed

lemma sample_outbox_ok [simp]: "db_ok sample_outbox"
  by (simp add: sample_outbox_def sample_defs db_ok_def db_keys_ok_def db_refs_ok_def orders_unique_def keyed_def
      map_filter_simps order_ext_key_def sample_delivery_def new_delivery_def event_ins_def)

theorem ClaimDue_serves_oldest_witness:
  "\<exists>out w'. run_state (ClaimDue NewStore (\<lambda>_. False) 1) (sample_world sample_outbox) = ((out, None), w') \<and> length out = 1"
proof -
  let ?w = "sample_world sample_outbox"
  obtain out err w' where run: "run_state (ClaimDue NewStore (\<lambda>_. False) 1) ?w = ((out, err), w')"
    by (metis prod.exhaust)
  have "quiet ?w" "2 \<le> schema_version (database ?w)" "db_ok (database ?w)" "(0 :: int) \<le> 1"
    by (simp_all add: sample_world_def) (simp add: sample_outbox_def sample_db_def empty_db_def)
  from ClaimDue_serves_oldest[OF this refl run] have "err = None"
    "length out = min (nat 1) (length (filter (\<lambda>dl. due (clock ?w) dl \<and> \<not> False) (webhook_deliveries (database ?w))))"
    by simp_all
  with run show ?thesis
    by (simp add: sample_world_def sample_outbox_def sample_delivery_def new_delivery_def due_def)
qed

section \<open>The history of one delivery\<close>

primrec failed_by :: "string \<Rightarrow> outbox_op \<Rightarrow> int" where
  "failed_by i (Op_claim n locked) = 0"
| "failed_by i (Op_succeed j) = 0"
| "failed_by i (Op_fail j t msg) = (if j = i then 1 else 0)"
| "failed_by i (Op_dead j) = (if j = i then 1 else 0)"
| "failed_by i Op_requeue = 0"
| "failed_by i (Op_replay j ep) = 0"
| "failed_by i (Op_enqueue dl) = 0"

primrec marked_by :: "string \<Rightarrow> outbox_op \<Rightarrow> nat" where
  "marked_by i (Op_claim n locked) = 0"
| "marked_by i (Op_succeed j) = (if j = i then 1 else 0)"
| "marked_by i (Op_fail j t msg) = (if j = i then 1 else 0)"
| "marked_by i (Op_dead j) = (if j = i then 1 else 0)"
| "marked_by i Op_requeue = 0"
| "marked_by i (Op_replay j ep) = 0"
| "marked_by i (Op_enqueue dl) = 0"

definition log_of :: "string \<Rightarrow> db \<Rightarrow> delivery_log_row list" where
  "log_of i d = filter (\<lambda>l. log_delivery_id l = i) (webhook_delivery_log d)"

text \<open>The columns fixed when a delivery is enqueued.\<close>

definition snapshot :: "delivery_row \<Rightarrow> string \<times> string \<times> string \<times> string \<times> string \<times> string" where
  "snapshot dl = (dl_id dl, dl_endpoint_id dl, dl_event_id dl, dl_url dl, dl_secret dl, dl_payload dl)"

lemma schema_version_op [simp]: "schema_version (op_effect s op now d) = schema_version d"
  by (cases op)
     (auto simp: effect_def claim_stmt_def mark_stmt_def requeue_stmt_def replay_stmt_def on_schema_def Let_def
       split: if_splits)

lemma row_setters [simp]:
  "dl_id (set_succeeded dl) = dl_id dl" "dl_id (set_failed t msg dl) = dl_id dl" "dl_id (set_dead dl) = dl_id dl"
  "dl_id (rearm now dl) = dl_id dl" "dl_id (replayed now dl) = dl_id dl"
  by (simp_all add: set_succeeded_def set_failed_def set_dead_def rearm_def replayed_def)

lemma keyed_op: "keyed dl_id (webhook_deliveries d) \<Longrightarrow> keyed dl_id (webhook_deliveries (op_effect s op now d))"
  by (cases op)
     (auto simp: effect_def claim_stmt_def mark_stmt_def requeue_stmt_def replay_stmt_def on_schema_def Let_def
       claim_rows_def keyed_update_where)

lemma filter_keyed:
  assumes "keyed key t" and "lookup_row key k t = Some r"
  shows "filter (\<lambda>x. key x = k) t = [r]"
  using assms
proof (induction t)
  case Nil
  then show ?case by (simp add: row_simps)
next
  case (Cons x t)
  show ?case
  proof (cases "key x = k")
    case True
    with Cons.prems have "x = r" "filter (\<lambda>x. key x = k) t = []"
      by (simp_all add: row_simps keyed_Cons filter_empty_conv) (metis image_eqI)
    with True show ?thesis by simp
  next
    case False
    with Cons show ?thesis by (simp add: row_simps keyed_Cons)
  qed
qed

lemma mark_row:
  assumes "keyed dl_id (webhook_deliveries d)" and "lookup_row dl_id i (webhook_deliveries d) = Some dl"
    and "2 \<le> schema_version d" and "dl_attempts dl < int4_max" and "\<And>x. dl_id (f x) = dl_id x"
  shows "lookup_row dl_id i (webhook_deliveries (effect (mark_stmt did f n err) now d)) =
      Some (if did = i then f dl else dl)"
    and "length (log_of i (effect (mark_stmt did f n err) now d)) = length (log_of i d) + (if did = i then 1 else 0)"
proof -
  let ?t = "webhook_deliveries d"
  have look: "lookup_row dl_id i (update_where (\<lambda>x. dl_id x = did) f ?t) = Some (if did = i then f dl else dl)"
    using lookup_update_where[of "\<lambda>x. dl_id x = did" dl_id f i ?t] assms(2,5) lookup_row_key[OF assms(2)] by auto
  have only: "x = dl" if "x \<in> set ?t" "dl_id x = i" for x
    using that keyed_lookup[OF assms(1) that(1)] assms(2) by simp
  with assms(4) have fits: "\<forall>x \<in> set ?t. dl_id x = i \<longrightarrow> dl_attempts x \<noteq> int4_max"
    by (metis less_irrefl)
  note defs = effect_def mark_stmt_def on_schema_def Let_def log_of_def log_attempt_def
  show "lookup_row dl_id i (webhook_deliveries (effect (mark_stmt did f n err) now d)) = Some (if did = i then f dl else dl)"
    using look assms(2,3) fits by (cases "did = i") (auto simp: defs)
  show "length (log_of i (effect (mark_stmt did f n err) now d)) = length (log_of i d) + (if did = i then 1 else 0)"
    using assms(3) fits filter_keyed[OF assms(1,2)] by (cases "did = i") (auto simp: defs filter_map comp_def)
qed

lemma op_row:
  assumes "keyed dl_id (webhook_deliveries d)" and "lookup_row dl_id i (webhook_deliveries d) = Some dl"
    and "2 \<le> schema_version d" and "dl_attempts dl < int4_max" and "\<forall>ep. op \<noteq> Op_replay i ep"
  shows "\<exists>dl'. lookup_row dl_id i (webhook_deliveries (op_effect s op now d)) = Some dl' \<and>
    dl_attempts dl' = dl_attempts dl + failed_by i op \<and> snapshot dl' = snapshot dl \<and>
    length (log_of i (op_effect s op now d)) = length (log_of i d) + marked_by i op"
proof (cases op)
  case (Op_claim limit locked)
  then show ?thesis
    using assms(2)
    by (auto simp: effect_def claim_stmt_def on_schema_def claim_rows_def Let_def lookup_update_where
        snapshot_def take_lease_def log_of_def)
next
  case Op_requeue
  then show ?thesis
    using assms(2,3)
    by (auto simp: effect_def requeue_stmt_def on_schema_def lookup_update_where snapshot_def rearm_def log_of_def)
next
  case (Op_replay dlv ep)
  with assms(5) have "dlv \<noteq> i" by simp
  with Op_replay lookup_row_key[OF assms(2)] show ?thesis
    using assms(2,3)
    by (auto simp: effect_def replay_stmt_def on_schema_def Let_def lookup_update_where log_of_def)
next
  case (Op_enqueue x)
  then show ?thesis using assms(2) by (auto simp: row_simps log_of_def)
next
  case (Op_succeed j)
  then show ?thesis using mark_row[OF assms(1-4)] by (simp add: snapshot_def set_succeeded_def)
next
  case (Op_fail j t msg)
  then show ?thesis using mark_row[OF assms(1-4)] by (simp add: snapshot_def set_failed_def)
next
  case (Op_dead j)
  then show ?thesis using mark_row[OF assms(1-4)] by (simp add: snapshot_def set_dead_def)
qed

lemma run_row:
  assumes "outbox_run s tr (t, d) (t', d')" and "keyed dl_id (webhook_deliveries d)"
    and "lookup_row dl_id i (webhook_deliveries d) = Some dl" and "2 \<le> schema_version d"
    and "dl_attempts dl + (\<Sum>(u, op)\<leftarrow>tr. failed_by i op) < int4_max"
    and "\<forall>(u, op) \<in> set tr. \<forall>ep. op \<noteq> Op_replay i ep"
  shows "\<exists>dl'. lookup_row dl_id i (webhook_deliveries d') = Some dl' \<and>
    dl_attempts dl' = dl_attempts dl + (\<Sum>(u, op)\<leftarrow>tr. failed_by i op) \<and> snapshot dl' = snapshot dl \<and>
    length (log_of i d') = length (log_of i d) + (\<Sum>(u, op)\<leftarrow>tr. marked_by i op)"
  using assms
proof (induction tr arbitrary: t d dl)
  case Nil
  then show ?case by auto
next
  case (Cons x tr)
  obtain u op where x: "x = (u, op)" by fastforce
  have nonneg: "0 \<le> failed_by i op" "0 \<le> (\<Sum>(u, op)\<leftarrow>tr. failed_by i op)" for op
    by (cases op; simp) (rule sum_list_nonneg, auto, case_tac b; simp)
  from Cons.prems(1) x have run: "outbox_run s tr (u, op_effect s op u d) (t', d')" by auto
  have lt: "dl_attempts dl < int4_max" using Cons.prems(5) nonneg(1)[of op] nonneg(2) by (simp add: x)
  from op_row[OF Cons.prems(2-4) lt, of op s u] Cons.prems(6) x
  obtain dl1 where dl1: "lookup_row dl_id i (webhook_deliveries (op_effect s op u d)) = Some dl1"
    "dl_attempts dl1 = dl_attempts dl + failed_by i op" "snapshot dl1 = snapshot dl"
    "length (log_of i (op_effect s op u d)) = length (log_of i d) + marked_by i op" by auto
  have "\<exists>dl'. lookup_row dl_id i (webhook_deliveries d') = Some dl' \<and>
    dl_attempts dl' = dl_attempts dl1 + (\<Sum>(u, op)\<leftarrow>tr. failed_by i op) \<and> snapshot dl' = snapshot dl1 \<and>
    length (log_of i d') = length (log_of i (op_effect s op u d)) + (\<Sum>(u, op)\<leftarrow>tr. marked_by i op)"
    using Cons.prems dl1 x by (intro Cons.IH[OF run keyed_op[OF Cons.prems(2)] dl1(1)]) auto
  with dl1 x show ?case by auto
qed

text \<open>C26: attempts are counted exactly. Over any run without a replay of the delivery, its attempt count grows
  by one per \<open>MarkFailed\<close> and \<open>MarkDead\<close> of it and by nothing else, its attempt log by one row per mark, and
  url, secret, payload, endpoint and event never change. So the count \<open>ClaimDue\<close> reports is what the
  dispatcher's dead-letter check needs.\<close>

theorem attempts_are_counted:
  assumes "outbox_run s tr (t, d) (t', d')" and "keyed dl_id (webhook_deliveries d)"
    and "lookup_row dl_id i (webhook_deliveries d) = Some dl" and "2 \<le> schema_version d"
    and "dl_attempts dl + (\<Sum>(u, op)\<leftarrow>tr. failed_by i op) < int4_max"
    and "\<forall>(u, op) \<in> set tr. \<forall>ep. op \<noteq> Op_replay i ep"
  shows "\<exists>dl'. lookup_row dl_id i (webhook_deliveries d') = Some dl' \<and>
    dl_attempts dl' = dl_attempts dl + (\<Sum>(u, op)\<leftarrow>tr. failed_by i op) \<and> snapshot dl' = snapshot dl \<and>
    length (log_of i d') = length (log_of i d) + (\<Sum>(u, op)\<leftarrow>tr. marked_by i op)"
  using assms by (rule run_row)

lemma outbox_run_exists: "sorted (t # map fst tr) \<Longrightarrow> \<exists>y. outbox_run s tr (t, d) y"
proof (induction tr arbitrary: t d)
  case Nil
  show ?case by (blast intro: run_nil)
next
  case (Cons x tr)
  obtain u op where x: "x = (u, op)" by fastforce
  with Cons.prems have "sorted (u # map fst tr)" "t \<le> u" by auto
  with Cons.IH[of u "op_effect s op u d"] x show ?case by (blast intro: run_step)
qed

theorem attempts_are_counted_witness:
  "\<exists>t' d' dl'. outbox_run NewStore [(1000, Op_claim 5 []), (2000, Op_fail ''d1'' 9000 ''timeout''), (3000, Op_requeue),
       (9500, Op_claim 5 []), (9600, Op_dead ''d1'')] (0, sample_outbox) (t', d') \<and>
     lookup_row dl_id ''d1'' (webhook_deliveries d') = Some dl' \<and> dl_attempts dl' = 2"
proof -
  let ?tr = "[(1000, Op_claim 5 []), (2000, Op_fail ''d1'' 9000 ''timeout''), (3000, Op_requeue),
       (9500, Op_claim 5 []), (9600, Op_dead ''d1'')]"
  have "\<exists>y. outbox_run NewStore ?tr (0, sample_outbox) y" by (rule outbox_run_exists) simp
  then obtain t' d' where run: "outbox_run NewStore ?tr (0, sample_outbox) (t', d')" by (metis surj_pair)
  have key: "keyed dl_id (webhook_deliveries sample_outbox)" using sample_outbox_ok by (simp only: db_ok_def db_keys_ok_def)
  have look: "lookup_row dl_id ''d1'' (webhook_deliveries sample_outbox) = Some (sample_delivery ''d1'' 300)"
    by (simp add: sample_outbox_def sample_delivery_def new_delivery_def row_simps)
  have "\<exists>dl'. lookup_row dl_id ''d1'' (webhook_deliveries d') = Some dl' \<and> dl_attempts dl' = 2"
    using attempts_are_counted[OF run key look]
    by (simp add: sample_outbox_def sample_db_def empty_db_def sample_delivery_def new_delivery_def int4_max_def) blast
  then obtain dl' where "lookup_row dl_id ''d1'' (webhook_deliveries d') = Some dl'" "dl_attempts dl' = 2" by blast
  with run show ?thesis by (intro exI conjI)
qed

lemma settled_op:
  assumes "keyed dl_id (webhook_deliveries d)" and "lookup_row dl_id i (webhook_deliveries d) = Some dl"
    and "dl_status dl \<in> {''succeeded'', ''dead''}" and "\<not> addresses op i"
  shows "lookup_row dl_id i (webhook_deliveries (op_effect s op now d)) = Some dl"
proof -
  have only: "x = dl" if "x \<in> set (webhook_deliveries d)" "dl_id x = i" for x
    using that keyed_lookup[OF assms(1) that(1)] assms(2) by simp
  have i: "dl_id dl = i" using assms(2) by (rule lookup_row_key)
  have unclaimed: "i \<notin> dl_id ` set (claimable n locked now (webhook_deliveries d))" for n locked now
  proof
    assume "i \<in> dl_id ` set (claimable n locked now (webhook_deliveries d))"
    then obtain x where "x \<in> set (claimable n locked now (webhook_deliveries d))" "dl_id x = i" by blast
    with claimable_due only have "due now dl" by metis
    with assms(3) show False by (auto simp: due_def)
  qed
  show ?thesis
  proof (cases op)
    case (Op_claim limit locked)
    then show ?thesis
      using assms(2) unclaimed i
      by (auto simp: effect_def claim_stmt_def on_schema_def claim_rows_def Let_def lookup_update_where)
  next
    case Op_requeue
    then show ?thesis
      using assms(2,3) by (auto simp: effect_def requeue_stmt_def on_schema_def lookup_update_where stuck_def)
  next
    case (Op_replay dlv ep)
    then show ?thesis
      using assms(2,4) i by (auto simp: effect_def replay_stmt_def on_schema_def Let_def lookup_update_where)
  next
    case (Op_enqueue x)
    then show ?thesis using assms(2) by (auto simp: row_simps)
  qed (use assms(2,4) i in \<open>auto simp: effect_def mark_stmt_def on_schema_def Let_def lookup_update_where\<close>)
qed

lemma settled_run:
  assumes "outbox_run s tr (t, d) (t', d')" and "keyed dl_id (webhook_deliveries d)"
    and "lookup_row dl_id i (webhook_deliveries d) = Some dl" and "dl_status dl \<in> {''succeeded'', ''dead''}"
    and "\<forall>(u, op) \<in> set tr. \<not> addresses op i"
  shows "lookup_row dl_id i (webhook_deliveries d') = Some dl \<and> keyed dl_id (webhook_deliveries d')"
  using assms
proof (induction tr arbitrary: t d)
  case Nil
  then show ?case by auto
next
  case (Cons x tr)
  obtain u op where x: "x = (u, op)" by fastforce
  with Cons.prems(1) have run: "outbox_run s tr (u, op_effect s op u d) (t', d')" by auto
  from Cons.prems x have "lookup_row dl_id i (webhook_deliveries (op_effect s op u d)) = Some dl"
    by (intro settled_op) auto
  with Cons.IH[OF run keyed_op[OF Cons.prems(2)]] Cons.prems x show ?case by auto
qed

text \<open>C25: a settled delivery stays settled. A delivery that succeeded or was moved to the dead-letter state
  is left alone by every claim, sweep, enqueue and operation on other deliveries, and no \<open>ClaimDue\<close>
  returns it, until it is itself marked or replayed.\<close>

theorem settled_is_not_resent:
  assumes "outbox_run s tr (t, d) (t', seen_db v)" and "keyed dl_id (webhook_deliveries d)"
    and "lookup_row dl_id i (webhook_deliveries d) = Some dl" and "dl_status dl \<in> {''succeeded'', ''dead''}"
    and "\<forall>(u, op) \<in> set tr. \<not> addresses op i"
    and "run_state (ClaimDue s locked limit) v = ((out, err), v')"
  shows "lookup_row dl_id i (webhook_deliveries (seen_db v)) = Some dl \<and> i \<notin> kd_ID ` set out"
proof -
  from settled_run[OF assms(1-5)] have row: "lookup_row dl_id i (webhook_deliveries (seen_db v)) = Some dl"
    and key: "keyed dl_id (webhook_deliveries (seen_db v))" by simp_all
  have "i \<notin> fst (claim_ids s (limit, locked) (clock v) (seen_db v))"
  proof
    assume "i \<in> fst (claim_ids s (limit, locked) (clock v) (seen_db v))"
    then obtain x where "x \<in> set (claimable (nat limit) locked (clock v) (webhook_deliveries (seen_db v)))" "dl_id x = i"
      by (auto simp: claim_ids_eq split: if_splits)
    with claimable_due keyed_lookup[OF key] row have "due (clock v) dl" by (metis option.inject)
    with assms(4) show False by (auto simp: due_def)
  qed
  with row ClaimDue_ids[OF assms(6)] show ?thesis by blast
qed

theorem settled_is_not_resent_witness:
  "\<exists>d v out err v'. outbox_run NewStore [(20, Op_requeue)] (0, d) (20, seen_db v) \<and>
     run_state (ClaimDue NewStore (\<lambda>_. False) 9) v = ((out, err), v') \<and> ''d1'' \<notin> kd_ID ` set out"
proof -
  let ?d = "sample_outbox\<lparr>webhook_deliveries := [set_succeeded (sample_delivery ''d1'' 300)]\<rparr>"
  let ?v = "sample_world (op_effect NewStore Op_requeue 20 ?d)"
  have "seen_db ?v = op_effect NewStore Op_requeue 20 ?d" by (simp add: sample_world_def)
  then have run: "outbox_run NewStore [(20, Op_requeue)] (0, ?d) (20, seen_db ?v)"
    by (simp only:) (intro run_step run_nil, simp)
  obtain out err v' where cl: "run_state (ClaimDue NewStore (\<lambda>_. False) 9) ?v = ((out, err), v')"
    by (metis prod.exhaust)
  have "''d1'' \<notin> kd_ID ` set out"
    using settled_is_not_resent[OF run _ _ _ _ cl, of "''d1''" "set_succeeded (sample_delivery ''d1'' 300)"]
    by (simp add: keyed_def row_simps sample_delivery_def new_delivery_def set_succeeded_def)
  with run cl show ?thesis by (intro exI conjI)
qed

section \<open>Reporting success\<close>

lemma deliveries_update_ok:
  assumes "db_ok d" and f: "\<And>x. dl_id (f x) = dl_id x \<and> dl_endpoint_id (f x) = dl_endpoint_id x \<and> dl_event_id (f x) = dl_event_id x"
  shows "db_ok (d\<lparr>webhook_deliveries := update_where Q f (webhook_deliveries d)\<rparr>)"
    and "db_ok (d\<lparr>webhook_deliveries := update_where Q f (webhook_deliveries d), webhook_delivery_log := L\<rparr>)"
proof -
  have "keyed dl_id (update_where Q f (webhook_deliveries d)) = keyed dl_id (webhook_deliveries d)"
    by (rule keyed_update_where) (simp add: f)
  moreover have "\<forall>x \<in> set (update_where Q f (webhook_deliveries d)).
      dl_endpoint_id x \<in> ep_id ` set (webhook_endpoints d) \<and> dl_event_id x \<in> ev_id ` set (events d)"
    using assms(1) f by (auto simp: update_where_def db_ok_def db_refs_ok_def)
  ultimately show "db_ok (d\<lparr>webhook_deliveries := update_where Q f (webhook_deliveries d)\<rparr>)"
    "db_ok (d\<lparr>webhook_deliveries := update_where Q f (webhook_deliveries d), webhook_delivery_log := L\<rparr>)"
    using assms(1) by (simp_all add: db_ok_def db_keys_ok_def db_refs_ok_def)
qed

lemma run_MarkSucceeded:
  assumes "quiet w" and "2 \<le> schema_version (database w)" and "t = webhook_deliveries (database w)"
    and "keyed dl_id t" and "lookup_row dl_id i t = Some dl" and "dl_attempts dl < int4_max"
  shows "run_state (MarkSucceeded i) w = (Inr (), w\<lparr>database := (database w)
    \<lparr>webhook_deliveries := update_where (\<lambda>x. dl_id x = i) set_succeeded t,
     webhook_delivery_log := webhook_delivery_log (database w) @ [log_attempt i None (clock w) (dl_attempts dl + 1)]\<rparr>\<rparr>)"
proof -
  have "mark_stmt i set_succeeded (\<lambda>dl. dl_attempts dl + 1) None (clock w) (database w) = Inr ((), (database w)
    \<lparr>webhook_deliveries := update_where (\<lambda>x. dl_id x = i) set_succeeded t,
     webhook_delivery_log := webhook_delivery_log (database w) @ [log_attempt i None (clock w) (dl_attempts dl + 1)]\<rparr>)"
    unfolding mark_stmt_def on_schema_def Let_def assms(3)[symmetric] filter_keyed[OF assms(4,5)]
    using assms(2,6) by (simp add: set_succeeded_def)
  with assms(1) show ?thesis by (simp add: MarkSucceeded_def io_simps)
qed

section \<open>Endpoint management\<close>

lemma filter_update_where:
  "(\<And>r. P r \<Longrightarrow> \<not> Q r \<and> \<not> Q (f r)) \<Longrightarrow> filter Q (update_where P f t) = filter Q t"
  by (induction t) (auto simp: update_where_def)

lemma run_create:
  assumes "quiet w" and "2 \<le> schema_version (database w)" and "DecodeJSON r create_fields = Inr vals"
    and "req = create_req_of vals" and "cr_URL req \<noteq> ''''" and "cr_EventTypes req \<noteq> []"
    and "epID = endpoint_id ulid (cr_URL req)" and "run_state NewWebhookSecret w = (secret, w0)"
  shows "run_state (create ulid r) w =
    (JSON StatusCreated (endpoint_json \<lparr>er_ID = epID, er_URL = cr_URL req, er_Secret = secret,
       er_EventTypes = cr_EventTypes req, er_Active = True\<rparr>),
     w0\<lparr>database := (database w)\<lparr>webhook_endpoints :=
       upsert ep_id (endpoint_ins epID req secret (clock w)) (endpoint_upd req) (webhook_endpoints (database w))\<rparr>\<rparr>)"
proof -
  from assms(8) have w0: "quiet w0" "database w0 = database w" "clock w0 = clock w"
    using assms(1) by (auto simp: NewWebhookSecret_def randHex_def rand_Read_def)
  with assms show ?thesis
    by (simp add: create_def Let_def create_stmt_def on_schema_def io_simps)
qed

text \<open>C36: subscribing. A valid request is answered with 201, and afterwards there is exactly one endpoint row
  for the URL: active, with the requested event types. For a URL that was not subscribed before, the
  stored secret is the one in the response; for one that was, the row keeps its old secret. A request
  without a url or without event types is answered with 400 and changes nothing.\<close>

theorem create_subscribes:
  assumes "quiet w" and "2 \<le> schema_version (database w)" and "keyed ep_id (webhook_endpoints (database w))"
    and "DecodeJSON r create_fields = Inr vals" and "req = create_req_of vals"
    and "epID = endpoint_id ulid (cr_URL req)" and "run_state NewWebhookSecret w = (secret, w0)"
    and "run_state (create ulid r) w = (resp, w')"
  shows "if cr_URL req = '''' \<or> cr_EventTypes req = [] then status resp = 400 \<and> w' = w
    else status resp = 201 \<and> keyed ep_id (webhook_endpoints (database w')) \<and>
      lookup_row ep_id epID (webhook_endpoints (database w')) = Some
        (case lookup_row ep_id epID (webhook_endpoints (database w)) of
           None \<Rightarrow> endpoint_ins epID req secret (clock w)
         | Some ep \<Rightarrow> ep\<lparr>ep_url := cr_URL req, ep_event_types := cr_EventTypes req, ep_active := True\<rparr>) \<and>
      rbody resp = JSONBody (JObj [(''id'', JStr epID), (''url'', JStr (cr_URL req)), (''secret'', JStr secret),
        (''event_types'', JArr (map JStr (cr_EventTypes req))), (''active'', JBool True)])"
proof (cases "cr_URL req = '''' \<or> cr_EventTypes req = []")
  case True
  with assms(4,5,8) show ?thesis by (auto simp: create_def Let_def Error_def JSON_def)
next
  case False
  let ?t = "upsert ep_id (endpoint_ins epID req secret (clock w)) (endpoint_upd req) (webhook_endpoints (database w))"
  from False run_create[OF assms(1,2,4,5) _ _ assms(6,7)] assms(8)
  have resp: "resp = JSON 201 (endpoint_json \<lparr>er_ID = epID, er_URL = cr_URL req, er_Secret = secret,
       er_EventTypes = cr_EventTypes req, er_Active = True\<rparr>)" and db: "webhook_endpoints (database w') = ?t"
    by auto
  have "length secret = 64" using assms(7) by (auto simp: NewWebhookSecret_def randHex_def rand_Read_def)
  then have "secret \<noteq> ''''" by auto
  moreover have "keyed ep_id ?t" using assms(3) by (intro keyed_upsert) (simp_all add: endpoint_upd_def)
  moreover have "lookup_row ep_id epID ?t = Some (case lookup_row ep_id epID (webhook_endpoints (database w)) of
      None \<Rightarrow> endpoint_ins epID req secret (clock w) | Some ep \<Rightarrow> endpoint_upd req ep)"
    by (subst lookup_upsert) (simp_all add: endpoint_upd_def endpoint_ins_def)
  ultimately show ?thesis
    using False by (simp add: resp db JSON_def endpoint_json_def omit_empty_def endpoint_upd_def cong: option.case_cong)
qed

definition sample_request :: "(string \<times> json) list \<Rightarrow> request" where
  "sample_request kvs = \<lparr>req_query = (\<lambda>_. ''''), req_param = (\<lambda>k. if k = ''id'' then ''ep1'' else ''d1''),
     req_header = (\<lambda>_. ''''), req_body = Inr (JObj kvs)\<rparr>"

theorem create_subscribes_witness:
  "\<exists>resp w'. run_state (create (\<lambda>_. ''u'') (sample_request [(''url'', JStr ''https://b.test''),
       (''event_types'', JArr [JStr ''invoice.paid''])])) (sample_world sample_db) = (resp, w') \<and> status resp = 201"
proof -
  let ?r = "sample_request [(''url'', JStr ''https://b.test''), (''event_types'', JArr [JStr ''invoice.paid''])]"
  have dec: "DecodeJSON ?r create_fields = Inr [VString ''https://b.test'', VStrings [''invoice.paid'']]"
    by (simp add: DecodeJSON_def sample_request_def create_fields_def field_index_def to_lower_def decode_field_def
        decode_element_def zero_value_def map_filter_simps)
  obtain secret w0 where sec: "run_state NewWebhookSecret (sample_world sample_db) = (secret, w0)" by fastforce
  obtain resp w' where run: "run_state (create (\<lambda>_. ''u'') ?r) (sample_world sample_db) = (resp, w')" by fastforce
  have "status resp = 201"
    using create_subscribes[OF _ _ _ dec refl refl sec run]
    by (simp add: create_req_of_def str_field_def strs_field_def sample_world_def)
       (simp add: sample_db_def empty_db_def keyed_def)
  with run show ?thesis by blast
qed

text \<open>Unsubscribing. Removing an existing endpoint is answered with 204, and from then on no event fans out
  to it; deliveries, log and every other endpoint are as before, and so is the row itself apart from
  the flag. An unknown id is answered with 404 and changes nothing.\<close>

lemma remove_unsubscribes:
  assumes "quiet w" and "2 \<le> schema_version (database w)" and "run_state (remove_endpoint r) w = (resp, w')"
    and "ep = req_param r ''id''"
  shows "if ep \<in> ep_id ` set (webhook_endpoints (database w))
    then status resp = 204 \<and> rbody resp = NoBody \<and>
      database w' = (database w)\<lparr>webhook_endpoints := webhook_endpoints (database w')\<rparr> \<and>
      map (\<lambda>e. e\<lparr>ep_active := False\<rparr>) (webhook_endpoints (database w')) =
        map (\<lambda>e. e\<lparr>ep_active := False\<rparr>) (webhook_endpoints (database w)) \<and>
      filter (\<lambda>e. ep_id e \<noteq> ep) (webhook_endpoints (database w')) = filter (\<lambda>e. ep_id e \<noteq> ep) (webhook_endpoints (database w)) \<and>
      (\<forall>e ty. e \<in> set (webhook_endpoints (database w')) \<and> ep_id e = ep \<longrightarrow> \<not> endpoint_matches ty e)
    else status resp = 404 \<and> w' = w"
proof -
  let ?t = "webhook_endpoints (database w)"
  let ?t' = "update_where (\<lambda>e. ep_id e = ep) (\<lambda>e. e\<lparr>ep_active := False\<rparr>) ?t"
  have none: "rows_affected (\<lambda>e. ep_id e = ep) ?t = 0 \<longleftrightarrow> ep \<notin> ep_id ` set ?t"
    by (auto simp: rows_affected_def filter_empty_conv)
  have cols: "map (\<lambda>e. e\<lparr>ep_active := False\<rparr>) ?t' = map (\<lambda>e. e\<lparr>ep_active := False\<rparr>) ?t"
    "filter (\<lambda>e. ep_id e \<noteq> ep) ?t' = filter (\<lambda>e. ep_id e \<noteq> ep) ?t"
    by (simp add: update_where_def, intro filter_update_where) simp
  have "run_state (remove_endpoint r) w =
      (if rows_affected (\<lambda>e. ep_id e = ep) ?t = 0 then Error 404 ''endpoint not found''
       else \<lparr>status = 204, headers = [], rbody = NoBody\<rparr>,
       w\<lparr>database := (database w)\<lparr>webhook_endpoints := ?t'\<rparr>\<rparr>)"
    using assms(1,2,4) by (simp add: remove_endpoint_def io_simps deactivate_stmt_def on_schema_def)
  then have out: "resp = (if ep \<notin> ep_id ` set ?t then Error 404 ''endpoint not found''
       else \<lparr>status = 204, headers = [], rbody = NoBody\<rparr>)"
    and w': "w' = w\<lparr>database := (database w)\<lparr>webhook_endpoints := ?t'\<rparr>\<rparr>"
    using assms(3) none by simp_all
  have off: "\<not> endpoint_matches ty e" if "e \<in> set ?t'" "ep_id e = ep" for e ty
  proof -
    from that(1) obtain x where x: "e = (if ep_id x = ep then x\<lparr>ep_active := False\<rparr> else x)"
      unfolding update_where_def set_map by (rule imageE)
    with that(2) have "ep_id x = ep" by (cases "ep_id x = ep") simp_all
    with x show ?thesis by (simp add: endpoint_matches_def)
  qed
  show ?thesis
  proof (cases "ep \<in> ep_id ` set ?t")
    case True
    with out w' cols off show ?thesis by simp
  next
    case False
    then have "?t' = ?t" by (intro update_where_none) auto
    with False out w' show ?thesis by (simp add: Error_def JSON_def)
  qed
qed

text \<open>Manual replay. Asking to replay a delivery of an endpoint makes exactly that delivery pending again,
  due at once, with no attempts and no error, and answers 202; a delivery that does not exist or
  belongs to another endpoint is answered with 404 and nothing changes.\<close>

lemma replay_requeues:
  assumes "quiet w" and "2 \<le> schema_version (database w)" and "keyed dl_id (webhook_deliveries (database w))"
    and "run_state (replay r) w = (resp, w')" and "i = req_param r ''delivery_id''" and "ep = req_param r ''id''"
  shows "case lookup_row dl_id i (webhook_deliveries (database w)) of
      None \<Rightarrow> status resp = 404 \<and> w' = w
    | Some dl \<Rightarrow>
        if dl_endpoint_id dl \<noteq> ep then status resp = 404 \<and> w' = w
        else status resp = 202 \<and>
          lookup_row dl_id i (webhook_deliveries (database w')) =
            Some (dl\<lparr>dl_status := ''pending'', dl_attempts := 0, dl_next_attempt_at := clock w, dl_last_error := None\<rparr>) \<and>
          filter (\<lambda>x. dl_id x \<noteq> i) (webhook_deliveries (database w')) = filter (\<lambda>x. dl_id x \<noteq> i) (webhook_deliveries (database w))"
proof -
  let ?t = "webhook_deliveries (database w)" and ?hit = "\<lambda>dl. dl_id dl = i \<and> dl_endpoint_id dl = ep"
  let ?t' = "update_where ?hit (replayed (clock w)) ?t"
  have none: "rows_affected ?hit ?t = 0 \<longleftrightarrow> (\<forall>x \<in> set ?t. \<not> ?hit x)"
    by (auto simp: rows_affected_def filter_empty_conv)
  have out: "resp = (if rows_affected ?hit ?t = 0 then Error 404 ''delivery not found for endpoint''
      else JSON 202 (JObj [(''delivery_id'', JStr i), (''status'', JStr ''requeued'')]))"
    and w': "w' = w\<lparr>database := (database w)\<lparr>webhook_deliveries := ?t'\<rparr>\<rparr>"
    using assms by (auto simp: replay_def Let_def io_simps replay_stmt_def on_schema_def split: if_splits)
  have same: "w' = w" if "\<forall>x \<in> set ?t. \<not> ?hit x"
    using that update_where_none[of ?t ?hit "replayed (clock w)"] w' by simp
  have rest: "filter (\<lambda>x. dl_id x \<noteq> i) ?t' = filter (\<lambda>x. dl_id x \<noteq> i) ?t"
    by (rule filter_update_where) simp
  show ?thesis
  proof (cases "lookup_row dl_id i ?t")
    case None
    then have "\<forall>x \<in> set ?t. \<not> ?hit x" by (auto simp: lookup_row_None_iff)
    with None same out none show ?thesis by (simp add: Error_def JSON_def)
  next
    case (Some dl)
    have only: "x = dl" if "x \<in> set ?t" "dl_id x = i" for x
      using that keyed_lookup[OF assms(3) that(1)] Some by simp
    show ?thesis
    proof (cases "dl_endpoint_id dl = ep")
      case True
      with Some lookup_row_SomeD[OF Some] have "rows_affected ?hit ?t \<noteq> 0" using none by auto
      moreover have "lookup_row dl_id i ?t' = Some (replayed (clock w) dl)"
        using Some True lookup_row_key[OF Some] by (simp add: lookup_update_where)
      ultimately show ?thesis using Some True out rest w' by (simp add: replayed_def JSON_def)
    next
      case False
      with only have "\<forall>x \<in> set ?t. \<not> ?hit x" by blast
      with Some False same out none show ?thesis by (simp add: Error_def JSON_def)
    qed
  qed
qed

text \<open>The test delivery. For an active endpoint the handler answers 202 with the id of one new pending
  delivery of the endpoint's url and secret, whose event is one new \<open>webhook.test\<close> event; both tables
  only grow by these rows and the declared constraints still hold, so the delivery is claimable like
  any other. Fresh ids are assumed not to be in use.\<close>

lemma test_queues_delivery:
  assumes "quiet w" and "2 \<le> schema_version (database w)" and "db_ok (database w)"
    and "lookup_row ep_id (req_param r ''id'') (webhook_endpoints (database w)) = Some ep" and "ep_active ep"
    and "id_source w (id_pos w) \<notin> ev_id ` set (events (database w))"
    and "id_source w (Suc (id_pos w)) \<notin> dl_id ` set (webhook_deliveries (database w))"
    and "to_jsonb P (ping_json enc (req_param r ''id'')) = Some j"
    and "run_state (test_endpoint enc P r) w = (resp, w')"
  shows "status resp = 202 \<and> db_ok (database w') \<and>
    map ev_type (events (database w')) = map ev_type (events (database w)) @ [''webhook.test''] \<and>
    webhook_deliveries (database w') = webhook_deliveries (database w) @
      [new_delivery (id_source w (Suc (id_pos w))) (ep_id ep) (id_source w (id_pos w)) (ep_url ep) (ep_secret ep) j (clock w)] \<and>
    due (clock w) (last (webhook_deliveries (database w')))"
proof -
  let ?d = "database w" and ?epID = "req_param r ''id''" and ?ev = "id_source w (id_pos w)" and ?dv = "id_source w (Suc (id_pos w))"
  let ?row = "\<lparr>ev_id = ?ev, ev_type = ''webhook.test'', ev_fiber_ref = Some ?epID, ev_asset = None, ev_amount = None,
     ev_data = j, ev_occurred_at = clock w, ev_ingested_at = clock w, ev_checkpoint = 0\<rparr>"
  let ?dl = "new_delivery ?dv ?epID ?ev (ep_url ep) (ep_secret ep) j (clock w)"
  let ?d' = "?d\<lparr>events := events ?d @ [?row], webhook_deliveries := webhook_deliveries ?d @ [?dl]\<rparr>"
  from assms(4) have ep: "ep \<in> set (webhook_endpoints ?d)" "ep_id ep = ?epID" by (auto dest: lookup_row_SomeD)
  have key: "keyed ep_id (webhook_endpoints ?d)" using assms(3) by (simp add: db_ok_def db_keys_ok_def)
  have only: "x = ep" if "x \<in> set (webhook_endpoints ?d)" "ep_id x = ?epID" for x
    using that keyed_lookup[OF key that(1)] assms(4) by simp
  have found: "find (\<lambda>x. ep_id x = ?epID \<and> ep_active x) (webhook_endpoints ?d) = Some ep"
  proof (cases "find (\<lambda>x. ep_id x = ?epID \<and> ep_active x) (webhook_endpoints ?d)")
    case None
    with ep assms(5) show ?thesis by (auto simp: find_None_iff)
  next
    case (Some x)
    then have "x \<in> set (webhook_endpoints ?d)" "ep_id x = ?epID"
      by (auto simp: find_Some_iff)
    with only Some show ?thesis by simp
  qed
  have free: "lookup_row ev_id ?ev (events ?d) = None" "lookup_row dl_id ?dv (webhook_deliveries ?d) = None"
    using assms(6,7) by (simp_all add: lookup_row_None_iff)
  have refs: "?epID \<in> ep_id ` set (webhook_endpoints ?d)" using ep by force
  have res: "resp = JSON 202 (JObj [(''delivery_id'', JStr ?dv), (''status'', JStr ''queued'')])" "database w' = ?d'"
    using assms(1,2,8,9) found free refs
    by (simp_all add: test_endpoint_def Let_def io_simps on_schema_def id_New_def insert_test_event_def
        insert_test_delivery_def delivery_refs_ok_def) (auto simp: new_delivery_def)
  have "db_ok ?d'"
    using assms(3,6,7) refs
    by (auto simp: db_ok_def db_keys_ok_def db_refs_ok_def keyed_snoc new_delivery_def)
  then show ?thesis using res ep(2) by (simp add: JSON_def new_delivery_def due_def)
qed

end
