(* ===== verification/System_Spec.thy ===== *)
theory System_Spec
  imports System Webhook_Spec
begin

text \<open>
  What holds of the program as a whole, whichever of its processes run and however their statements
  interleave and fail: the declared constraints and the value domains of the schema are invariant,
  and the tables that record what happened only grow.
\<close>

section \<open>Constraints\<close>

lemma endpoints_ok:
  assumes "db_ok d" and "keyed ep_id eps" and "ep_id ` set (webhook_endpoints d) \<subseteq> ep_id ` set eps"
  shows "db_ok (d\<lparr>webhook_endpoints := eps\<rparr>)"
  using assms by (auto simp: db_ok_def db_keys_ok_def db_refs_ok_def)

lemma keys_update_where: "(\<And>x. key (f x) = key x) \<Longrightarrow> key ` set (update_where Q f t) = key ` set t"
  by (metis (no_types, lifting) list.set_map map_key_update_where)

lemma keys_upsert: "(\<And>x. key (f x) = key x) \<Longrightarrow> key ` set t \<subseteq> key ` set (upsert key r f t)"
  by (auto simp: upsert_def keys_update_where)

lemma lasting_db_ok: "lasting D db_ok"
  unfolding lasting_def
proof (intro allI impI)
  fix d d'
  assume "commit D d d'" and ok: "db_ok d"
  then show "db_ok d'"
  proof cases
    case (c_save es K seq now)
    with ok show ?thesis by (simp add: save_effect_ok)
  next
    case (c_subscribe req secret now u)
    let ?t = "upsert ep_id (endpoint_ins (endpoint_id (d_ulid D) (cr_URL req)) req secret now) (endpoint_upd req) (webhook_endpoints d)"
    have "keyed ep_id ?t" using ok by (intro keyed_upsert) (auto simp: endpoint_upd_def db_ok_def db_keys_ok_def)
    moreover have "ep_id ` set (webhook_endpoints d) \<subseteq> ep_id ` set ?t" by (rule keys_upsert) (simp add: endpoint_upd_def)
    ultimately show ?thesis
      using c_subscribe(3) endpoints_ok[OF ok] by (auto simp: create_stmt_def on_schema_def split: if_splits)
  next
    case (c_unsubscribe epID now m)
    let ?t = "update_where (\<lambda>ep. ep_id ep = epID) (\<lambda>ep. ep\<lparr>ep_active := False\<rparr>) (webhook_endpoints d)"
    have "keyed ep_id ?t = keyed ep_id (webhook_endpoints d)" by (rule keyed_update_where) simp
    moreover have "ep_id ` set ?t = ep_id ` set (webhook_endpoints d)" by (rule keys_update_where) simp
    ultimately show ?thesis
      using c_unsubscribe endpoints_ok[OF ok, of ?t] ok
      by (auto simp: deactivate_stmt_def on_schema_def db_ok_def db_keys_ok_def split: if_splits)
  next
    case c_test_event
    with ok show ?thesis
      by (auto simp: insert_test_event_def on_schema_def db_ok_def db_keys_ok_def db_refs_ok_def keyed_snoc lookup_row_None_iff
          split: if_splits option.splits)
  next
    case c_test_delivery
    with ok show ?thesis
      by (auto simp: insert_test_delivery_def on_schema_def db_ok_def db_keys_ok_def db_refs_ok_def keyed_snoc lookup_row_None_iff
          delivery_refs_ok_def new_delivery_def Let_def split: if_splits option.splits)
  next
    case c_claim
    with ok show ?thesis
      by (auto simp: claim_stmt_def claim_rows_def Let_def on_schema_def take_lease_def intro!: deliveries_update_ok split: if_splits)
  next
    case c_requeue
    with ok show ?thesis
      by (auto simp: requeue_stmt_def on_schema_def rearm_def intro!: deliveries_update_ok split: if_splits)
  next
    case c_migrate
    with ok show ?thesis by (simp add: migration_up_def db_ok_def db_keys_ok_def db_refs_ok_def)
  next
    case c_replay
    with ok show ?thesis
      by (auto simp: replay_stmt_def Let_def on_schema_def replayed_def intro!: deliveries_update_ok split: if_splits)
  qed (use ok in \<open>auto simp: mark_stmt_def on_schema_def Let_def set_succeeded_def set_failed_def set_dead_def
         intro: merchant_stmts_ok intro!: deliveries_update_ok split: if_splits\<close>)
qed

section \<open>Value domains\<close>

text \<open>
  What the columns may contain. The status values are those the comments of the migrations list; an
  amount is never negative; an attempt counter stays in its 32-bit column; an order is paid exactly
  from the moment it has a payment time; a refund belongs to a paid order and a refunded order has a
  refund; tables of a migration that has not run are empty.
\<close>

definition amount_ok :: "int option \<Rightarrow> bool" where
  "amount_ok v \<longleftrightarrow> (case v of None \<Rightarrow> True | Some i \<Rightarrow> 0 \<le> i)"

lemma amount_ok_simps [simp]: "amount_ok None" "amount_ok (Some i) \<longleftrightarrow> 0 \<le> i"
  by (simp_all add: amount_ok_def)

definition payment_typed :: "payment_row \<Rightarrow> bool" where
  "payment_typed p \<longleftrightarrow> pay_direction p \<in> {''sent'', ''received''} \<and> pay_status p \<in> {''created'', ''succeeded'', ''failed''} \<and>
     amount_ok (pay_amount p) \<and> amount_ok (pay_fee p)"

definition channel_typed :: "channel_row \<Rightarrow> bool" where
  "channel_typed c \<longleftrightarrow> amount_ok (ch_capacity c) \<and> amount_ok (ch_local_balance c) \<and> amount_ok (ch_remote_balance c)"

definition invoice_typed :: "invoice_row \<Rightarrow> bool" where
  "invoice_typed i \<longleftrightarrow> amount_ok (inv_amount i) \<and> (inv_status i = Some ''paid'' \<longrightarrow> inv_settled_at i \<noteq> None)"

definition endpoint_typed :: "endpoint_row \<Rightarrow> bool" where
  "endpoint_typed ep \<longleftrightarrow> ep_url ep \<noteq> '''' \<and> ep_event_types ep \<noteq> []"

definition delivery_typed :: "delivery_row \<Rightarrow> bool" where
  "delivery_typed dl \<longleftrightarrow> dl_status dl \<in> {''pending'', ''delivering'', ''succeeded'', ''failed'', ''dead''} \<and>
     0 \<le> dl_attempts dl \<and> dl_attempts dl \<le> int4_max"

definition log_typed :: "delivery_log_row \<Rightarrow> bool" where
  "log_typed l \<longleftrightarrow> 1 \<le> log_attempt_no l \<and> log_attempt_no l \<le> int4_max"

definition merchant_typed :: "merchant_row \<Rightarrow> bool" where
  "merchant_typed m \<longleftrightarrow> length (m_api_key_hash m) = 64 \<and> m_settlement_asset m \<noteq> ''''"

definition order_typed :: "order_row \<Rightarrow> bool" where
  "order_typed x \<longleftrightarrow> o_status x \<in> {''pending'', ''paid'', ''expired'', ''refunded''} \<and> amount_ok (o_amount x) \<and>
     (o_status x = ''pending'' \<longrightarrow> o_paid_at x = None) \<and> (o_status x \<in> {''paid'', ''refunded''} \<longrightarrow> o_paid_at x \<noteq> None)"

definition refund_typed :: "db \<Rightarrow> refund_row \<Rightarrow> bool" where
  "refund_typed d r \<longleftrightarrow> amount_ok (rf_amount r) \<and> rf_status r = Some ''sent'' \<and> refundable (rf_order_id r) d"

definition settlement_typed :: "settlement_row \<Rightarrow> bool" where
  "settlement_typed s \<longleftrightarrow> 0 \<le> st_gross s \<and> 0 \<le> st_fees s \<and> 0 \<le> st_net s \<and> st_status s = ''generated''"

definition run_typed :: "reconciliation_row \<Rightarrow> bool" where
  "run_typed r \<longleftrightarrow> run_consistent (rc_period r) (rc_report r) \<and> rc_matched r = rec_Matched (rc_report r) \<and>
     rc_unmatched_count r = rec_UnmatchedCount (rc_report r) \<and> 0 \<le> rc_discrepancy_total r"

definition db_typed :: "db \<Rightarrow> bool" where
  "db_typed d \<longleftrightarrow>
     list_all (\<lambda>e. amount_ok (ev_amount e)) (events d) \<and> list_all payment_typed (payments d) \<and>
     list_all channel_typed (channels d) \<and> list_all invoice_typed (invoices d) \<and>
     list_all endpoint_typed (webhook_endpoints d) \<and> list_all delivery_typed (webhook_deliveries d) \<and>
     list_all log_typed (webhook_delivery_log d) \<and> list_all merchant_typed (merchants d) \<and>
     list_all order_typed (merchant_orders d) \<and> list_all (refund_typed d) (refunds d) \<and>
     list_all (\<lambda>x. o_status x = ''refunded'' \<longrightarrow> refund_recorded (o_id x) d) (merchant_orders d) \<and>
     list_all settlement_typed (settlements d) \<and> list_all run_typed (reconciliation_runs d) \<and> tables_migrated d"

lemmas row_types = amount_ok_def payment_typed_def channel_typed_def invoice_typed_def endpoint_typed_def delivery_typed_def
  log_typed_def merchant_typed_def order_typed_def settlement_typed_def run_typed_def tables_migrated_def

lemma db_typed_empty: "v \<le> 3 \<Longrightarrow> db_typed (empty_db\<lparr>schema_version := v\<rparr>)"
  by (simp add: db_typed_def tables_migrated_def empty_db_def)

lemma list_all_update_where:
  "list_all Q t \<Longrightarrow> (\<And>x. Q x \<Longrightarrow> x \<in> set t \<Longrightarrow> R x \<Longrightarrow> Q (f x)) \<Longrightarrow> list_all Q (update_where R f t)"
  by (auto simp: list_all_iff update_where_def)

lemma list_all_apply_upserts:
  assumes "list_all Q t" and "\<And>e. Q (ins e)" and "\<And>e r. Q r \<Longrightarrow> Q (upd e r)"
  shows "list_all Q (apply_upserts key ins upd es t)"
  using assms(1)
proof (induction es arbitrary: t)
  case Nil
  then show ?case by simp
next
  case (Cons e es)
  have "list_all Q (upsert key (ins e) (upd e) t)"
    using Cons.prems assms(2,3) by (simp add: upsert_def list_all_update_where)
  then show ?case by (simp add: Cons.IH)
qed

lemma list_all_fold_insert_absent:
  "list_all Q t \<Longrightarrow> list_all Q rs \<Longrightarrow> list_all Q (fold (insert_absent key) rs t)"
  using set_fold_insert_absent[of key rs t] by (auto simp: list_all_iff)

lemma assetAmount_ok: "amount_ok (snd (assetAmount K e))"
  by (auto simp: assetAmount_def amount_ok_def split: sum.splits)

lemma match_order_typed: "order_typed x \<Longrightarrow> order_typed (match_order P dats x)"
  by (auto simp: match_order_eq mark_paid_def order_typed_def split: option.splits)

lemma match_order_refunded: "o_status (match_order P dats x) = ''refunded'' \<longleftrightarrow> o_status x = ''refunded''"
  by (auto simp: match_order_eq mark_paid_def order_matches_def find_Some_iff split: option.splits)

lemma fan_out_typed: "list_all delivery_typed (fan_out ulid K P e now d)"
  by (auto simp: fan_out_def list_all_iff new_delivery_def delivery_typed_def int4_max_def split: sum.splits option.splits)

lemma fan_out_old_schema: "schema_version d < 2 \<Longrightarrow> concat (map (\<lambda>e. fan_out ulid K P e now d) es) = []"
  by (auto simp: fan_out_def split: sum.splits option.splits)

lemma save_effect_typed:
  assumes typed: "db_typed d" and v: "1 \<le> schema_version d"
  shows "db_typed (save_effect ulid K P es seq now d)" (is "db_typed ?d")
proof -
  note tabs = save_effect_tables[OF refl, of ulid K P es seq now d]
  let ?dats = "concat (map (invoice_data K) es)"
  have same: "schema_version ?d = schema_version d" "webhook_endpoints ?d = webhook_endpoints d"
    "webhook_delivery_log ?d = webhook_delivery_log d" "merchants ?d = merchants d" "refunds ?d = refunds d"
    "settlements ?d = settlements d" "reconciliation_runs ?d = reconciliation_runs d"
    using tabs(7) by (simp_all add: untouched'_def)
  have "list_all (\<lambda>e. amount_ok (ev_amount e)) (events ?d)"
    unfolding tabs(1) using typed
    by (intro list_all_fold_insert_absent)
       (auto simp: db_typed_def list_all_iff event_data_def event_ins_def assetAmount_ok split: option.splits)
  moreover have "list_all payment_typed (payments ?d)" "list_all channel_typed (channels ?d)" "list_all invoice_typed (invoices ?d)"
    unfolding tabs(2-4) using typed
    by (auto intro!: list_all_apply_upserts simp: db_typed_def payment_ins_def payment_upd_def channel_ins_def channel_upd_def
        invoice_ins_def invoice_upd_def row_types coalesce2_def split: option.splits)
  moreover have "list_all delivery_typed (webhook_deliveries ?d)"
    unfolding tabs(6) using typed fan_out_typed[of ulid K P _ now d]
    by (intro list_all_fold_insert_absent) (auto simp: db_typed_def list_all_iff)
  moreover have "list_all order_typed (merchant_orders ?d)"
    unfolding tabs(5) using typed by (auto simp: db_typed_def list_all_iff match_orders_map match_order_typed)
  moreover have "refundable i ?d" if "refundable i d" for i
    using that by (rule save_keeps_refundable)
  then have "list_all (refund_typed ?d) (refunds ?d)"
    unfolding same using typed by (auto simp: db_typed_def list_all_iff refund_typed_def)
  moreover have "list_all (\<lambda>x. o_status x = ''refunded'' \<longrightarrow> refund_recorded (o_id x) ?d) (merchant_orders ?d)"
    unfolding tabs(5) using typed
    by (auto simp: db_typed_def list_all_iff match_orders_map match_order_refunded match_order_keys refund_recorded_def same)
  moreover have "tables_migrated ?d"
    unfolding tables_migrated_def same tabs(5,6) using typed v
    by (auto simp: db_typed_def tables_migrated_def fan_out_old_schema match_orders_map)
  ultimately show ?thesis using typed unfolding db_typed_def same by blast
qed

lemmas typed_defs = db_typed_def tables_migrated_def refund_typed_def[abs_def] refundable_def refund_recorded_def

lemma mark_refunded_typed:
  assumes typed: "db_typed d" and keys: "keyed o_id (merchant_orders d)" and rec: "refund_recorded i d"
  shows "db_typed (d\<lparr>merchant_orders := update_where (\<lambda>x. o_id x = i) (\<lambda>x. x\<lparr>o_status := ''refunded''\<rparr>) (merchant_orders d)\<rparr>)"
    (is "db_typed ?d")
proof -
  obtain r where "r \<in> set (refunds d)" "rf_order_id r = i" using rec by (auto simp: refund_recorded_def)
  with typed obtain y where y: "y \<in> set (merchant_orders d)" "o_id y = i" "o_status y \<in> {''paid'', ''refunded''}"
    by (auto simp: db_typed_def list_all_iff refund_typed_def refundable_def)
  have "order_typed (x\<lparr>o_status := ''refunded''\<rparr>)" if "x \<in> set (merchant_orders d)" "o_id x = i" "order_typed x" for x
  proof -
    have "x = y" using keys that(1,2) y(1,2) by (auto simp: keyed_def distinct_map inj_on_def)
    with y(3) that(3) show ?thesis by (auto simp: order_typed_def)
  qed
  then have "list_all order_typed (merchant_orders ?d)"
    using typed by (auto simp: db_typed_def intro!: list_all_update_where)
  moreover have "refundable j ?d" if "refundable j d" for j
    using that by (rule refundable_mark)
  then have "list_all (refund_typed ?d) (refunds ?d)"
    using typed by (auto simp: db_typed_def list_all_iff refund_typed_def)
  moreover have "list_all (\<lambda>x. o_status x = ''refunded'' \<longrightarrow> refund_recorded (o_id x) ?d) (merchant_orders ?d)"
    using typed rec by (auto simp: db_typed_def list_all_iff refund_recorded_def update_where_def)
  ultimately show ?thesis using typed by (simp add: db_typed_def tables_migrated_def) (auto simp: update_where_def)
qed

text \<open>Statements on the webhook tables only.\<close>

lemma outbox_typed:
  assumes "db_typed d" and "2 \<le> schema_version d" and "list_all delivery_typed t" and "list_all log_typed L"
  shows "db_typed (d\<lparr>webhook_deliveries := t, webhook_delivery_log := webhook_delivery_log d @ L\<rparr>)"
  using assms by (auto simp: typed_defs)

lemma deliveries_typed:
  assumes "db_typed d" and "2 \<le> schema_version d" and "list_all delivery_typed t"
  shows "db_typed (d\<lparr>webhook_deliveries := t\<rparr>)"
  using assms by (auto simp: typed_defs)

lemma endpoints_typed:
  assumes "db_typed d" and "2 \<le> schema_version d" and "list_all endpoint_typed t"
  shows "db_typed (d\<lparr>webhook_endpoints := t\<rparr>)"
  using assms by (auto simp: typed_defs)

lemma mark_typed:
  assumes run: "mark_stmt i f n err now d = Inr (u, d')" and typed: "db_typed d"
    and f: "\<And>x. delivery_typed x \<Longrightarrow> dl_attempts x < int4_max \<Longrightarrow>
      delivery_typed (f x) \<and> 1 \<le> n (f x) \<and> n (f x) \<le> int4_max"
  shows "db_typed d'"
proof -
  let ?hit = "filter (\<lambda>x. dl_id x = i) (webhook_deliveries d)"
  have d': "d' = d\<lparr>webhook_deliveries := update_where (\<lambda>x. dl_id x = i) f (webhook_deliveries d),
      webhook_delivery_log := webhook_delivery_log d @ map (\<lambda>x. log_attempt i err now (n (f x))) ?hit\<rparr>"
    and v: "2 \<le> schema_version d" and room: "\<forall>x \<in> set ?hit. dl_attempts x \<noteq> int4_max"
    using run by (auto simp: mark_stmt_def on_schema_def Let_def split: if_splits)
  have rows: "list_all delivery_typed (webhook_deliveries d)" using typed by (simp add: db_typed_def)
  have hit: "delivery_typed (f x) \<and> 1 \<le> n (f x) \<and> n (f x) \<le> int4_max" if "x \<in> set (webhook_deliveries d)" "dl_id x = i" for x
    using f[of x] that room rows by (force simp: list_all_iff delivery_typed_def)
  have "list_all delivery_typed (update_where (\<lambda>x. dl_id x = i) f (webhook_deliveries d))"
    by (rule list_all_update_where[OF rows]) (use hit in blast)
  moreover have "list_all log_typed (map (\<lambda>x. log_attempt i err now (n (f x))) ?hit)"
    using hit by (auto simp: list_all_iff log_typed_def log_attempt_def)
  ultimately show ?thesis unfolding d' by (rule outbox_typed[OF typed v])
qed

lemma commit_typed:
  assumes "commit D d d'" and "db_ok d" and typed: "db_typed d"
  shows "db_typed d'"
proof -
  have rows: "list_all delivery_typed (webhook_deliveries d)" "list_all endpoint_typed (webhook_endpoints d)"
    using typed by (simp_all add: db_typed_def)
  from assms(1) show ?thesis
  proof cases
    case c_save
    with typed show ?thesis by (simp add: save_effect_typed)
  next
    case (c_refunded i now u)
    then show ?thesis
      using mark_refunded_typed[OF typed _ c_refunded(1)] assms(2)
      by (auto simp: mark_refunded_stmt_def on_schema_def db_ok_def db_keys_ok_def split: if_splits)
  next
    case (c_order orderID merchantID extID hash amount asset now u)
    let ?x = "order_ins orderID merchantID extID hash amount asset now"
    have "order_typed ?x" "o_status ?x = ''pending''" by (simp_all add: order_ins_def order_typed_def amount_ok_def)
    with typed have "db_typed (d\<lparr>merchant_orders := merchant_orders d @ [?x]\<rparr>)" if "3 \<le> schema_version d"
      using that by (auto simp: typed_defs elim!: list.pred_mono_strong)
    with c_order typed show ?thesis by (auto simp: insert_order_stmt_def on_schema_def Let_def split: if_splits)
  next
    case (c_refund orderID refundID amount asset reason hash now u)
    let ?r = "refund_ins refundID orderID amount asset reason hash now"
    have "refund_typed d ?r" using c_refund(1) by (simp add: refund_ins_def refund_typed_def amount_ok_def)
    moreover have "list_all (\<lambda>x. o_status x = ''refunded'' \<longrightarrow> refund_recorded (o_id x) (d\<lparr>refunds := refunds d @ [?r]\<rparr>)) (merchant_orders d)"
      using typed by (auto simp: db_typed_def refund_recorded_def list_all_iff)
    ultimately have "db_typed (d\<lparr>refunds := refunds d @ [?r]\<rparr>)" if "3 \<le> schema_version d"
      using that typed by (simp add: db_typed_def tables_migrated_def refund_typed_def[abs_def] refundable_def)
    with c_refund typed show ?thesis by (auto simp: insert_refund_stmt_def on_schema_def Let_def split: if_splits)
  next
    case c_provision
    with typed show ?thesis
      by (auto simp: insert_merchant_stmt_def on_schema_def typed_defs HashAPIKey_def length_sha256 merchant_typed_def split: if_splits)
  next
    case c_settle
    with typed show ?thesis
      by (auto simp: insert_settlement_stmt_def on_schema_def typed_defs settlement_typed_def split: if_splits)
  next
    case c_reconcile
    with typed show ?thesis
      by (auto simp: insert_run_stmt_def on_schema_def typed_defs run_typed_def split: if_splits)
  next
    case (c_succeed i now u)
    then show ?thesis
      by (rule mark_typed[OF _ typed]) (auto simp: set_succeeded_def delivery_typed_def)
  next
    case (c_fail i t msg now u)
    then show ?thesis
      by (rule mark_typed[OF _ typed]) (auto simp: set_failed_def delivery_typed_def)
  next
    case (c_dead i now u)
    then show ?thesis
      by (rule mark_typed[OF _ typed]) (auto simp: set_dead_def delivery_typed_def)
  next
    case c_claim
    with typed rows show ?thesis
      by (auto simp: claim_stmt_def on_schema_def claim_rows_def Let_def take_lease_def delivery_typed_def
          intro!: deliveries_typed list_all_update_where split: if_splits)
  next
    case c_migrate
    with typed show ?thesis
      by (simp add: migration_up_def db_typed_def tables_migrated_def refund_typed_def[abs_def] refundable_def refund_recorded_def)
  next
    case c_requeue
    with typed rows show ?thesis
      by (auto simp: requeue_stmt_def on_schema_def rearm_def delivery_typed_def
          intro!: deliveries_typed list_all_update_where split: if_splits)
  next
    case c_replay
    with typed rows show ?thesis
      by (auto simp: replay_stmt_def on_schema_def Let_def replayed_def delivery_typed_def int4_max_def
          intro!: deliveries_typed list_all_update_where split: if_splits)
  next
    case c_test_delivery
    with typed rows show ?thesis
      by (auto simp: insert_test_delivery_def on_schema_def Let_def new_delivery_def delivery_typed_def int4_max_def
          intro!: deliveries_typed split: if_splits option.splits)
  next
    case (c_test_event evtID epID ping now u)
    then obtain e where "d' = d\<lparr>events := events d @ [e]\<rparr>" "1 \<le> schema_version d" "ev_amount e = None"
      by (auto simp: insert_test_event_def on_schema_def split: if_splits option.splits)
    with typed show ?thesis by (simp add: typed_defs)
  next
    case c_subscribe
    with typed rows show ?thesis
      by (auto simp: create_stmt_def on_schema_def upsert_def endpoint_ins_def endpoint_upd_def endpoint_typed_def
          intro!: endpoints_typed list_all_update_where split: if_splits)
  next
    case c_unsubscribe
    with typed rows show ?thesis
      by (auto simp: deactivate_stmt_def on_schema_def endpoint_typed_def
          intro!: endpoints_typed list_all_update_where split: if_splits)
  qed
qed

section \<open>History\<close>

text \<open>
  How a table may change while the program runs: rows are never removed or reordered, new rows go to
  the end, and a row changes only as a relation \<open>R\<close> on rows allows.
\<close>

definition extends :: "('r \<Rightarrow> 'r \<Rightarrow> bool) \<Rightarrow> 'r list \<Rightarrow> 'r list \<Rightarrow> bool" where
  "extends R xs ys \<longleftrightarrow> length xs \<le> length ys \<and> list_all2 R xs (take (length xs) ys)"

locale row_change =
  fixes R :: "'r \<Rightarrow> 'r \<Rightarrow> bool"
  assumes row_refl: "R x x"
begin

lemma extends_map: "(\<And>x. x \<in> set xs \<Longrightarrow> R x (f x)) \<Longrightarrow> extends R xs (map f xs)"
  by (simp add: extends_def list_all2_conv_all_nth)

lemma extends_append: "extends R xs (xs @ ys)"
  by (simp add: extends_def list_all2_refl row_refl)

lemma extends_same: "extends R xs xs"
  using extends_append[of xs "[]"] by simp

lemma extends_update: "(\<And>x. x \<in> set xs \<Longrightarrow> Q x \<Longrightarrow> R x (f x)) \<Longrightarrow> extends R xs (update_where Q f xs)"
  unfolding update_where_def by (rule extends_map) (auto intro: row_refl)

end

text \<open>Changes that add up to a change of the same kind.\<close>

locale row_history = row_change +
  assumes row_trans: "R x y \<Longrightarrow> R y z \<Longrightarrow> R x z"
begin

lemma extends_trans: "extends R xs ys \<Longrightarrow> extends R ys zs \<Longrightarrow> extends R xs zs"
  unfolding extends_def list_all2_conv_all_nth by (auto intro: row_trans)

lemma extends_upserts:
  assumes "\<And>e x. R x (upd e x)"
  shows "extends R t (apply_upserts key ins upd es t)"
proof (induction es arbitrary: t)
  case Nil
  then show ?case by (simp add: extends_same)
next
  case (Cons e es)
  have "extends R t (upsert key (ins e) (upd e) t)"
    using assms by (simp add: upsert_def extends_append extends_update)
  from extends_trans[OF this Cons.IH] show ?case by simp
qed

lemma extends_insert_absents: "extends R t (fold (insert_absent key) rs t)"
proof (induction rs arbitrary: t)
  case Nil
  then show ?case by (simp add: extends_same)
next
  case (Cons r rs)
  have "extends R t (insert_absent key r t)" by (simp add: insert_absent_def extends_append extends_same)
  from extends_trans[OF this Cons.IH] show ?case by simp
qed

end

text \<open>
  The relations: a record of what happened never changes; a delivery keeps what it delivers, to whom
  and with which secret; an endpoint keeps its secret; a payment keeps its first creation time. An
  order makes the steps of its life cycle and no others: a pending order becomes paid and gets its
  payment time, a paid order becomes refunded; nothing else of it changes.
\<close>

definition delivery_core :: "delivery_row \<Rightarrow> string \<times> string \<times> string \<times> string \<times> string \<times> string \<times> time" where
  "delivery_core x = (dl_id x, dl_endpoint_id x, dl_event_id x, dl_url x, dl_secret x, dl_payload x, dl_created_at x)"

definition endpoint_core :: "endpoint_row \<Rightarrow> string \<times> string option \<times> string \<times> time" where
  "endpoint_core x = (ep_id x, ep_merchant_id x, ep_secret x, ep_created_at x)"

definition payment_core :: "payment_row \<Rightarrow> string \<times> int option \<times> time option" where
  "payment_core x = (pay_hash x, pay_fee x, pay_created_at x)"

definition order_core ::
    "order_row \<Rightarrow> string \<times> string \<times> string option \<times> string option \<times> int option \<times> string option \<times> time" where
  "order_core x = (o_id x, o_merchant_id x, o_external_order_id x, o_invoice_payment_hash x, o_amount x, o_asset x, o_created_at x)"

inductive order_step :: "order_row \<Rightarrow> order_row \<Rightarrow> bool" where
  order_stays: "order_step x x"
| order_paid: "o_status x = ''pending'' \<Longrightarrow> order_step x (x\<lparr>o_status := ''paid'', o_paid_at := Some t\<rparr>)"
| order_refunded: "o_status x = ''paid'' \<Longrightarrow> order_step x (x\<lparr>o_status := ''refunded''\<rparr>)"

abbreviation order_steps :: "order_row \<Rightarrow> order_row \<Rightarrow> bool" where
  "order_steps \<equiv> order_step\<^sup>*\<^sup>*"

lemma order_steps_keep:
  assumes "order_steps x y"
  shows "order_core y = order_core x \<and>
    (o_status y = o_status x \<or> (o_status x, o_status y) \<in> {(''pending'', ''paid''), (''pending'', ''refunded''), (''paid'', ''refunded'')}) \<and>
    (o_status x \<noteq> ''pending'' \<longrightarrow> o_paid_at y = o_paid_at x)"
  using assms
proof (induction rule: rtranclp_induct)
  case (step y z)
  from step(2,3) show ?case by cases (auto simp: order_core_def)
qed simp

interpretation fixed: row_history "(=)"
  by unfold_locales simp_all

interpretation core: row_history "\<lambda>x y. f x = f y" for f
  by unfold_locales simp_all

interpretation ord: row_change order_step
  by unfold_locales (rule order_stays)

interpretation ords: row_history order_steps
  by unfold_locales auto

text \<open>How the database changes when its orders change by \<open>R\<close>: in any number of commits, and in one of them.
  One commit moves an order by at most one step, and an order begins pending and without a payment time.\<close>

definition evolves_by :: "(order_row \<Rightarrow> order_row \<Rightarrow> bool) \<Rightarrow> db \<Rightarrow> db \<Rightarrow> bool" where
  "evolves_by R d d' \<longleftrightarrow> schema_version d \<le> schema_version d' \<and>
     extends (=) (events d) (events d') \<and> extends (=) (webhook_delivery_log d) (webhook_delivery_log d') \<and>
     extends (=) (merchants d) (merchants d') \<and> extends (=) (refunds d) (refunds d') \<and>
     extends (=) (settlements d) (settlements d') \<and> extends (=) (reconciliation_runs d) (reconciliation_runs d') \<and>
     extends (\<lambda>x y. payment_core x = payment_core y) (payments d) (payments d') \<and>
     extends (\<lambda>x y. ch_id x = ch_id y) (channels d) (channels d') \<and>
     extends (\<lambda>x y. inv_hash x = inv_hash y) (invoices d) (invoices d') \<and>
     extends (\<lambda>x y. endpoint_core x = endpoint_core y) (webhook_endpoints d) (webhook_endpoints d') \<and>
     extends (\<lambda>x y. delivery_core x = delivery_core y) (webhook_deliveries d) (webhook_deliveries d') \<and>
     extends R (merchant_orders d) (merchant_orders d')"

definition evolves :: "db \<Rightarrow> db \<Rightarrow> bool" where
  "evolves d d' \<longleftrightarrow> evolves_by order_steps d d'"

definition new_orders :: "db \<Rightarrow> db \<Rightarrow> order_row list" where
  "new_orders d d' = drop (length (merchant_orders d)) (merchant_orders d')"

definition history_step :: "db \<Rightarrow> db \<Rightarrow> bool" where
  "history_step d d' \<longleftrightarrow> evolves_by order_step d d' \<and>
     list_all (\<lambda>x. o_status x = ''pending'' \<and> o_paid_at x = None) (new_orders d d')"

lemmas extends_same = fixed.extends_same core.extends_same ord.extends_same ords.extends_same
lemmas extends_append = fixed.extends_append core.extends_append ord.extends_append ords.extends_append
lemmas history_defs = history_step_def evolves_by_def new_orders_def

lemma history_step_evolves: "history_step d d' \<Longrightarrow> evolves d d'"
  by (auto simp: history_defs evolves_def extends_def elim: list_all2_mono)

lemma evolves_refl: "evolves d d"
  by (simp add: evolves_def evolves_by_def extends_same)

lemma evolves_trans: "evolves d1 d2 \<Longrightarrow> evolves d2 d3 \<Longrightarrow> evolves d1 d3"
  unfolding evolves_def evolves_by_def
  by (elim conjE, intro conjI; (erule (1) fixed.extends_trans | erule (1) core.extends_trans | erule (1) ords.extends_trans | simp))

lemma match_order_step: "order_step x (match_order P dats x)"
  by (auto simp: match_order_eq mark_paid_def order_matches_def find_Some_iff split: option.splits
      intro: order_stays order_paid)

lemma save_effect_history: "history_step d (save_effect ulid K P es seq now d)"
proof -
  note tabs = save_effect_tables[OF refl, of ulid K P es seq now d]
  have "extends order_step (merchant_orders d) (map (match_order P (concat (map (invoice_data K) es))) (merchant_orders d))"
    by (intro ord.extends_map match_order_step)
  moreover have "extends (\<lambda>x y. payment_core x = payment_core y) (payments d) (payments (save_effect ulid K P es seq now d))"
    "extends (\<lambda>x y. ch_id x = ch_id y) (channels d) (channels (save_effect ulid K P es seq now d))"
    "extends (\<lambda>x y. inv_hash x = inv_hash y) (invoices d) (invoices (save_effect ulid K P es seq now d))"
    unfolding tabs(2-4)
    by (rule core.extends_upserts, auto simp: payment_core_def payment_upd_def channel_upd_def invoice_upd_def)+
  ultimately show ?thesis
    using tabs(7) unfolding history_defs tabs(1,5,6) match_orders_map untouched'_def
    by (auto simp: extends_same fixed.extends_insert_absents core.extends_insert_absents)
qed

lemma core_setters [simp]:
  "endpoint_core (endpoint_upd req x) = endpoint_core x" "endpoint_core (x\<lparr>ep_active := False\<rparr>) = endpoint_core x"
  "delivery_core (take_lease s now y) = delivery_core y" "delivery_core (rearm now y) = delivery_core y"
  "delivery_core (replayed now y) = delivery_core y" "delivery_core (set_succeeded y) = delivery_core y"
  "delivery_core (set_failed t msg y) = delivery_core y" "delivery_core (set_dead y) = delivery_core y"
  by (simp_all add: endpoint_core_def endpoint_upd_def delivery_core_def take_lease_def rearm_def replayed_def
      set_succeeded_def set_failed_def set_dead_def)

lemma commit_history:
  assumes "commit D d d'" and "db_ok d" and typed: "db_typed d"
  shows "history_step d d'"
  using assms(1)
proof cases
  case c_save
  then show ?thesis by (simp add: save_effect_history)
next
  case (c_refunded i now u)
  obtain y where y: "y \<in> set (merchant_orders d)" "o_id y = i" "o_status y \<in> {''paid'', ''refunded''}"
    using typed c_refunded(1) by (auto simp: db_typed_def list_all_iff refund_typed_def refundable_def refund_recorded_def)
  have "order_step x (x\<lparr>o_status := ''refunded''\<rparr>)" if "x \<in> set (merchant_orders d)" "o_id x = i" for x
  proof -
    have "x = y" using assms(2) that y(1,2) by (auto simp: db_ok_def db_keys_ok_def keyed_def distinct_map inj_on_def)
    moreover have "y\<lparr>o_status := ''refunded''\<rparr> = y" if "o_status y = ''refunded''" using that by (cases y) simp
    then have "order_step y (y\<lparr>o_status := ''refunded''\<rparr>)" using y(3) order_refunded order_stays by (metis insertE singletonD)
    ultimately show ?thesis by simp
  qed
  then have "extends order_step (merchant_orders d) (update_where (\<lambda>x. o_id x = i) (\<lambda>x. x\<lparr>o_status := ''refunded''\<rparr>) (merchant_orders d))"
    by (intro ord.extends_update) simp
  with c_refunded show ?thesis
    by (auto simp: mark_refunded_stmt_def on_schema_def history_defs extends_same split: if_splits)
next
  case c_subscribe
  with typed show ?thesis
    by (auto simp: create_stmt_def on_schema_def upsert_def history_defs extends_same extends_append
        intro!: core.extends_update split: if_splits)
next
  case c_unsubscribe
  with typed show ?thesis
    by (auto simp: deactivate_stmt_def on_schema_def history_defs extends_same
        intro!: core.extends_update split: if_splits)
next
  case c_claim
  then show ?thesis
    by (auto simp: claim_stmt_def on_schema_def claim_rows_def Let_def history_defs extends_same
        intro!: core.extends_update split: if_splits)
next
  case c_migrate
  then show ?thesis by (simp add: migration_up_def history_defs extends_same)
next
  case c_requeue
  then show ?thesis
    by (auto simp: requeue_stmt_def on_schema_def history_defs extends_same
        intro!: core.extends_update split: if_splits)
next
  case c_replay
  then show ?thesis
    by (auto simp: replay_stmt_def on_schema_def Let_def history_defs extends_same
        intro!: core.extends_update split: if_splits)
next
  case c_test_event
  then show ?thesis
    by (auto simp: insert_test_event_def on_schema_def history_defs extends_same extends_append split: if_splits option.splits)
next
  case c_test_delivery
  then show ?thesis
    by (auto simp: insert_test_delivery_def on_schema_def Let_def history_defs extends_same extends_append split: if_splits option.splits)
qed (auto simp: mark_stmt_def insert_order_stmt_def insert_refund_stmt_def insert_settlement_stmt_def insert_run_stmt_def
       insert_merchant_stmt_def on_schema_def Let_def order_ins_def
       history_defs extends_same extends_append intro!: core.extends_update split: if_splits)

section \<open>The program\<close>

text \<open>A process runs one operation after the other, while the other processes do the same.\<close>

definition run_operations :: "(world \<Rightarrow> world) list \<Rightarrow> world \<Rightarrow> world" where
  "run_operations fs w = fold (\<lambda>f. f) fs w"

lemma run_operations_commits:
  assumes "list_all (operation D) fs" and "rely D w"
  shows "commits D (database w) (database (run_operations fs w)) \<and> rely D (run_operations fs w)"
  using assms
proof (induction fs arbitrary: w)
  case Nil
  then show ?case by (simp add: run_operations_def)
next
  case (Cons f fs)
  have "commits D (database w) (database (f w))" and r: "rely D (f w)"
    using operation_commits[of D f w] Cons.prems by simp_all
  moreover have "commits D (database (f w)) (database (run_operations fs (f w))) \<and> rely D (run_operations fs (f w))"
    using Cons.IH[OF _ r] Cons.prems(1) by simp
  ultimately show ?case by (auto simp: run_operations_def intro: rtranclp_trans)
qed

lemma commits_history:
  assumes "commits D d d'" and "db_ok d" and "db_typed d"
  shows "db_ok d' \<and> db_typed d' \<and> history_step\<^sup>*\<^sup>* d d'"
  using assms
proof (induction rule: rtranclp_induct)
  case (step y z)
  then show ?case
    using lasting_db_ok[of D] commit_typed[of D y z] commit_history[of D y z] by (auto simp: lasting_def)
qed simp

lemma history_evolves: "history_step\<^sup>*\<^sup>* d d' \<Longrightarrow> evolves d d'"
  by (induction rule: rtranclp_induct) (auto intro: evolves_refl evolves_trans history_step_evolves)

lemma commits_sound:
  assumes "commits D d d'" and "db_ok d" and "db_typed d"
  shows "db_ok d' \<and> db_typed d' \<and> evolves d d'"
  using commits_history[OF assms] history_evolves by blast

lemma effect_commits: "(\<And>x d'. q now d = Inr (x, d') \<Longrightarrow> commit D d d') \<Longrightarrow> commits D d (effect q now d)"
  by (auto simp: effect_def split: sum.splits prod.splits)

text \<open>Instances for the witnesses: a world in which another process sweeps and an acknowledgement is lost.\<close>

definition sample_deps :: deps where
  "sample_deps = \<lparr>d_fibertypes = sample_fibertypes, d_postgres = sample_postgres, d_node = sample_node,
     d_excelize = \<lparr>NewSheet = None, WriteToBuffer = (\<lambda>_ _. Inr '''')\<rparr>, d_ulid = (\<lambda>_. ''''), d_quote = (\<lambda>s. s), d_rows = 10\<rparr>"

definition sample_typed :: db where
  "sample_typed = sample_db\<lparr>merchants := [sample_merchant\<lparr>m_api_key_hash := replicate 64 (CHR ''0'')\<rparr>]\<rparr>"

definition sample_busy :: world where
  "sample_busy = (sample_world sample_typed)\<lparr>schedule := [\<lparr>others = effect requeue_stmt 5, tick_reply = Ok_reply\<rparr>,
     quiet_tick, \<lparr>others = effect requeue_stmt 6, tick_reply = Fail_after ''reset''\<rparr>]\<rparr>"

definition sample_operations :: "(world \<Rightarrow> world) list" where
  "sample_operations = [\<lambda>w. snd (run_state (Save (d_ulid sample_deps) sample_kevents (d_postgres sample_deps) (Handle New sample_invoice) 4) w),
     \<lambda>w. snd (run_state (ClaimDue NewStore (\<lambda>_. False) 5) w), \<lambda>w. snd (run_state (Provision ''shop'' '''') w)]"

lemma sample_operations_ok: "list_all (operation sample_deps) sample_operations"
  unfolding sample_operations_def list.pred_inject by (intro conjI op_save op_claim op_provision) simp_all

lemma sample_busy_rely: "rely sample_deps sample_busy"
  by (auto simp: rely_def sample_busy_def quiet_tick_def intro: effect_commits c_requeue)

lemma sample_busy_ok: "db_ok (database sample_busy)" "db_typed (database sample_busy)"
proof -
  show "db_ok (database sample_busy)"
    by (simp add: sample_busy_def sample_typed_def sample_defs db_ok_def db_keys_ok_def db_refs_ok_def orders_unique_def keyed_def
        map_filter_simps order_ext_key_def)
  show "db_typed (database sample_busy)"
    by (simp add: sample_busy_def sample_typed_def sample_defs db_typed_def row_types)
qed

text \<open>C3: the declared constraints are an invariant of the whole program. Whatever sequence of operations a process
  runs (any request to any route, saving changes, claiming and marking deliveries, sweeping,
  migrating, provisioning) and whatever fails, if the other processes only commit what operations of the
  program commit and the primary keys, the uniqueness of external order ids and the foreign keys hold
  at the start, they hold at the end.\<close>

theorem system_keeps_constraints:
  assumes "list_all (operation D) fs" and "rely D w" and "db_ok (database w)"
  shows "db_ok (database (run_operations fs w))"
  using lasting_commits[OF lasting_db_ok conjunct1[OF run_operations_commits[OF assms(1,2)]] assms(3)] .

theorem system_keeps_constraints_witness: "db_ok (database (run_operations sample_operations sample_busy))"
  by (rule system_keeps_constraints[OF sample_operations_ok sample_busy_rely sample_busy_ok(1)])

text \<open>C17: the value domains of the columns are an invariant of the whole program. Under the same conditions every
  status is one of the values the schema documents, amounts are not negative, attempt counters stay
  in their 32-bit column, an order has a payment time exactly if it is paid or refunded, every refund
  belongs to a paid order, every refunded order has a refund, stored reconciliations agree with their
  report, API keys are stored as 64-digit hashes, and tables that no migration has created are empty.\<close>

theorem system_keeps_types:
  assumes "list_all (operation D) fs" and "rely D w" and "db_ok (database w)" and "db_typed (database w)"
  shows "db_typed (database (run_operations fs w))"
  using commits_sound[OF conjunct1[OF run_operations_commits[OF assms(1,2)]] assms(3,4)] by simp

theorem system_keeps_types_witness: "db_typed (database (run_operations sample_operations sample_busy))"
  by (rule system_keeps_types[OF sample_operations_ok sample_busy_rely sample_busy_ok])

text \<open>C4: the program keeps its history. No operation, whatever runs beside it and whatever fails, undoes a migration or
  removes or reorders rows; events, the attempt log, merchants, refunds, settlements and reconciliations never change
  once written; a delivery keeps its endpoint, event, url, secret and payload, an endpoint its secret,
  a payment its creation time. The run is a sequence of commits in each of which every stored order makes one
  step of its life cycle or none (\<open>order_step\<close>: a pending order becomes paid and gets its payment time, a paid
  order becomes refunded) and keeps everything else, and every new order is pending and without a payment time;
  over the whole run every order therefore goes from pending over paid to refunded only, keeps its merchant,
  ids, amount, asset and invoice, and keeps its payment time once it is paid.\<close>

theorem history_is_kept:
  assumes "list_all (operation D) fs" and "rely D w" and "db_ok (database w)" and "db_typed (database w)"
  shows "history_step\<^sup>*\<^sup>* (database w) (database (run_operations fs w)) \<and>
    evolves (database w) (database (run_operations fs w))"
  using commits_history[OF conjunct1[OF run_operations_commits[OF assms(1,2)]] assms(3,4)] history_evolves by blast

theorem history_is_kept_witness:
  "history_step\<^sup>*\<^sup>* sample_typed (database (run_operations sample_operations sample_busy)) \<and>
   evolves sample_typed (database (run_operations sample_operations sample_busy))"
  using history_is_kept[OF sample_operations_ok sample_busy_rely sample_busy_ok] by (simp add: sample_busy_def sample_world_def)

end
