(* ===== verification/Delivery_Spec.thy ===== *)
theory Delivery_Spec
  imports System_Spec
begin

text \<open>
  Every delivery gets its turn. \<open>ClaimDue\<close> hands out at most its limit of deliveries, so a delivery with
  others before it waits for later polls. The locale \<open>fair_service\<close> bounds the wait of a customer of any
  service that clears a batch of those ahead per round; it is interpreted on the polls of the workers,
  between which all other processes go on committing.
\<close>

section \<open>Service in turn\<close>

locale fair_service =
  fixes round :: "'r \<Rightarrow> 'st \<Rightarrow> 'st"
    and fair :: "'r \<Rightarrow> bool"
    and waiting :: "'st \<Rightarrow> bool"
    and serves :: "'r \<Rightarrow> 'st \<Rightarrow> bool"
    and ahead :: "'st \<Rightarrow> nat"
    and batch :: nat
  assumes in_line: "waiting st \<Longrightarrow> 0 < ahead st"
    and progress: "fair r \<Longrightarrow> waiting st \<Longrightarrow> \<not> serves r st \<Longrightarrow> waiting (round r st) \<and> ahead (round r st) + batch \<le> ahead st"
begin

lemma served_in_turn:
  assumes "list_all fair rs" and "waiting st" and "ahead st \<le> length rs * batch"
  shows "\<exists>rs1 r rs2. rs = rs1 @ r # rs2 \<and> waiting (fold round rs1 st) \<and> serves r (fold round rs1 st)"
  using assms
proof (induction rs arbitrary: st)
  case Nil
  with in_line[of st] show ?case by simp
next
  case (Cons r rs)
  show ?case
  proof (cases "serves r st")
    case True
    with Cons.prems(2) show ?thesis by (intro exI[of _ "[]"] exI[of _ r] exI[of _ rs]) simp
  next
    case False
    with progress[of r st] Cons.prems have "waiting (round r st)" "ahead (round r st) \<le> length rs * batch" by auto
    with Cons.IH[of "round r st"] Cons.prems(1) obtain rs1 r' rs2 where
      "rs = rs1 @ r' # rs2" "waiting (fold round rs1 (round r st))" "serves r' (fold round rs1 (round r st))" by auto
    then show ?thesis by (intro exI[of _ "r # rs1"] exI[of _ r'] exI[of _ rs2]) simp
  qed
qed

end

section \<open>Polls\<close>

text \<open>One poll of a worker: what the other processes have committed since the last one, the time at which it
  is made, and the rows other transactions hold locked while it runs.\<close>

type_synonym poll_round = "(db \<Rightarrow> db) \<times> time \<times> (string \<Rightarrow> bool)"

definition before_poll :: "(db \<Rightarrow> db) \<Rightarrow> time \<Rightarrow> world \<Rightarrow> world" where
  "before_poll g now w = w\<lparr>clock := now, database := g (database w)\<rparr>"

definition poll :: "store \<Rightarrow> int \<Rightarrow> poll_round \<Rightarrow> (world, kdelivery list \<times> error option) state" where
  "poll s limit = (\<lambda>(g, now, locked). do {
     State (\<lambda>w. ((), before_poll g now w));
     ClaimDue s locked limit })"

definition polls :: "store \<Rightarrow> int \<Rightarrow> poll_round list \<Rightarrow> world \<Rightarrow> world" where
  "polls s limit rs = fold (\<lambda>r w. snd (run_state (poll s limit r) w)) rs"

text \<open>The other processes commit what the program commits (claims of other workers included), but do not take,
  mark or replay the waiting delivery, and queue nothing to be due as early as it is: new, failed,
  replayed and swept deliveries are all due at their own, later time.\<close>

definition lets_wait :: "deps \<Rightarrow> delivery_row \<Rightarrow> (db \<Rightarrow> db) \<Rightarrow> bool" where
  "lets_wait D dl g \<longleftrightarrow> (\<forall>d. commits D d (g d) \<and>
     (dl \<in> set (webhook_deliveries d) \<longrightarrow> dl \<in> set (webhook_deliveries (g d)) \<and>
        (\<forall>x \<in> set (webhook_deliveries (g d)). due (dl_next_attempt_at dl) x \<longrightarrow> x \<in> set (webhook_deliveries d))))"

definition fair_round :: "deps \<Rightarrow> delivery_row \<Rightarrow> poll_round \<Rightarrow> bool" where
  "fair_round D dl = (\<lambda>(g, now, locked). lets_wait D dl g \<and> dl_next_attempt_at dl \<le> now \<and> \<not> locked (dl_id dl))"

definition queued :: "delivery_row \<Rightarrow> event_row \<Rightarrow> world \<Rightarrow> bool" where
  "queued dl e w \<longleftrightarrow> quiet w \<and> 2 \<le> schema_version (database w) \<and> db_ok (database w) \<and> db_typed (database w) \<and>
     dl \<in> set (webhook_deliveries (database w)) \<and> dl_status dl \<in> {''pending'', ''failed''} \<and>
     e \<in> set (events (database w)) \<and> ev_id e = dl_event_id dl"

definition ahead_of :: "delivery_row \<Rightarrow> world \<Rightarrow> nat" where
  "ahead_of dl w = length (filter (due (dl_next_attempt_at dl)) (webhook_deliveries (database w)))"

definition claims :: "nat \<Rightarrow> delivery_row \<Rightarrow> poll_round \<Rightarrow> world \<Rightarrow> bool" where
  "claims n dl = (\<lambda>(g, now, locked) w. dl \<in> set (claimable n locked now (webhook_deliveries (g (database w)))))"

lemma extends_fixed_mem: "extends (=) xs ys \<Longrightarrow> x \<in> set xs \<Longrightarrow> x \<in> set ys"
  unfolding extends_def list.rel_eq by (metis in_set_takeD)

lemma length_filter_keyed_le:
  assumes "keyed key t" and "\<forall>x \<in> set t. Q x \<longrightarrow> x \<in> set u"
  shows "length (filter Q t) \<le> length (filter Q u)"
proof -
  have "distinct (filter Q t)" using assms(1) by (simp add: keyed_def distinct_map)
  moreover have "set (filter Q t) \<subseteq> set (filter Q u)" using assms(2) by auto
  ultimately show ?thesis
    by (metis card_length card_mono distinct_card le_trans List.finite_set)
qed

text \<open>What the others commit before a poll keeps the delivery in line.\<close>

lemma queued_commits:
  assumes "queued dl e w" and "commits D (database w) d" and "dl \<in> set (webhook_deliveries d)"
  shows "queued dl e (w\<lparr>clock := t, database := d\<rparr>)"
proof -
  have "db_ok d \<and> db_typed d \<and> evolves (database w) d"
    using commits_sound[OF assms(2)] assms(1) by (simp add: queued_def)
  with assms(1,3) show ?thesis
    by (auto simp: queued_def evolves_def evolves_by_def intro: extends_fixed_mem)
qed

lemma queued_mem: "queued dl e w \<Longrightarrow> dl \<in> set (webhook_deliveries (database w))"
  by (simp add: queued_def)

lemma queued_before_poll:
  assumes "queued dl e w" and "lets_wait D dl g"
  shows "queued dl e (before_poll g now w)" and "ahead_of dl (before_poll g now w) \<le> ahead_of dl w"
proof -
  have g: "commits D (database w) (g (database w))" "dl \<in> set (webhook_deliveries (g (database w)))"
    "\<forall>x \<in> set (webhook_deliveries (g (database w))). due (dl_next_attempt_at dl) x \<longrightarrow> x \<in> set (webhook_deliveries (database w))"
    using assms(2) queued_mem[OF assms(1)] unfolding lets_wait_def by blast+
  show q: "queued dl e (before_poll g now w)"
    unfolding before_poll_def by (rule queued_commits[OF assms(1) g(1,2)])
  then have "keyed dl_id (webhook_deliveries (g (database w)))"
    by (simp add: queued_def before_poll_def db_ok_def db_keys_ok_def)
  from length_filter_keyed_le[OF this g(3)] show "ahead_of dl (before_poll g now w) \<le> ahead_of dl w"
    by (simp add: ahead_of_def before_poll_def)
qed

text \<open>A claim that leaves a due delivery out takes its full limit of deliveries that were due no later.\<close>

lemma left_out_is_full:
  assumes "dl \<in> set t" and "due now dl" and "\<not> locked (dl_id dl)" and "dl \<notin> set (claimable n locked now t)"
  shows "length (claimable n locked now t) = n"
proof (rule ccontr)
  let ?c = "filter (\<lambda>dl. \<not> locked (dl_id dl)) (sort_by due_before (filter (due now) t))"
  assume "length (claimable n locked now t) \<noteq> n"
  then have "take n ?c = ?c" by (simp add: claimable_def)
  with assms show False by (simp add: claimable_def)
qed

lemma leased_not_due:
  "(\<And>x. \<not> A (f x)) \<Longrightarrow> length (filter A (update_where Q f t)) = length (filter (\<lambda>x. A x \<and> \<not> Q x) t)"
  by (induction t) (auto simp: update_where_def)

lemma length_filter_split: "length (filter A t) = length (filter (\<lambda>x. A x \<and> Q x) t) + length (filter (\<lambda>x. A x \<and> \<not> Q x) t)"
  by (induction t) auto

lemma claim_shortens:
  assumes key: "keyed dl_id t" and dl: "dl \<in> set t" "due now dl" "\<not> locked (dl_id dl)" "dl \<notin> set (claimable n locked now t)"
  shows "length (filter (due (dl_next_attempt_at dl)) (claim_rows s n locked now t)) + n =
    length (filter (due (dl_next_attempt_at dl)) t)"
proof -
  let ?A = "due (dl_next_attempt_at dl)" and ?ids = "dl_id ` set (claimable n locked now t)"
  have same: "x \<in> set (claimable n locked now t)" if "x \<in> set t" "dl_id x \<in> ?ids" for x
  proof -
    from that(2) obtain y where y: "y \<in> set (claimable n locked now t)" "dl_id y = dl_id x" by auto
    with claimable_due[OF y(1)] that(1) key have "y = x" by (metis keyed_lookup option.inject)
    with y show ?thesis by simp
  qed
  have "?A x" if "x \<in> set t" "dl_id x \<in> ?ids" for x
    using claim_rest_later[OF dl same[OF that]] claimable_due[OF same[OF that]] by (auto simp: due_def)
  then have "filter (\<lambda>x. ?A x \<and> dl_id x \<in> ?ids) t = filter (\<lambda>x. dl_id x \<in> ?ids) t"
    by (intro filter_cong) auto
  moreover have "length (filter (\<lambda>x. dl_id x \<in> ?ids) t) = n"
  proof -
    have "length (filter (\<lambda>i. i \<in> set (map dl_id (claimable n locked now t))) (map dl_id t)) =
        length (map dl_id (claimable n locked now t))"
      using key distinct_claimable[OF key] claimable_due by (intro length_filter_mem) (fastforce simp: keyed_def)+
    then show ?thesis using left_out_is_full[OF dl] by (simp add: filter_map comp_def)
  qed
  moreover have "length (filter ?A (claim_rows s n locked now t)) = length (filter (\<lambda>x. ?A x \<and> dl_id x \<notin> ?ids) t)"
    using leased_not_due[of ?A "take_lease s now"] by (simp add: claim_rows_def Let_def due_def take_lease_def)
  moreover note length_filter_split[of ?A t "\<lambda>x. dl_id x \<in> ?ids"]
  ultimately show ?thesis by simp
qed

lemma run_poll:
  assumes "queued dl e w" and "fair_round D dl (g, now, locked)" and "w1 = before_poll g now w" and "d = database w1"
    and "t = webhook_deliveries d" and "ids = dl_id ` set (claimable n locked now t)"
  shows "run_state (poll s (int n) (g, now, locked)) w =
    ((map (kdelivery_of d) (filter (\<lambda>dl. dl_id dl \<in> ids) (claim_rows s n locked now t)), None),
     w1\<lparr>database := d\<lparr>webhook_deliveries := claim_rows s n locked now t\<rparr>\<rparr>)"
proof -
  have q: "queued dl e w1" and "clock w1 = now"
    using queued_before_poll(1)[OF assms(1), of D g now] assms(2,3) by (simp_all add: fair_round_def) (simp add: before_poll_def)
  then show ?thesis
    using run_ClaimDue[of w1 "int n" t ids locked s] assms(3-6)
    by (simp add: poll_def queued_def db_ok_def effect_def claim_stmt_def on_schema_def)
qed

lemma poll_progress:
  assumes q: "queued dl e w" and r: "fair_round D dl (g, now, locked)" and no: "\<not> claims n dl (g, now, locked) w"
  shows "queued dl e (snd (run_state (poll s (int n) (g, now, locked)) w)) \<and>
    ahead_of dl (snd (run_state (poll s (int n) (g, now, locked)) w)) + n \<le> ahead_of dl w"
proof -
  let ?w1 = "before_poll g now w"
  let ?d = "database ?w1" let ?t = "webhook_deliveries ?d" let ?t' = "claim_rows s n locked now ?t"
  have q1: "queued dl e ?w1" and le: "ahead_of dl ?w1 \<le> ahead_of dl w"
    using queued_before_poll[OF q, of D g now] r by (auto simp: fair_round_def)
  have key: "keyed dl_id ?t" and mem: "dl \<in> set ?t" and due: "due now dl" and unlocked: "\<not> locked (dl_id dl)"
    and out: "dl \<notin> set (claimable n locked now ?t)"
    using q1 r no by (auto simp: queued_def db_ok_def db_keys_ok_def fair_round_def due_def claims_def before_poll_def)
  have "dl_id dl \<notin> dl_id ` set (claimable n locked now ?t)"
    using out mem key claimable_due keyed_lookup by (metis (no_types, lifting) imageE option.inject)
  with mem have stays: "dl \<in> set ?t'" by (auto simp: set_claim_rows intro!: bexI[of _ dl])
  have "commits D ?d (?d\<lparr>webhook_deliveries := ?t'\<rparr>)"
    using q1 by (intro r_into_rtranclp c_claim[where s = s and limit = "int n" and locked = locked and now = now])
      (simp add: claim_stmt_def on_schema_def queued_def)
  from queued_commits[OF q1 this, of "clock ?w1"] stays
  have "queued dl e (?w1\<lparr>database := ?d\<lparr>webhook_deliveries := ?t'\<rparr>\<rparr>)" by simp
  moreover have "ahead_of dl (?w1\<lparr>database := ?d\<lparr>webhook_deliveries := ?t'\<rparr>\<rparr>) + n = ahead_of dl ?w1"
    using claim_shortens[OF key mem due unlocked out] by (simp add: ahead_of_def)
  ultimately show ?thesis using le run_poll[OF q r refl refl refl refl, of s n] by simp
qed

interpretation delivery_polls: fair_service "\<lambda>r w. snd (run_state (poll s (int n) r) w)" "fair_round D dl" "queued dl e" "claims n dl" "ahead_of dl" n
  for D s n dl e
proof unfold_locales
  show "queued dl e w \<Longrightarrow> 0 < ahead_of dl w" for w
    by (auto simp: queued_def ahead_of_def due_def filter_empty_conv)
  show "fair_round D dl r \<Longrightarrow> queued dl e w \<Longrightarrow> \<not> claims n dl r w \<Longrightarrow>
    queued dl e (snd (run_state (poll s (int n) r) w)) \<and> ahead_of dl (snd (run_state (poll s (int n) r) w)) + n \<le> ahead_of dl w" for r w
    using poll_progress[of dl e w D _ _ _ n s] by (cases r) blast
qed

text \<open>The delivery a poll hands out, and the row it leaves.\<close>

definition hands_out :: "delivery_row \<Rightarrow> string \<Rightarrow> kdelivery \<Rightarrow> bool" where
  "hands_out dl ty kd \<longleftrightarrow> kd_ID kd = dl_id dl \<and> kd_EndpointID kd = dl_endpoint_id dl \<and> kd_EventID kd = dl_event_id dl \<and>
     kd_EventType kd = ty \<and> kd_URL kd = dl_url dl \<and> kd_Secret kd = dl_secret dl \<and> kd_Payload kd = dl_payload dl \<and>
     kd_Attempts kd = dl_attempts dl"

lemma poll_hands_out:
  assumes q: "queued dl e w" and r: "fair_round D dl (g, now, locked)" and cl: "claims n dl (g, now, locked) w"
  shows "\<exists>out kd w'. run_state (poll s (int n) (g, now, locked)) w = ((out, None), w') \<and> kd \<in> set out \<and>
    hands_out dl (ev_type e) kd \<and> quiet w' \<and> 2 \<le> schema_version (database w') \<and>
    keyed dl_id (webhook_deliveries (database w')) \<and>
    lookup_row dl_id (dl_id dl) (webhook_deliveries (database w')) = Some (take_lease s now dl)"
proof -
  let ?w1 = "before_poll g now w"
  let ?d = "database ?w1" let ?t = "webhook_deliveries ?d" let ?t' = "claim_rows s n locked now ?t"
  have q1: "queued dl e ?w1" using queued_before_poll[OF q, of D g now] r by (auto simp: fair_round_def)
  have in_c: "dl \<in> set (claimable n locked now ?t)" using cl by (simp add: claims_def before_poll_def)
  have key: "keyed dl_id ?t" "keyed ev_id (events ?d)" using q1 by (auto simp: queued_def db_ok_def db_keys_ok_def)
  have row: "take_lease s now dl \<in> set ?t'" using in_c claimable_due[OF in_c] by (auto simp: set_claim_rows)
  have key': "keyed dl_id ?t'" using key(1) by (simp add: claim_rows_def Let_def keyed_update_where)
  have "lookup_row ev_id (dl_event_id dl) (events ?d) = Some e"
    using keyed_lookup[OF key(2), of e] q1 by (simp add: queued_def)
  then have "hands_out dl (ev_type e) (kdelivery_of ?d (take_lease s now dl))"
    by (simp add: hands_out_def kdelivery_of_def take_lease_def)
  moreover have "lookup_row dl_id (dl_id dl) ?t' = Some (take_lease s now dl)"
    using keyed_lookup[OF key' row] by simp
  ultimately show ?thesis
    using run_poll[OF q r refl refl refl refl, of s n] q1 row in_c key'
    by (auto simp: queued_def intro!: exI[of _ "kdelivery_of ?d (take_lease s now dl)"])
qed

lemma polls_reach:
  assumes "queued dl e w" and "list_all (fair_round D dl) rs" and "ahead_of dl w \<le> length rs * nat limit"
  shows "\<exists>rs1 g now locked rs2 out kd w'. rs = rs1 @ (g, now, locked) # rs2 \<and>
    run_state (poll s limit (g, now, locked)) (polls s limit rs1 w) = ((out, None), w') \<and> kd \<in> set out \<and>
    hands_out dl (ev_type e) kd \<and> quiet w' \<and> 2 \<le> schema_version (database w') \<and>
    keyed dl_id (webhook_deliveries (database w')) \<and>
    lookup_row dl_id (dl_id dl) (webhook_deliveries (database w')) = Some (take_lease s now dl)"
proof -
  have "0 < length rs * nat limit" using delivery_polls.in_line[OF assms(1)] assms(3) by linarith
  then have "0 < nat limit" by (metis mult_is_0 gr0I less_irrefl)
  then have limit: "limit = int (nat limit)" by simp
  from delivery_polls.served_in_turn[OF assms(2,1,3)] obtain rs1 r rs2 where
    r: "rs = rs1 @ r # rs2" "queued dl e (polls s (int (nat limit)) rs1 w)" "claims (nat limit) dl r (polls s (int (nat limit)) rs1 w)"
    unfolding polls_def by blast
  obtain g now locked where [simp]: "r = (g, now, locked)" by (cases r)
  have "fair_round D dl (g, now, locked)" using assms(2) r(1) by simp
  with poll_hands_out[OF r(2) this, of "nat limit" s] r(1,3) show ?thesis
    unfolding limit[symmetric] by (intro exI[of _ rs1] exI[of _ g] exI[of _ now] exI[of _ locked] exI[of _ rs2]) auto
qed

text \<open>Commits that let a delivery wait: marking another delivery, and a sweep at a later time.\<close>

lemma lets_wait_id: "lets_wait D dl id"
  by (simp add: lets_wait_def)

lemma lets_wait_succeed:
  assumes "i \<noteq> dl_id dl"
  shows "lets_wait D dl (effect (mark_stmt i set_succeeded (\<lambda>dl. dl_attempts dl + 1) None) now)"
  unfolding lets_wait_def
proof (intro allI conjI impI ballI)
  show "commits D d (effect (mark_stmt i set_succeeded (\<lambda>dl. dl_attempts dl + 1) None) now d)" for d
    by (rule effect_commits) (rule c_succeed)
qed (use assms in \<open>auto simp: effect_def mark_stmt_def on_schema_def Let_def update_where_def set_succeeded_def due_def split: if_splits\<close>)

lemma lets_wait_sweep:
  assumes "dl_status dl \<noteq> ''delivering''" and "dl_next_attempt_at dl < now"
  shows "lets_wait D dl (effect requeue_stmt now)"
  unfolding lets_wait_def
proof (intro allI conjI impI ballI)
  show "commits D d (effect requeue_stmt now d)" for d
    by (rule effect_commits) (rule c_requeue)
qed (use assms in \<open>auto simp: effect_def requeue_stmt_def on_schema_def update_where_def rearm_def stuck_def due_def split: if_splits\<close>)

section \<open>Recovery of stranded deliveries\<close>

text \<open>C24: at-least-once delivery survives a dead worker and a backlog. A delivery left in 'delivering' whose lease
  has run out is re-armed by the next tick of the sweeper and then handed out by a \<open>ClaimDue\<close>, with its endpoint,
  event, url, secret, payload and attempt count: at the latest when the polls since the tick, each of the given limit,
  add up to the deliveries that were due or stranded at the tick. In between all other processes go on:
  they may commit whatever the program commits, other workers' claims included, and hold other rows locked; assumed
  is only that none of them takes, marks or locks this delivery itself and that what they queue is due later than
  the tick (\<open>fair_round\<close>).\<close>

theorem stranded_is_redelivered:
  assumes w: "quiet w" "2 \<le> schema_version (database w)" "db_ok (database w)" "db_typed (database w)"
    and dl: "dl \<in> set (webhook_deliveries (database w))" "dl_status dl = ''delivering''" "dl_next_attempt_at dl \<le> now"
    and tick: "run_state (sweep [Tick now]) w = (printed, w1)"
    and rounds: "list_all (fair_round D (rearm now dl)) rs"
      "length (filter (\<lambda>x. due now x \<or> stuck now x) (webhook_deliveries (database w))) \<le> length rs * nat limit"
  shows "\<exists>rs1 r rs2 out w2. rs = rs1 @ r # rs2 \<and> run_state (poll s limit r) (polls s limit rs1 w1) = ((out, None), w2) \<and>
    (\<exists>e \<in> set (events (database w)). ev_id e = dl_event_id dl \<and> (\<exists>kd \<in> set out. hands_out dl (ev_type e) kd))"
proof -
  let ?t1 = "update_where (stuck now) (rearm now) (webhook_deliveries (database w))"
  let ?d1 = "database w\<lparr>webhook_deliveries := ?t1\<rparr>"
  have w1: "w1 = w\<lparr>clock := now, database := ?d1\<rparr>"
    using w(1,2) tick by (auto simp: Requeue_def io_simps requeue_stmt_def on_schema_def)
  have "commit D (database w) ?d1" using w(2) by (intro c_requeue) (simp add: requeue_stmt_def on_schema_def)
  then have ok: "db_ok ?d1" "db_typed ?d1" using commits_sound[of D "database w" ?d1] w(3,4) by auto
  obtain e where e: "e \<in> set (events (database w))" "ev_id e = dl_event_id dl"
    using w(3) dl(1) unfolding db_ok_def db_refs_ok_def by (metis imageE)
  have "rearm now dl \<in> set ?t1" using dl by (auto simp: update_where_def stuck_def intro!: rev_image_eqI)
  then have q: "queued (rearm now dl) e w1" using w e ok by (simp add: queued_def w1 rearm_def)
  have "length (filter (due now) (update_where (stuck now) (rearm now) t)) = length (filter (\<lambda>x. due now x \<or> stuck now x) t)" for t
    by (induction t) (auto simp: update_where_def due_def stuck_def rearm_def)
  then have "ahead_of (rearm now dl) w1 \<le> length rs * nat limit"
    using rounds(2) by (simp add: ahead_of_def w1 rearm_def)
  from polls_reach[OF q rounds(1) this, of s] e show ?thesis
    by (fastforce simp: hands_out_def rearm_def)
qed

text \<open>Two stranded deliveries and polls of one delivery each; the worker of the first reports between them.\<close>

definition sample_stranded :: db where
  "sample_stranded = sample_typed\<lparr>events := events sample_outbox,
     webhook_deliveries := map (\<lambda>dl. dl\<lparr>dl_status := ''delivering''\<rparr>) (webhook_deliveries sample_outbox)\<rparr>"

definition sample_rounds :: "poll_round list" where
  "sample_rounds = [(id, 20000, \<lambda>_. False), (effect (mark_stmt ''d1'' set_succeeded (\<lambda>dl. dl_attempts dl + 1) None) 20500, 21000, \<lambda>_. False)]"

lemma sample_stranded_ok: "db_ok sample_stranded" "db_typed sample_stranded" "schema_version sample_stranded = 3"
proof -
  note defs = sample_stranded_def sample_outbox_def sample_typed_def sample_defs sample_delivery_def new_delivery_def event_ins_def
  show "db_ok sample_stranded"
    by (simp add: defs db_ok_def db_keys_ok_def db_refs_ok_def orders_unique_def keyed_def map_filter_simps order_ext_key_def)
  show "db_typed sample_stranded"
    by (simp add: defs db_typed_def row_types int4_max_def assetAmount_def)
  show "schema_version sample_stranded = 3" by (simp add: defs)
qed

theorem stranded_is_redelivered_witness:
  "\<exists>printed w1 rs1 r rs2 out w2. run_state (sweep [Tick 20000]) (sample_world sample_stranded) = (printed, w1) \<and>
     sample_rounds = rs1 @ r # rs2 \<and> run_state (poll NewStore 1 r) (polls NewStore 1 rs1 w1) = ((out, None), w2) \<and>
     ''d2'' \<in> kd_ID ` set out"
proof -
  let ?dl = "(sample_delivery ''d2'' 200)\<lparr>dl_status := ''delivering''\<rparr>" and ?w = "sample_world sample_stranded"
  obtain printed w1 where tick: "run_state (sweep [Tick 20000]) ?w = (printed, w1)" by fastforce
  have d2: "dl_id ?dl = ''d2''" by (simp add: sample_delivery_def new_delivery_def)
  have hyps: "quiet ?w" "2 \<le> schema_version (database ?w)" "db_ok (database ?w)" "db_typed (database ?w)"
    "?dl \<in> set (webhook_deliveries (database ?w))" "dl_status ?dl = ''delivering''" "dl_next_attempt_at ?dl \<le> 20000"
    using sample_stranded_ok by (simp_all add: sample_world_def)
      (simp_all add: sample_stranded_def sample_outbox_def sample_delivery_def new_delivery_def)
  have rounds: "list_all (fair_round sample_deps (rearm 20000 ?dl)) sample_rounds"
    "length (filter (\<lambda>x. due 20000 x \<or> stuck 20000 x) (webhook_deliveries (database ?w))) \<le> length sample_rounds * nat 1"
    by (simp_all add: sample_rounds_def fair_round_def lets_wait_id lets_wait_succeed rearm_def sample_world_def)
      (simp_all add: sample_delivery_def new_delivery_def lets_wait_succeed sample_stranded_def sample_outbox_def due_def stuck_def)
  show ?thesis
    using stranded_is_redelivered[OF hyps tick rounds, of NewStore] tick d2 by (force simp: hands_out_def)
qed

end
