(* ===== verification/Platform_Spec.thy ===== *)
theory Platform_Spec
  imports Samples
begin

text \<open>
  The properties of the platform layer: the Amount/NUMERIC bridge, derived ids, API keys and
  transactions.
\<close>

section \<open>Money\<close>

text \<open>C22: \<open>NumericToAmount\<close> is exact. For every NUMERIC below 2 to the 128 it returns the amount \<open>a\<close> if and
  only if the value is valid, finite and equal, as a rational number, to the natural number \<open>a\<close>;
  every fraction, negative number, NaN, infinity and NULL is an error. (The one exponent left out is
  the least 32-bit integer, whose negation wraps around.)\<close>

theorem NumericToAmount_exact:
  assumes "fibertypes_ok F" and "nExp n \<noteq> MinInt32" and "numeric_value n < 2 ^ 128"
  shows "NumericToAmount F n = Inr a \<longleftrightarrow> numeric_finite n \<and> numeric_value n = of_nat a"
  using assms by (rule NumericToAmount_eq_Inr_iff)

theorem NumericToAmount_exact_witness:
  "NumericToAmount sample_fibertypes \<lparr>nInt = 2550, nExp = -1, nNaN = False, nInf = Finite, nValid = True\<rparr> = Inr 255"
proof -
  let ?n = "\<lparr>nInt = 2550, nExp = -1, nNaN = False, nInf = Finite, nValid = True\<rparr> :: numeric"
  have v: "numeric_value ?n = 255" by (simp add: numeric_value_def power_int_def)
  then have "NumericToAmount sample_fibertypes ?n = Inr 255 \<longleftrightarrow> numeric_finite ?n \<and> numeric_value ?n = of_nat 255"
    by (intro NumericToAmount_exact) (simp_all add: MinInt32_def)
  then show ?thesis unfolding v by (simp add: numeric_finite_def)
qed

text \<open>C34: money survives the database. An amount that is written with \<open>AmountToNumeric\<close>, stored, decoded by
  the driver in whatever \<open>{Int, Exp}\<close> form and read with \<open>NumericToAmount\<close> is the same amount, and its
  wire string is the same; so is one that is converted back directly.\<close>

theorem amount_survives_database:
  assumes "fibertypes_ok F" and "postgres_ok P" and "a < 2 ^ 128"
  shows "NumericToAmount F (scan_numeric P (numeric_arg a)) = Inr a \<and>
    NumericToAmount F (AmountToNumeric a) = Inr a \<and>
    map_sum id (Hex F) (NumericToAmount F (scan_numeric P (numeric_arg a))) = Inr (hex_wire a)"
proof -
  have "NumericToAmount F (scan_numeric P (numeric_arg a)) = Inr a"
    using NumericToAmount_dec[of F "numeric_of P" "int a"] assms
    by (simp add: scan_numeric_def postgres_ok_def)
  moreover have "NumericToAmount F (AmountToNumeric a) = Inr a"
    using assms by (subst NumericToAmount_eq_Inr_iff)
      (simp_all add: AmountToNumeric_def numeric_value_def numeric_finite_def MinInt32_def flip: of_nat_power)
  ultimately show ?thesis using fibertypes_ok_Hex[OF assms(1)] by simp
qed

theorem amount_survives_database_witness:
  "NumericToAmount sample_fibertypes (scan_numeric sample_postgres (numeric_arg (2 ^ 128 - 1))) = Inr (2 ^ 128 - 1)"
  using amount_survives_database[OF sample_fibertypes_ok sample_postgres_ok, of "2 ^ 128 - 1"] by simp

text \<open>
  The exponent left out above: \<open>-n.Exp\<close> wraps around, \<open>pow10\<close> of a negative exponent is 1, and a
  tiny fraction is read as a whole amount.
\<close>

lemma NumericToAmount_MinInt32:
  assumes "nExp n = MinInt32" and "numeric_finite n"
  shows "NumericToAmount F n = whole_to_amount F (nInt n)"
proof -
  have "sint (nExp n) < 0" "sint (- nExp n) \<le> 0" by (simp_all add: assms(1) MinInt32_def)
  moreover have "QuoRem v 1 = (v, 0)" for v by (simp add: QuoRem_def Let_def sgn_mult_abs)
  ultimately show ?thesis
    using assms(2) by (simp add: NumericToAmount_def numeric_finite_def pow10_def)
qed

section \<open>Derived ids\<close>

text \<open>C35: derived ids are collision free up to the hash. If two different lists of parts (without NUL
  bytes), or different namespaces, derive the same prefixed id, then the text form of ULIDs or the
  first 128 bits of SHA-256 collide on two different inputs. So the zero separator keeps
  \<open>("a","bc")\<close> and \<open>("ab","c")\<close> apart.\<close>

theorem Derive_separates:
  assumes "DeriveWithPrefix ulid pre n ps = DeriveWithPrefix ulid pre m qs" and "(n, ps) \<noteq> (m, qs)"
    and "\<forall>s \<in> {n, m} \<union> set ps \<union> set qs. CHR 0x00 \<notin> set s"
  shows "\<exists>x y. x \<noteq> y \<and> ulid (take 16 (sha256 x)) = ulid (take 16 (sha256 y)) \<and>
    x = derive_preimage n ps \<and> y = derive_preimage m qs"
  using assms derive_preimage_inj[of n ps m qs] by (auto simp: DeriveWithPrefix_def Derive_def)

theorem Derive_separates_witness:
  "\<exists>x y. x \<noteq> y \<and> (\<lambda>_. ''same'') (take 16 (sha256 x)) = (\<lambda>_. ''same'') (take 16 (sha256 y)) \<and>
     x = derive_preimage ''delivery'' [''a'', ''bc''] \<and> y = derive_preimage ''delivery'' [''ab'', ''c'']"
  by (rule Derive_separates[where pre = "''dlv_''"]) (auto simp: DeriveWithPrefix_def Derive_def)

section \<open>API keys\<close>

text \<open>A key minted by \<open>NewAPIKey\<close> is 64 hex characters, verifies against the hash stored for it, and a
  plaintext verifies against that hash exactly if its SHA-256 is the same: a different key is
  accepted only on a hash collision.\<close>

lemma NewAPIKey_verifies:
  "case run_state NewAPIKey w of ((plaintext, hash), w') \<Rightarrow>
     length plaintext = 64 \<and> VerifyAPIKey plaintext hash \<and> database w' = database w \<and>
     (\<forall>guess. VerifyAPIKey guess hash \<longleftrightarrow> sha256 (bytes_of guess) = sha256 (bytes_of plaintext))"
  by (auto simp: NewAPIKey_def randHex_def rand_Read_def VerifyAPIKey_iff HashAPIKey_def dest: hex_Encode_inj)

section \<open>Transactions\<close>

text \<open>\<open>InTx\<close> is atomic for every function and every schedule of failures and other sessions. If it
  returns nil, the function returned nil and exactly its changes are in the database. If the
  function panics, the panic goes on and nothing was changed. If it returns an error, nothing was changed, or the
  function had succeeded and the commit took effect without being acknowledged.\<close>

lemma InTx_all_or_nothing:
  assumes "run_state (InTx fn) w = (r, w')"
  shows "(r \<noteq> Committed \<and> database w' = seen_db w) \<or>
    (\<exists>w1 w2. database w1 = seen_db w \<and> clock w1 = clock w \<and> run_state fn w1 = (Tx_ok, w2) \<and>
       database w' = database w2 \<and> (r = Committed \<or> (\<exists>e. r = Failed e)))"
  using assms by (rule InTx_atomic)

end
