(* ===== verification/Listing.thy ===== *)
theory Listing
  imports Query
begin

text \<open>
  The lemmas the read side rests on: what the condition builder's output selects (with placeholders
  that stay valid while more conditions are appended), the round trip of a cursor, and, in the locale
  \<open>keyset_listing\<close>, what a client gets that follows the cursors of a keyset-paginated listing. The
  locale is interpreted on the three listings of \<^verbatim>\<open>internal/query\<close>.
\<close>

section \<open>The condition builder\<close>

primrec placeholders :: "cond \<Rightarrow> nat list" where
  "placeholders (CEq c n) = [n]"
| "placeholders (CGe c n) = [n]"
| "placeholders (CLe c n) = [n]"
| "placeholders (CKeyset ts i n m) = [n, m]"

text \<open>The placeholders of the conditions number the arguments, in order and without gaps.\<close>

definition conds_ok :: "conds \<Rightarrow> bool" where
  "conds_ok c \<longleftrightarrow> concat (map placeholders (c_where c)) = map Suc [0..<length (c_args c)]"

definition in_range :: "postgres \<Rightarrow> time option \<Rightarrow> time option \<Rightarrow> time option \<Rightarrow> bool" where
  "in_range P from to ts \<longleftrightarrow>
     (case from of None \<Rightarrow> True | Some u \<Rightarrow> (case ts of None \<Rightarrow> False | Some t \<Rightarrow> bind_ts P u \<le> t)) \<and>
     (case to of None \<Rightarrow> True | Some u \<Rightarrow> (case ts of None \<Rightarrow> False | Some t \<Rightarrow> t \<le> bind_ts P u))"

text \<open>A position strictly after the cursor in the listing's (descending) order.\<close>

definition after_cursor :: "postgres \<Rightarrow> cursor \<Rightarrow> time option \<Rightarrow> string \<Rightarrow> bool" where
  "after_cursor P cur ts i \<longleftrightarrow>
     IsZero cur \<or> (case ts of None \<Rightarrow> False | Some t \<Rightarrow>
       t < bind_ts P (cur_Time cur) \<or>
       t = bind_ts P (cur_Time cur) \<and> i \<noteq> cur_ID cur \<and> collate_le P i (cur_ID cur))"

definition matches :: "string \<Rightarrow> string option \<Rightarrow> bool" where
  "matches v x \<longleftrightarrow> v = '''' \<or> x = Some v"

lemma conds_ok_no_conds [simp]: "conds_ok no_conds"
  by (simp add: conds_ok_def no_conds_def)

lemma conds_ok_eq [simp]: "conds_ok c \<Longrightarrow> conds_ok (eq col v c)"
  by (simp add: conds_ok_def eq_def Let_def)

lemma conds_ok_tsRange [simp]: "conds_ok c \<Longrightarrow> conds_ok (tsRange col from to c)"
  by (simp add: conds_ok_def tsRange_def Let_def split: option.splits)

lemma conds_ok_keyset [simp]: "conds_ok c \<Longrightarrow> conds_ok (keyset ts i cur c)"
  by (simp add: conds_ok_def keyset_def Let_def)

lemma conds_ok_placeholder:
  "conds_ok c \<Longrightarrow> x \<in> set (c_where c) \<Longrightarrow> n \<in> set (placeholders x) \<Longrightarrow> 0 < n \<and> n \<le> length (c_args c)"
proof -
  assume "conds_ok c" "x \<in> set (c_where c)" "n \<in> set (placeholders x)"
  then have "n \<in> set (concat (map placeholders (c_where c)))" by auto
  with \<open>conds_ok c\<close> show ?thesis by (auto simp: conds_ok_def simp del: set_concat)
qed

lemma nth_arg_append [simp]: "0 < n \<Longrightarrow> n \<le> length as \<Longrightarrow> nth_arg (as @ bs) n = nth_arg as n"
  by (cases n) (simp_all add: nth_arg_def nth_append)

lemma holds_append:
  assumes "\<forall>n \<in> set (placeholders x). 0 < n \<and> n \<le> length as"
  shows "holds P (as @ bs) col r x = holds P as col r x"
  using assms by (cases x) (auto split: sqlval.splits option.splits arg.splits)

lemma selected_append:
  assumes "conds_ok c"
  shows "list_all (holds P (c_args c @ bs) col r) (c_where c) = selected P c col r"
  unfolding selected_def
  by (rule list.pred_cong) (auto intro!: holds_append dest: conds_ok_placeholder[OF assms])

lemma nth_arg_last [simp]:
  "nth_arg (as @ [x]) (Suc (length as)) = Some x"
  "nth_arg (as @ [x, y]) (Suc (length as)) = Some x"
  "nth_arg (as @ [x, y]) (Suc (Suc (length as))) = Some y"
  by (simp_all add: nth_arg_def nth_append)

lemma selected_no_conds [simp]: "selected P no_conds col r"
  by (simp add: selected_def no_conds_def)

lemma selected_eq:
  assumes "conds_ok c"
  shows "selected P (eq name v c) col r \<longleftrightarrow> selected P c col r \<and> (v = '''' \<or> col r name = SText v)"
  using selected_append[OF assms, of P "[ArgText v]" col r]
  by (auto simp: selected_def eq_def Let_def split: sqlval.splits)

lemma selected_snoc_time:
  assumes "conds_ok c"
  shows "selected P (c\<lparr>c_args := c_args c @ [ArgTime u], c_where := c_where c @ [x]\<rparr>) col r \<longleftrightarrow>
    selected P c col r \<and> holds P (c_args c @ [ArgTime u]) col r x"
  using selected_append[OF assms, of P "[ArgTime u]" col r] by (simp add: selected_def)

lemma selected_tsRange:
  assumes ok: "conds_ok c" and col: "col r name = time_col ts"
  shows "selected P (tsRange name from to c) col r \<longleftrightarrow> selected P c col r \<and> in_range P from to ts"
proof -
  define c1 where "c1 = tsRange name from None c"
  have ok1: "conds_ok c1" using ok by (simp add: c1_def)
  have 1: "selected P c1 col r \<longleftrightarrow> selected P c col r \<and> in_range P from None ts"
    using ok col
    by (auto simp: c1_def tsRange_def Let_def selected_snoc_time in_range_def cmp_time_def time_col_def
        split: option.splits)
  have "tsRange name from to c = tsRange name None to c1"
    by (simp add: c1_def tsRange_def Let_def split: option.splits)
  moreover have "selected P (tsRange name None to c1) col r \<longleftrightarrow> selected P c1 col r \<and> in_range P None to ts"
    using ok1 col
    by (auto simp: tsRange_def Let_def selected_snoc_time in_range_def cmp_time_def time_col_def
        split: option.splits)
  ultimately show ?thesis using 1 by (auto simp: in_range_def)
qed

lemma selected_keyset:
  assumes ok: "conds_ok c" and ts: "col r tsCol = time_col ts" and i: "col r idCol = SText i"
  shows "selected P (keyset tsCol idCol cur c) col r \<longleftrightarrow> selected P c col r \<and> after_cursor P cur ts i"
  using selected_append[OF ok, of P "[ArgTime (cur_Time cur), ArgText (cur_ID cur)]" col r] ts i
  by (auto simp: selected_def keyset_def Let_def after_cursor_def cmp_time_def time_col_def split: option.splits)

lemma text_col_matches: "v = '''' \<or> text_col x = SText v \<longleftrightarrow> matches v x"
  by (auto simp: text_col_def matches_def split: option.splits)

lemma stext_matches: "v = '''' \<or> s = v \<longleftrightarrow> matches v (Some s)"
  by (auto simp: matches_def)

lemmas builder_simps = selected_eq selected_tsRange selected_keyset text_col_matches stext_matches

section \<open>The SQL text\<close>

text \<open>Two builders that agree in everything but the argument values.\<close>

definition same_shape :: "conds \<Rightarrow> conds \<Rightarrow> bool" where
  "same_shape c c' \<longleftrightarrow> c_where c = c_where c' \<and> length (c_args c) = length (c_args c')"

lemma same_shape_eq:
  "same_shape c c' \<Longrightarrow> (v = '''' \<longleftrightarrow> v' = '''') \<Longrightarrow> same_shape (eq col v c) (eq col v' c')"
  by (auto simp: same_shape_def eq_def Let_def)

lemma same_shape_tsRange:
  "same_shape c c' \<Longrightarrow> (from = None \<longleftrightarrow> from' = None) \<Longrightarrow> (to = None \<longleftrightarrow> to' = None) \<Longrightarrow>
   same_shape (tsRange col from to c) (tsRange col from' to' c')"
  by (auto simp: same_shape_def tsRange_def Let_def split: option.splits)

lemma same_shape_keyset:
  "same_shape c c' \<Longrightarrow> IsZero cur = IsZero cur' \<Longrightarrow> same_shape (keyset ts i cur c) (keyset ts i cur' c')"
  by (auto simp: same_shape_def keyset_def Let_def)

lemma same_shape_refl [simp]: "same_shape c c"
  by (simp add: same_shape_def)

lemma same_shape_clause: "same_shape c c' \<Longrightarrow> clause c = clause c'"
  by (simp add: same_shape_def clause_def)

lemmas shape_intros = same_shape_eq same_shape_tsRange same_shape_keyset same_shape_refl

section \<open>Cursors\<close>

text \<open>The times whose printed form has a year of four digits, the ones RFC 3339 can express.\<close>

definition four_digit_year :: "time \<Rightarrow> bool" where
  "four_digit_year t \<longleftrightarrow>
     (case civil_of_days (t div 1000000000 div 86400 + unix_epoch_days) of (y, _) \<Rightarrow> 0 \<le> y \<and> y < 10000)"

lemma Parse_Format: "four_digit_year t \<Longrightarrow> Parse_RFC3339 (Format_RFC3339Nano t) = Inr t"
  by (auto simp: four_digit_year_def split: prod.splits intro: parse_Format)

lemma b64_encode_Nil_iff: "b64_encode s = [] \<longleftrightarrow> s = []"
proof
  assume "b64_encode s = []"
  moreover have "b64_encode [] = []" by (simp add: b64_encode_def)
  ultimately show "s = []" using b64_roundtrip[of s] b64_roundtrip[of "[]"] by simp
qed (simp add: b64_encode_def)

lemma Encode_nonempty [simp]: "Encode c \<noteq> ''''"
  by (simp add: Encode_def b64_encode_Nil_iff)

lemma digits_no_bar: "list_all isDigit ds \<Longrightarrow> CHR ''|'' \<notin> set ds"
  by (auto simp: list_all_iff)

lemma Format_no_bar: "CHR ''|'' \<notin> set (Format_RFC3339Nano t)"
proof -
  note digits = digits_no_bar[OF pad_digits] digits_no_bar[OF dec_digits]
    digits_no_bar[OF drop_zeros_digits[OF pad_digits]]
  then show ?thesis
    by (auto simp: Format_RFC3339Nano_def Let_def year_text_def frac_text_def split: prod.splits if_splits
        simp del: pad.simps)
qed

lemma DecodeCursor_Encode: "four_digit_year (cur_Time c) \<Longrightarrow> DecodeCursor (Encode c) = Inr c"
proof -
  assume "four_digit_year (cur_Time c)"
  then have "Parse_RFC3339 (Format_RFC3339Nano (cur_Time c)) = Inr (cur_Time c)" by (rule Parse_Format)
  moreover have "b64_decode (Encode c) = Inr (Format_RFC3339Nano (cur_Time c) @ CHR ''|'' # cur_ID c)"
    by (simp add: Encode_def b64_roundtrip)
  ultimately show ?thesis
    by (simp add: DecodeCursor_def Cut_append[OF Format_no_bar])
qed

section \<open>Following the cursors of a listing\<close>

text \<open>The pages a client collects that asks for the next page until no cursor is returned.\<close>

fun all_pages :: "nat \<Rightarrow> (cursor \<Rightarrow> 'a page io) \<Rightarrow> string \<Rightarrow> 'a list io" where
  "all_pages 0 fetch tok = throw (Errorf ''too many pages'' [] None)"
| "all_pages (Suc n) fetch tok =
     (case DecodeCursor tok of
        Inl e \<Rightarrow> throw e
      | Inr cur \<Rightarrow> do {
          r \<leftarrow> fetch cur;
          case r of
            Inl e \<Rightarrow> throw e
          | Inr p \<Rightarrow>
              if NextCursor p = '''' then ok (Items p)
              else do {
                s \<leftarrow> all_pages n fetch (NextCursor p);
                case s of Inl e \<Rightarrow> throw e | Inr xs \<Rightarrow> ok (Items p @ xs) } })"

text \<open>
  A table whose listing has no gaps: unique keys, no NULL in the sorting column, timestamps the server
  stores as they are and RFC 3339 expresses, and no row at the position of the zero cursor.
\<close>

definition listable :: "postgres \<Rightarrow> ('r \<Rightarrow> time option) \<Rightarrow> ('r \<Rightarrow> string) \<Rightarrow> 'r list \<Rightarrow> bool" where
  "listable P ts key t \<longleftrightarrow> keyed key t \<and> list_all (\<lambda>r. case ts r of None \<Rightarrow> False
     | Some u \<Rightarrow> bind_ts P u = u \<and> four_digit_year u \<and> \<not> (u = zero_time \<and> key r = '''')) t"

definition row_cursor :: "('r \<Rightarrow> time option) \<Rightarrow> ('r \<Rightarrow> string) \<Rightarrow> 'r \<Rightarrow> cursor" where
  "row_cursor ts key r = \<lparr>cur_Time = deref (ts r), cur_ID = key r\<rparr>"

lemma listable_keyed: "listable P ts key t \<Longrightarrow> keyed key t"
  by (simp add: listable_def)

lemma listable_row:
  assumes "listable P ts key t" and "r \<in> set t"
  obtains u where "ts r = Some u" "bind_ts P u = u" "four_digit_year u" "\<not> IsZero (row_cursor ts key r)"
    "row_cursor ts key r = \<lparr>cur_Time = u, cur_ID = key r\<rparr>"
  using assms by (auto simp: listable_def list_all_iff IsZero_def row_cursor_def deref_def split: option.splits)

text \<open>\<open>newer\<close> is a total preorder, and a row is strictly after the cursor of an older one.\<close>

lemma collationD:
  assumes "postgres_ok P"
  shows "collate_le P x y \<or> collate_le P y x"
    and "collate_le P x y \<Longrightarrow> collate_le P y z \<Longrightarrow> collate_le P x z"
    and "collate_le P x y \<Longrightarrow> collate_le P y x \<Longrightarrow> x = y"
  using assms unfolding postgres_ok_def collation_ok_def by blast+

lemma newer_total: "postgres_ok P \<Longrightarrow> newer P ts key x y \<or> newer P ts key y x"
  using collationD(1)[of P "key x" "key y"] by (auto simp: newer_def split: option.splits)

lemma newer_trans:
  "postgres_ok P \<Longrightarrow> newer P ts key x y \<Longrightarrow> newer P ts key y z \<Longrightarrow> newer P ts key x z"
  using collationD(2)[of P "key z" "key y" "key x"] by (auto simp: newer_def split: option.splits)

lemma newer_preorder: "postgres_ok P \<Longrightarrow> total_preorder (newer P ts key)"
  by unfold_locales (auto intro: newer_trans dest: newer_total)

lemma newer_antisym:
  "postgres_ok P \<Longrightarrow> newer P ts key x y \<Longrightarrow> newer P ts key y x \<Longrightarrow> key x = key y"
  using collationD(3)[of P "key x" "key y"] by (auto simp: newer_def split: option.splits)

text \<open>The strict part of the order, and the position after the cursor of a row.\<close>

definition precedes :: "postgres \<Rightarrow> ('r \<Rightarrow> time option) \<Rightarrow> ('r \<Rightarrow> string) \<Rightarrow> 'r \<Rightarrow> 'r \<Rightarrow> bool" where
  "precedes P ts key x y \<longleftrightarrow> newer P ts key x y \<and> \<not> newer P ts key y x"

lemma precedes_trans:
  "postgres_ok P \<Longrightarrow> precedes P ts key x y \<Longrightarrow> precedes P ts key y z \<Longrightarrow> precedes P ts key x z"
  unfolding precedes_def by (meson newer_trans)

lemma newer_precedes:
  "postgres_ok P \<Longrightarrow> newer P ts key x y \<Longrightarrow> precedes P ts key y z \<Longrightarrow> precedes P ts key x z"
  unfolding precedes_def by (meson newer_trans)

lemma newer_distinct_precedes:
  "postgres_ok P \<Longrightarrow> newer P ts key x y \<Longrightarrow> key x \<noteq> key y \<Longrightarrow> precedes P ts key x y"
  unfolding precedes_def using newer_antisym by metis

lemma after_row_cursor:
  assumes P: "postgres_ok P" and "listable P ts key t" "x \<in> set t" and "ts r \<noteq> None"
  shows "after_cursor P (row_cursor ts key x) (ts r) (key r) \<longleftrightarrow> precedes P ts key x r"
proof -
  obtain u where "ts x = Some u" "bind_ts P u = u" "\<not> IsZero (row_cursor ts key x)"
    "row_cursor ts key x = \<lparr>cur_Time = u, cur_ID = key x\<rparr>"
    using listable_row[OF assms(2,3)] by metis
  moreover obtain v where "ts r = Some v" using assms(4) by blast
  ultimately show ?thesis
    using collationD(1)[OF P, of "key r" "key x"] collationD(3)[OF P, of "key r" "key x"]
    by (auto simp: after_cursor_def newer_def precedes_def)
qed

lemma listable_ts: "listable P ts key t \<Longrightarrow> x \<in> set t \<Longrightarrow> ts x \<noteq> None"
  by (erule listable_row, assumption) simp

lemma after_cursor_precedes:
  assumes P: "postgres_ok P" and "after_cursor P cur (ts x) (key x)" and "ts x \<noteq> None"
    and "precedes P ts key x r" and "ts r \<noteq> None"
  shows "after_cursor P cur (ts r) (key r)"
proof -
  obtain u v where "ts x = Some u" "ts r = Some v" using assms(3,5) by blast
  then show ?thesis
    using assms(2,4) collationD(2)[OF P, of "key r" "key x" "cur_ID cur"] collationD(3)[OF P, of "key r" "key x"]
    by (auto simp: after_cursor_def precedes_def newer_def)
qed

text \<open>A keyed table sorted by \<open>newer\<close> is strictly sorted, so the cursor of a row splits it at that row.\<close>

lemma keyed_filter: "keyed key t \<Longrightarrow> keyed key (filter Q t)"
  by (simp add: keyed_def distinct_map_filter)

lemma sorted_wrt_precedes:
  assumes P: "postgres_ok P" and "keyed key t"
  shows "sorted_wrt (precedes P ts key) (sort_by (newer P ts key) t)"
proof -
  define L where "L = sort_by (newer P ts key) t"
  have "sorted_wrt (newer P ts key) L"
    unfolding L_def by (rule total_preorder.sorted_sort_by[OF newer_preorder[OF P]])
  moreover have "distinct (map key L)" using assms(2) by (simp add: L_def keyed_def)
  then have "sorted_wrt (\<lambda>x y. key x \<noteq> key y) L"
    by (simp add: distinct_conv_nth sorted_wrt_iff_nth_less)
  ultimately show ?thesis
    unfolding L_def[symmetric] sorted_wrt_iff_nth_less
    by (auto intro!: newer_distinct_precedes[OF P])
qed

lemma precedes_split:
  assumes "sorted_wrt (precedes P ts key) L" and "0 < m" and "m \<le> length L"
  shows "filter (precedes P ts key (L ! (m - 1))) L = drop m L"
proof -
  let ?x = "L ! (m - 1)"
  have before: "\<not> precedes P ts key ?x y" if y: "y \<in> set (take m L)" for y
  proof -
    obtain i where i: "i < m" "i < length L" "y = L ! i"
      using y by (auto simp: in_set_conv_nth)
    show ?thesis
    proof (cases "i = m - 1")
      case True
      with i show ?thesis by (simp add: precedes_def)
    next
      case False
      with i assms(2,3) have "precedes P ts key y ?x"
        using sorted_wrt_nth_less[OF assms(1), of i "m - 1"] by simp
      then show ?thesis by (simp add: precedes_def)
    qed
  qed
  have after: "precedes P ts key ?x y" if y: "y \<in> set (drop m L)" for y
  proof -
    obtain j where "j < length L - m" "y = L ! (m + j)"
      using y by (auto simp: in_set_conv_nth)
    then show ?thesis
      using assms sorted_wrt_nth_less[OF assms(1), of "m - 1" "m + j"] by simp
  qed
  have "filter (precedes P ts key ?x) (take m L @ drop m L) = drop m L"
    unfolding filter_append using before after by (simp add: filter_empty_conv filter_id_conv)
  then show ?thesis by simp
qed

text \<open>
  The contract of a listing whose query sorts by \<open>(tsCol DESC, idCol DESC)\<close> and continues after a
  cursor with the row comparison \<open>(tsCol, idCol) < ($n, $m)\<close>: the two columns are the ones the
  cursor is made of.
\<close>

locale keyset_listing =
  fixes col :: "'r \<Rightarrow> string \<Rightarrow> sqlval" and ts :: "'r \<Rightarrow> time option" and key :: "'r \<Rightarrow> string"
    and tsCol idCol :: string
  assumes col_ts: "col r tsCol = time_col (ts r)"
    and col_key: "col r idCol = SText (key r)"
begin

text \<open>The sorted rows a query with the base conditions \<open>c\<close> finds after a cursor.\<close>

definition found :: "postgres \<Rightarrow> conds \<Rightarrow> cursor \<Rightarrow> 'r list \<Rightarrow> 'r list" where
  "found P c cur t = sort_by (newer P ts key) (filter (selected P (keyset tsCol idCol cur c) col) t)"

lemma select_found: "select_rows P col ts key (keyset tsCol idCol cur c) n t = take (nat n) (found P c cur t)"
  by (simp add: select_rows_def found_def)

lemma found_iff:
  "conds_ok c \<Longrightarrow> r \<in> set (found P c cur t) \<longleftrightarrow>
    r \<in> set t \<and> selected P c col r \<and> after_cursor P cur (ts r) (key r)"
  by (auto simp: found_def selected_keyset[OF _ col_ts col_key])

lemma found_sorted:
  "postgres_ok P \<Longrightarrow> listable P ts key t \<Longrightarrow> sorted_wrt (precedes P ts key) (found P c cur t)"
  unfolding found_def by (intro sorted_wrt_precedes keyed_filter listable_keyed)

lemma found_zero:
  "conds_ok c \<Longrightarrow> IsZero cur \<Longrightarrow>
   found P c cur t = sort_by (newer P ts key) (filter (selected P c col) t)"
  by (simp add: found_def keyset_def)

text \<open>The rows after the cursor of the \<open>m\<close>-th row found are the rows found after it.\<close>

lemma found_next:
  assumes P: "postgres_ok P" and t: "listable P ts key t" and c: "conds_ok c"
    and m: "0 < m" "m \<le> length (found P c cur t)"
  shows "found P c (row_cursor ts key (found P c cur t ! (m - 1))) t = drop m (found P c cur t)"
proof -
  let ?L = "found P c cur t" and ?x = "found P c cur t ! (m - 1)"
  have x: "?x \<in> set ?L" using m by simp
  then have xt: "?x \<in> set t" "after_cursor P cur (ts ?x) (key ?x)" using found_iff[OF c] by auto
  have trans: "after_cursor P cur (ts r) (key r)" if "r \<in> set t" "precedes P ts key ?x r" for r
    using after_cursor_precedes[where cur = cur and x = ?x and ts = ts and key = key and r = r, OF P xt(2)]
      listable_ts[OF t] xt(1) that by blast
  have "filter (selected P (keyset tsCol idCol (row_cursor ts key ?x) c) col) t =
      filter (precedes P ts key ?x) (filter (selected P (keyset tsCol idCol cur c) col) t)"
    unfolding filter_filter
    by (rule filter_cong)
       (auto simp: selected_keyset[OF c col_ts col_key] after_row_cursor[OF P t xt(1) listable_ts[OF t]] trans
         simp del: One_nat_def)
  then have "found P c (row_cursor ts key ?x) t = filter (precedes P ts key ?x) ?L"
    by (simp add: found_def total_preorder.filter_sort_by[OF newer_preorder[OF P]])
  also have "\<dots> = drop m ?L" by (rule precedes_split[OF found_sorted[OF P t] m])
  finally show ?thesis .
qed

end
section \<open>Reading while other sessions write\<close>

lemma others_keep_reading:
  assumes run: "run_state (pool_query (reading f) wrap) w = (Inr x, w')" and keep: "others_keep I w"
  shows "others_keep I w' \<and> (\<exists>d. I d \<and> x = f d)"
proof -
  obtain a w1 where a: "run_state (pool_exec (reading f)) w = (a, w1)" by fastforce
  have pure: "\<And>now d x d'. reading f now d = Inr (x, d') \<Longrightarrow> x = f d \<and> d' = d"
    by (auto simp: reading_def on_schema_def split: if_splits)
  have w1: "others_keep I w1 \<and> I (seen_db w)"
    by (rule others_keep_exec[OF a keep]) (auto dest: pure)
  show ?thesis
  proof (cases a)
    case (Inl e)
    with run a show ?thesis by (simp add: pool_query_def)
  next
    case (Inr y)
    obtain b w2 where b: "run_state (pool_exec (\<lambda>_ d. Inr ((), d))) w1 = (b, w2)" by fastforce
    with run a Inr have res: "x = y" "w' = w2" by (auto simp: pool_query_def split: sum.splits)
    from a Inr have "y = f (seen_db w)"
      by (cases rule: pool_exec_cases) (auto dest: pure)
    moreover have "others_keep I w2" using others_keep_exec[OF b, of I] w1 by auto
    ultimately show ?thesis using res w1 by auto
  qed
qed

section \<open>Paginated endpoints\<close>

text \<open>The common course of the three listings.\<close>

definition list_page ::
    "postgres \<Rightarrow> ('r \<Rightarrow> string \<Rightarrow> sqlval) \<Rightarrow> ('r \<Rightarrow> time option) \<Rightarrow> ('r \<Rightarrow> string) \<Rightarrow> conds \<Rightarrow> (db \<Rightarrow> 'r list) \<Rightarrow>
     ('r \<Rightarrow> 'a) \<Rightarrow> ('a \<Rightarrow> cursor) \<Rightarrow> string \<Rightarrow> int \<Rightarrow> 'a page io" where
  "list_page P col ts key c rows of_row cursorOf msg limit = do {
     r \<leftarrow> pool_query (reading (\<lambda>d. select_rows P col ts key c (limit + 1) (rows d))) (wrap_error msg);
     case r of Inl e \<Rightarrow> throw e | Inr rs \<Rightarrow> ok (paginate (map of_row rs) limit cursorOf) }"

lemma clampLimit_bounds: "1 \<le> clampLimit n \<and> clampLimit n \<le> 200"
  by (simp add: clampLimit_def)

text \<open>The page made of the over-fetched rows.\<close>

lemma paginate_select:
  assumes "1 \<le> limit"
  shows "paginate (map g (take (nat (limit + 1)) L)) limit cursorOf =
    (if int (length L) > limit
     then \<lparr>Items = map g (take (nat limit) L), NextCursor = Encode (cursorOf (g (L ! (nat limit - 1))))\<rparr>
     else \<lparr>Items = map g L, NextCursor = ''''\<rparr>)"
  using assms
  by (auto simp: paginate_def take_map nat_diff_distrib nth_take min_def)

text \<open>
  An endpoint that serves such a listing: \<open>base\<close> are the conditions of its filter, \<open>rows\<close> its table,
  \<open>of_row\<close> the response model of a row and \<open>cursorOf\<close> the cursor taken from it.
\<close>

locale paged_endpoint = keyset_listing col ts key tsCol idCol
  for col :: "'r \<Rightarrow> string \<Rightarrow> sqlval" and ts key tsCol idCol +
  fixes base :: "'f \<Rightarrow> conds" and rows :: "db \<Rightarrow> 'r list" and of_row :: "fibertypes \<Rightarrow> postgres \<Rightarrow> 'r \<Rightarrow> 'a"
    and cursorOf :: "'a \<Rightarrow> cursor" and msg :: string
    and fetch :: "fibertypes \<Rightarrow> postgres \<Rightarrow> 'f \<Rightarrow> cursor \<Rightarrow> int \<Rightarrow> 'a page io"
  assumes base_ok: "conds_ok (base f)"
    and cursorOf_row: "cursorOf (of_row F P r) = row_cursor ts key r"
    and fetch_eq: "fetch F P f cur n = list_page P col ts key (keyset tsCol idCol cur (base f)) rows
      (of_row F P) cursorOf msg (clampLimit n)"
begin

definition page_of :: "fibertypes \<Rightarrow> postgres \<Rightarrow> 'f \<Rightarrow> cursor \<Rightarrow> int \<Rightarrow> 'r list \<Rightarrow> 'a page" where
  "page_of F P f cur n t =
     (let L = found P (base f) cur t; m = nat (clampLimit n)
      in if m < length L
         then \<lparr>Items = map (of_row F P) (take m L), NextCursor = Encode (row_cursor ts key (L ! (m - 1)))\<rparr>
         else \<lparr>Items = map (of_row F P) L, NextCursor = ''''\<rparr>)"

lemma paginate_page_of:
  "paginate (map (of_row F P) (select_rows P col ts key (keyset tsCol idCol cur (base f)) (clampLimit n + 1) t))
     (clampLimit n) cursorOf = page_of F P f cur n t"
  using clampLimit_bounds[of n]
  by (auto simp: select_found paginate_select page_of_def Let_def cursorOf_row)

text \<open>Whatever the schedule, a page that is returned is the page of some state of the table.\<close>

lemma fetch_page:
  assumes run: "run_state (fetch F P f cur n) w = (Inr p, w')" and keep: "others_keep I w"
  shows "others_keep I w' \<and> (\<exists>d. I d \<and> p = page_of F P f cur n (rows d))"
proof -
  let ?q = "reading (\<lambda>d. select_rows P col ts key (keyset tsCol idCol cur (base f)) (clampLimit n + 1) (rows d))"
  obtain r w1 where r: "run_state (pool_query ?q (wrap_error msg)) w = (r, w1)" by fastforce
  with run obtain rs where "r = Inr rs"
    by (cases r) (auto simp: fetch_eq list_page_def)
  with run r have "p = paginate (map (of_row F P) rs) (clampLimit n) cursorOf" "w' = w1"
    by (auto simp: fetch_eq list_page_def)
  with others_keep_reading[OF r[unfolded \<open>r = Inr rs\<close>] keep] show ?thesis
    by (auto simp: paginate_page_of)
qed

lemma fetch_quiet:
  "quiet w \<Longrightarrow> 1 \<le> schema_version (database w) \<Longrightarrow>
   run_state (fetch F P f cur n) w = (Inr (page_of F P f cur n (rows (database w))), w)"
  by (simp add: fetch_eq list_page_def io_simps reading_def on_schema_def paginate_page_of)

text \<open>The next cursor decodes to the position of the last row of the page.\<close>

lemma next_cursor:
  assumes "listable P ts key t" and "x \<in> set t"
  shows "DecodeCursor (Encode (row_cursor ts key x)) = Inr (row_cursor ts key x)"
proof -
  obtain u where "row_cursor ts key x = \<lparr>cur_Time = u, cur_ID = key x\<rparr>" "four_digit_year u"
    using listable_row[OF assms] by metis
  then show ?thesis by (simp add: DecodeCursor_Encode)
qed

lemma last_of_page:
  assumes "m < length (found P (base f) cur t)"
  shows "found P (base f) cur t ! (m - 1) \<in> set t"
proof -
  have "found P (base f) cur t ! (m - 1) \<in> set (found P (base f) cur t)" using assms by simp
  then show ?thesis by (simp add: found_iff base_ok)
qed

lemma all_pages_complete:
  assumes w: "quiet w" "1 \<le> schema_version (database w)" and P: "postgres_ok P"
    and t: "listable P ts key (rows (database w))"
    and "DecodeCursor tok = Inr cur" and "length (found P (base f) cur (rows (database w))) < k"
  shows "run_state (all_pages k (\<lambda>cur. fetch F P f cur n) tok) w =
    (Inr (map (of_row F P) (found P (base f) cur (rows (database w)))), w)"
  using assms(5,6)
proof (induction k arbitrary: tok cur)
  case 0
  then show ?case by simp
next
  case (Suc k)
  let ?t = "rows (database w)" and ?m = "nat (clampLimit n)"
  let ?L = "found P (base f) cur ?t"
  have m: "0 < ?m" using clampLimit_bounds[of n] by simp
  note page = fetch_quiet[OF w, of F P f cur n]
  show ?case
  proof (cases "?m < length ?L")
    case False
    with Suc.prems(1) show ?thesis by (simp add: page page_of_def Let_def)
  next
    case True
    let ?cur = "row_cursor ts key (?L ! (?m - 1))"
    have rest: "found P (base f) ?cur ?t = drop ?m ?L"
      by (rule found_next[OF P t base_ok m]) (use True in simp)
    then have "length (found P (base f) ?cur ?t) < k" using Suc.prems(2) m True by simp
    from Suc.IH[OF next_cursor[OF t last_of_page[OF True]] this]
    have IH: "run_state (all_pages k (\<lambda>cur. fetch F P f cur n) (Encode ?cur)) w =
      (Inr (map (of_row F P) (drop ?m ?L)), w)" unfolding rest .
    have "page_of F P f cur n ?t = \<lparr>Items = map (of_row F P) (take ?m ?L), NextCursor = Encode ?cur\<rparr>"
      using True by (simp add: page_of_def Let_def)
    with Suc.prems(1) IH page show ?thesis
      by (simp flip: map_append)
  qed
qed

end
context paged_endpoint
begin

text \<open>
  A page, as the concurrent reader sees it: it holds the first rows after the cursor, and the row \<open>r\<close>
  is among them or comes after the cursor of the last one.
\<close>

lemma page_progress:
  assumes P: "postgres_ok P" and t: "listable P ts key t" and m: "nat (clampLimit n) < length (found P (base f) cur t)"
    and r: "r \<in> set t" "selected P (base f) col r" "after_cursor P cur (ts r) (key r)"
  defines "L \<equiv> found P (base f) cur t" and "m \<equiv> nat (clampLimit n)"
  shows "r \<in> set (take m L) \<or> after_cursor P (row_cursor ts key (L ! (m - 1))) (ts r) (key r)"
proof -
  have "r \<in> set L" using r by (simp add: L_def found_iff base_ok)
  then have "r \<in> set (take m L) \<or> r \<in> set (drop m L)" by (metis Un_iff append_take_drop_id set_append)
  moreover have "found P (base f) (row_cursor ts key (L ! (m - 1))) t = drop m L"
    unfolding L_def m_def
    by (rule found_next[OF P t base_ok]) (use m clampLimit_bounds[of n] in simp_all)
  ultimately show ?thesis using found_iff[OF base_ok] by metis
qed

lemma page_rows:
  assumes "listable P ts key t" and "x \<in> set (found P (base f) cur t)"
  shows "ts x \<noteq> None \<and> selected P (base f) col x \<and> after_cursor P cur (ts x) (key x)"
  using assms listable_ts by (auto simp: found_iff base_ok)

text \<open>The pages that follow a page continue strictly after its rows.\<close>

lemma pages_append:
  assumes P: "postgres_ok P" and t: "listable P ts key t"
    and m: "0 < m" "m < length (found P (base f) cur t)"
    and rs: "sorted_wrt (precedes P ts key) rs"
      "\<And>y. y \<in> set rs \<Longrightarrow> ts y \<noteq> None \<and> selected P (base f) col y \<and>
        after_cursor P (row_cursor ts key (found P (base f) cur t ! (m - 1))) (ts y) (key y)"
  defines "L \<equiv> found P (base f) cur t"
  shows "sorted_wrt (precedes P ts key) (take m L @ rs)" (is ?sorted)
    and "y \<in> set (take m L @ rs) \<Longrightarrow> ts y \<noteq> None \<and> selected P (base f) col y \<and> after_cursor P cur (ts y) (key y)"
proof -
  let ?x = "L ! (m - 1)"
  have x: "?x \<in> set t" "?x \<in> set L"
    using last_of_page[OF m(2)] m by (simp_all add: L_def)
  have sorted: "sorted_wrt (precedes P ts key) L" unfolding L_def by (rule found_sorted[OF P t])
  have after: "precedes P ts key ?x y" if "y \<in> set rs" for y
    using rs(2)[OF that] after_row_cursor[OF P t x(1), of y] by (simp add: L_def)
  have before: "z = ?x \<or> precedes P ts key z ?x" if z: "z \<in> set (take m L)" for z
  proof -
    obtain i where i: "i < m" "i < length L" "z = L ! i" using z by (auto simp: in_set_conv_nth)
    show ?thesis
    proof (cases "i = m - 1")
      case False
      with i m show ?thesis using sorted_wrt_nth_less[OF sorted, of i "m - 1"] by (simp add: L_def)
    qed (simp add: i)
  qed
  have "precedes P ts key z y" if "z \<in> set (take m L)" "y \<in> set rs" for z y
    using before[OF that(1)] after[OF that(2)] precedes_trans[OF P, of ts key z ?x y] by auto
  then show ?sorted
    using sorted_wrt_take[OF sorted] rs(1) by (simp add: sorted_wrt_append)
  show "ts y \<noteq> None \<and> selected P (base f) col y \<and> after_cursor P cur (ts y) (key y)"
    if y: "y \<in> set (take m L @ rs)"
  proof (cases "y \<in> set rs")
    case False
    with y have "y \<in> set L" by (auto dest: in_set_takeD)
    then show ?thesis using page_rows[OF t] by (simp add: L_def)
  next
    case True
    have "after_cursor P cur (ts ?x) (key ?x)" "ts ?x \<noteq> None"
      using page_rows[OF t x(2)[unfolded L_def]] by (simp_all add: L_def)
    from after_cursor_precedes[OF P this after[OF True]] rs(2)[OF True] show ?thesis by simp
  qed
qed

end

context paged_endpoint
begin

text \<open>
  While other sessions write: what a client has collected is strictly sorted, matches the filter, and
  contains every matching row that no other session touched in the meantime.
\<close>

lemma all_pages_stable:
  assumes P: "postgres_ok P" and r: "selected P (base f) col r"
    and keep: "others_keep (\<lambda>d. listable P ts key (rows d) \<and> r \<in> set (rows d)) w"
    and "DecodeCursor tok = Inr cur"
    and "run_state (all_pages k (\<lambda>cur. fetch F P f cur n) tok) w = (Inr items, w')"
  shows "\<exists>rs. items = map (of_row F P) rs \<and> sorted_wrt (precedes P ts key) rs \<and>
    (\<forall>y \<in> set rs. ts y \<noteq> None \<and> selected P (base f) col y \<and> after_cursor P cur (ts y) (key y)) \<and>
    (after_cursor P cur (ts r) (key r) \<longrightarrow> r \<in> set rs)"
  using keep assms(4,5)
proof (induction k arbitrary: w tok cur items)
  case 0
  then show ?case by simp
next
  case (Suc k)
  obtain res w1 where fetch: "run_state (fetch F P f cur n) w = (res, w1)" by fastforce
  with Suc.prems(2,3) obtain p where p: "res = Inr p" by (cases res) auto
  from fetch_page[OF fetch[unfolded p] Suc.prems(1)] obtain d where
    keep1: "others_keep (\<lambda>d. listable P ts key (rows d) \<and> r \<in> set (rows d)) w1" and
    t: "listable P ts key (rows d)" and rt: "r \<in> set (rows d)" and page: "p = page_of F P f cur n (rows d)"
    by blast
  define L m where "L = found P (base f) cur (rows d)" and "m = nat (clampLimit n)"
  have m0: "0 < m" using clampLimit_bounds[of n] by (simp add: m_def)
  show ?case
  proof (cases "m < length L")
    case False
    then have "p = \<lparr>Items = map (of_row F P) L, NextCursor = ''''\<rparr>"
      by (simp add: page page_of_def Let_def L_def m_def)
    with Suc.prems(2,3) fetch p have "items = map (of_row F P) L" by simp
    moreover have "after_cursor P cur (ts r) (key r) \<longrightarrow> r \<in> set L"
      using rt r by (simp add: L_def found_iff base_ok)
    ultimately show ?thesis
      using found_sorted[OF P t] page_rows[OF t] unfolding L_def by blast
  next
    case True
    let ?cur = "row_cursor ts key (L ! (m - 1))"
    have "p = \<lparr>Items = map (of_row F P) (take m L), NextCursor = Encode ?cur\<rparr>"
      using True by (simp add: page page_of_def Let_def L_def m_def)
    with Suc.prems(2,3) fetch p obtain items2 where
      more: "run_state (all_pages k (\<lambda>cur. fetch F P f cur n) (Encode ?cur)) w1 = (Inr items2, w')" and
      items: "items = map (of_row F P) (take m L) @ items2"
      by (auto split: prod.splits sum.splits)
    have "DecodeCursor (Encode ?cur) = Inr ?cur"
      unfolding L_def by (rule next_cursor[OF t last_of_page]) (use True in \<open>simp add: L_def\<close>)
    from Suc.IH[OF keep1 this more] obtain rs where
      rs: "items2 = map (of_row F P) rs" "sorted_wrt (precedes P ts key) rs"
        "\<And>y. y \<in> set rs \<Longrightarrow> ts y \<noteq> None \<and> selected P (base f) col y \<and> after_cursor P ?cur (ts y) (key y)"
        "after_cursor P ?cur (ts r) (key r) \<longrightarrow> r \<in> set rs" by blast
    note app = pages_append[OF P t m0 True[unfolded L_def] rs(2) rs(3)[unfolded L_def]]
    have "r \<in> set (take m L @ rs)" if "after_cursor P cur (ts r) (key r)"
      using page_progress[OF P t True[unfolded L_def m_def] rt r that] rs(4)
      by (auto simp: L_def m_def)
    moreover have "items = map (of_row F P) (take m L @ rs)" by (simp add: items rs(1))
    ultimately show ?thesis using app unfolding L_def by blast
  qed
qed

end

section \<open>The three listings\<close>

definition payment_base :: "payment_filter \<Rightarrow> conds" where
  "payment_base f = (tsRange ''created_at'' (pf_From f) (pf_To f) \<circ> eq ''peer'' (pf_Peer f) \<circ>
     eq ''asset'' (pf_Asset f) \<circ> eq ''status'' (pf_Status f) \<circ> eq ''direction'' (pf_Direction f)) no_conds"

definition channel_base :: "channel_filter \<Rightarrow> conds" where
  "channel_base f = (eq ''peer'' (cf_Peer f) \<circ> eq ''state'' (cf_State f)) no_conds"

definition event_base :: "event_filter \<Rightarrow> conds" where
  "event_base f = (tsRange ''occurred_at'' (ef_From f) (ef_To f) \<circ> eq ''type'' (ef_Type f)) no_conds"

text \<open>What the filters mean, on the rows themselves.\<close>

definition payment_matches :: "postgres \<Rightarrow> payment_filter \<Rightarrow> payment_row \<Rightarrow> bool" where
  "payment_matches P f r \<longleftrightarrow>
     matches (pf_Direction f) (Some (pay_direction r)) \<and> matches (pf_Status f) (Some (pay_status r)) \<and>
     matches (pf_Asset f) (pay_asset r) \<and> matches (pf_Peer f) (pay_peer r) \<and>
     in_range P (pf_From f) (pf_To f) (pay_created_at r)"

definition channel_matches :: "channel_filter \<Rightarrow> channel_row \<Rightarrow> bool" where
  "channel_matches f r \<longleftrightarrow> matches (cf_State f) (ch_state r) \<and> matches (cf_Peer f) (ch_peer r)"

definition event_matches :: "postgres \<Rightarrow> event_filter \<Rightarrow> event_row \<Rightarrow> bool" where
  "event_matches P f r \<longleftrightarrow>
     matches (ef_Type f) (Some (ev_type r)) \<and> in_range P (ef_From f) (ef_To f) (Some (ev_occurred_at r))"

lemma payment_base_selects: "selected P (payment_base f) payment_col r \<longleftrightarrow> payment_matches P f r"
  by (auto simp: payment_base_def payment_matches_def builder_simps payment_col_def)

lemma channel_base_selects: "selected P (channel_base f) channel_col r \<longleftrightarrow> channel_matches f r"
  by (auto simp: channel_base_def channel_matches_def builder_simps channel_col_def)

lemma event_base_selects: "selected P (event_base f) event_col r \<longleftrightarrow> event_matches P f r"
  by (auto simp: event_base_def event_matches_def builder_simps event_col_def time_col_def
      selected_tsRange[where ts = "Some (ev_occurred_at r)"])

interpretation payments_endpoint: paged_endpoint payment_col pay_created_at pay_hash "''created_at''" "''payment_hash''"
  payment_base payments payment_of_row "\<lambda>p. \<lparr>cur_Time = deref (p_CreatedAt p), cur_ID = p_PaymentHash p\<rparr>"
  "''query: payments: %w''" Payments
  by unfold_locales
    (simp_all add: payment_col_def payment_base_def payment_of_row_def row_cursor_def Payments_def list_page_def
      payment_conds_def comp_def Let_def)

interpretation channels_endpoint: paged_endpoint channel_col ch_opened_at ch_id "''opened_at''" "''channel_id''"
  channel_base channels channel_of_row "\<lambda>ch. \<lparr>cur_Time = deref (c_OpenedAt ch), cur_ID = c_ChannelID ch\<rparr>"
  "''query: channels: %w''" Channels
  by unfold_locales
    (simp_all add: channel_col_def channel_base_def channel_of_row_def row_cursor_def Channels_def list_page_def
      channel_conds_def comp_def Let_def)

interpretation events_endpoint: paged_endpoint event_col "\<lambda>e. Some (ev_occurred_at e)" ev_id "''occurred_at''" "''id''"
  event_base events event_of_row "\<lambda>e. \<lparr>cur_Time = q_OccurredAt e, cur_ID = q_ID e\<rparr>"
  "''query: events: %w''" Events
  by unfold_locales
    (simp_all add: event_col_def event_base_def event_of_row_def row_cursor_def Events_def list_page_def
      event_conds_def comp_def time_col_def deref_def Let_def)

end
