(* ===== verification/Query_Spec.thy ===== *)
theory Query_Spec
  imports Listing Samples
begin

text \<open>
  The properties of the read side: cursors, the conditions of the listings and their SQL text, complete
  and stable pagination, the aggregation and the error replies of the handlers.
\<close>

section \<open>Samples\<close>

definition sample_pay :: "string \<Rightarrow> time \<Rightarrow> int \<Rightarrow> payment_row" where
  "sample_pay h t v = \<lparr>pay_hash = h, pay_direction = ''received'', pay_status = ''succeeded'', pay_asset = Some ''CKB'',
     pay_amount = Some v, pay_fee = None, pay_peer = None, pay_created_at = Some t, pay_updated_at = Some t\<rparr>"

definition sample_chan :: channel_row where
  "sample_chan = \<lparr>ch_id = ''c1'', ch_peer = Some ''pk'', ch_state = Some ''open'', ch_capacity = Some 4096,
     ch_local_balance = None, ch_remote_balance = None, ch_opened_at = Some 8000, ch_closed_at = None\<rparr>"

definition sample_event :: event_row where
  "sample_event = \<lparr>ev_id = ''e1'', ev_type = InvoicePaid, ev_fiber_ref = None, ev_asset = None, ev_amount = None,
     ev_data = ''{}'', ev_occurred_at = 5000, ev_ingested_at = 6000, ev_checkpoint = 1\<rparr>"

definition sample_index :: db where
  "sample_index = empty_db\<lparr>payments := [sample_pay ''h1'' 1000 100, sample_pay ''h2'' 3000 200, sample_pay ''h3'' 2000 55],
     channels := [sample_chan], events := [sample_event]\<rparr>"

definition no_payment_filter :: payment_filter where
  "no_payment_filter = \<lparr>pf_Direction = '''', pf_Status = '''', pf_Asset = '''', pf_Peer = '''', pf_From = None, pf_To = None\<rparr>"

definition no_event_filter :: event_filter where
  "no_event_filter = \<lparr>ef_Type = '''', ef_From = None, ef_To = None\<rparr>"

lemmas sample_index_defs = sample_index_def sample_pay_def sample_chan_def sample_event_def sample_world_def empty_db_def

lemma four_digit_sample [simp]:
  "four_digit_year 1000" "four_digit_year 2000" "four_digit_year 3000" "four_digit_year 5000" "four_digit_year 8000"
  by (simp_all add: four_digit_year_def unix_epoch_days_def civil_of_days_def year_day_def Let_def)

lemma sample_listable:
  "listable sample_postgres pay_created_at pay_hash (payments sample_index)"
  "listable sample_postgres ch_opened_at ch_id (channels sample_index)"
  "listable sample_postgres (\<lambda>e. Some (ev_occurred_at e)) ev_id (events sample_index)"
  by (simp_all add: listable_def keyed_def sample_index_defs sample_postgres_def)

section \<open>Cursors\<close>

text \<open>C37: a cursor survives its encoding: for every position whose year has four digits and every id, also one
  that contains the separator, \<open>DecodeCursor (Encode c)\<close> is \<open>c\<close>, and the encoded form is never empty,
  so it is never mistaken for the start of the results.\<close>

theorem cursor_roundtrip:
  assumes "four_digit_year (cur_Time c)"
  shows "DecodeCursor (Encode c) = Inr c \<and> Encode c \<noteq> '''' \<and> DecodeCursor '''' = Inr zero_cursor"
  using DecodeCursor_Encode[OF assms] by (simp add: DecodeCursor_def)

theorem cursor_roundtrip_witness:
  "DecodeCursor (Encode \<lparr>cur_Time = 5000, cur_ID = ''a|b''\<rparr>) = Inr \<lparr>cur_Time = 5000, cur_ID = ''a|b''\<rparr>"
  using cursor_roundtrip[of "\<lparr>cur_Time = 5000, cur_ID = ''a|b''\<rparr>"] by simp

section \<open>Conditions\<close>

lemma payment_conds_split: "payment_conds f cur = keyset ''created_at'' ''payment_hash'' cur (payment_base f)"
  by (simp add: payment_conds_def payment_base_def)

lemma channel_conds_split: "channel_conds f cur = keyset ''opened_at'' ''channel_id'' cur (channel_base f)"
  by (simp add: channel_conds_def channel_base_def)

lemma event_conds_split: "event_conds f cur = keyset ''occurred_at'' ''id'' cur (event_base f)"
  by (simp add: event_conds_def event_base_def)

text \<open>C21: the SQL conditions built for a listing select exactly the rows the filter describes and that come
  after the cursor: the built conditions, evaluated with their numbered placeholders, agree with the
  reference predicates on the rows, for payments, channels and events.\<close>

theorem conditions_select:
  "(selected P (payment_conds f cur) payment_col p \<longleftrightarrow>
     payment_matches P f p \<and> after_cursor P cur (pay_created_at p) (pay_hash p)) \<and>
   (selected P (channel_conds g cur) channel_col ch \<longleftrightarrow>
     channel_matches g ch \<and> after_cursor P cur (ch_opened_at ch) (ch_id ch)) \<and>
   (selected P (event_conds h cur) event_col e \<longleftrightarrow>
     event_matches P h e \<and> after_cursor P cur (Some (ev_occurred_at e)) (ev_id e))"
  unfolding payment_conds_split channel_conds_split event_conds_split
  using selected_keyset[where col = payment_col, OF payments_endpoint.base_ok, of p "''created_at''" "pay_created_at p"
      "''payment_hash''" "pay_hash p" P cur f]
    selected_keyset[where col = channel_col, OF channels_endpoint.base_ok, of ch "''opened_at''" "ch_opened_at ch"
      "''channel_id''" "ch_id ch" P cur g]
    selected_keyset[where col = event_col, OF events_endpoint.base_ok, of e "''occurred_at''" "Some (ev_occurred_at e)"
      "''id''" "ev_id e" P cur h]
  by (simp add: payments_endpoint.col_ts payments_endpoint.col_key channels_endpoint.col_ts channels_endpoint.col_key
      events_endpoint.col_ts events_endpoint.col_key payment_base_selects channel_base_selects event_base_selects)

text \<open>The placeholders of every query number its arguments, with none missing or repeated.\<close>

lemma conds_ok_queries:
  "conds_ok (payment_conds f cur)" "conds_ok (channel_conds g cur)" "conds_ok (event_conds h cur)"
  by (simp_all add: payment_conds_def channel_conds_def event_conds_def)

text \<open>C28: no request value reaches the SQL text. Two requests that give the same filters and agree on
  whether there is a cursor run the same WHERE clause, whatever the values are; the values travel as
  arguments.\<close>

theorem sql_text_is_fixed:
  assumes "(pf_Direction f = '''' \<longleftrightarrow> pf_Direction f' = '''') \<and> (pf_Status f = '''' \<longleftrightarrow> pf_Status f' = '''') \<and>
      (pf_Asset f = '''' \<longleftrightarrow> pf_Asset f' = '''') \<and> (pf_Peer f = '''' \<longleftrightarrow> pf_Peer f' = '''') \<and>
      (pf_From f = None \<longleftrightarrow> pf_From f' = None) \<and> (pf_To f = None \<longleftrightarrow> pf_To f' = None)"
    and "(cf_State g = '''' \<longleftrightarrow> cf_State g' = '''') \<and> (cf_Peer g = '''' \<longleftrightarrow> cf_Peer g' = '''')"
    and "(ef_Type h = '''' \<longleftrightarrow> ef_Type h' = '''') \<and> (ef_From h = None \<longleftrightarrow> ef_From h' = None) \<and>
      (ef_To h = None \<longleftrightarrow> ef_To h' = None)"
    and "IsZero cur \<longleftrightarrow> IsZero cur'"
  shows "clause (payment_conds f cur) = clause (payment_conds f' cur') \<and>
    clause (channel_conds g cur) = clause (channel_conds g' cur') \<and>
    clause (event_conds h cur) = clause (event_conds h' cur')"
proof -
  have "same_shape (payment_conds f cur) (payment_conds f' cur')"
    unfolding payment_conds_def comp_apply by (intro shape_intros) (use assms(1,4) in simp_all)
  moreover have "same_shape (channel_conds g cur) (channel_conds g' cur')"
    unfolding channel_conds_def comp_apply by (intro shape_intros) (use assms(2,4) in simp_all)
  moreover have "same_shape (event_conds h cur) (event_conds h' cur')"
    unfolding event_conds_def comp_apply by (intro shape_intros) (use assms(3,4) in simp_all)
  ultimately show ?thesis by (simp add: same_shape_clause)
qed

theorem sql_text_is_fixed_witness:
  "clause (payment_conds (no_payment_filter\<lparr>pf_Peer := ''pk''\<rparr>) zero_cursor) =
   clause (payment_conds (no_payment_filter\<lparr>pf_Peer := ''' OR true --''\<rparr>) zero_cursor)"
  using sql_text_is_fixed[of "no_payment_filter\<lparr>pf_Peer := ''pk''\<rparr>" "no_payment_filter\<lparr>pf_Peer := ''' OR true --''\<rparr>"
      "\<lparr>cf_State = '''', cf_Peer = ''''\<rparr>" "\<lparr>cf_State = '''', cf_Peer = ''''\<rparr>" no_event_filter no_event_filter
      zero_cursor zero_cursor]
  by simp

section \<open>Pagination\<close>

text \<open>C8: following the cursors terminates and misses nothing. On an undisturbed server a client that asks for
  page after page, with any limit, has after at most one request per row and one more the complete
  list of the rows its filter selects, newest first, each exactly once; for payments, channels and
  events.\<close>

theorem listings_complete:
  assumes "quiet w" and "1 \<le> schema_version (database w)" and "postgres_ok P"
    and "listable P pay_created_at pay_hash (payments (database w))"
    and "listable P ch_opened_at ch_id (channels (database w))"
    and "listable P (\<lambda>e. Some (ev_occurred_at e)) ev_id (events (database w))"
  shows "run_state (all_pages (Suc (length (payments (database w)))) (\<lambda>cur. Payments F P f cur n) '''') w =
      (Inr (map (payment_of_row F P) (sort_by (newer P pay_created_at pay_hash)
         (filter (payment_matches P f) (payments (database w))))), w) \<and>
    run_state (all_pages (Suc (length (channels (database w)))) (\<lambda>cur. Channels F P g cur n) '''') w =
      (Inr (map (channel_of_row F P) (sort_by (newer P ch_opened_at ch_id)
         (filter (channel_matches g) (channels (database w))))), w) \<and>
    run_state (all_pages (Suc (length (events (database w)))) (\<lambda>cur. Events F P h cur n) '''') w =
      (Inr (map (event_of_row F P) (sort_by (newer P (\<lambda>e. Some (ev_occurred_at e)) ev_id)
         (filter (event_matches P h) (events (database w))))), w)"
proof -
  have start: "DecodeCursor '''' = Inr zero_cursor" and zero: "IsZero zero_cursor"
    by (simp_all add: DecodeCursor_def IsZero_def zero_cursor_def)
  note p = payments_endpoint.found_zero[OF payments_endpoint.base_ok zero]
  note c = channels_endpoint.found_zero[OF channels_endpoint.base_ok zero]
  note e = events_endpoint.found_zero[OF events_endpoint.base_ok zero]
  show ?thesis
    using payments_endpoint.all_pages_complete[OF assms(1-3,4) start, of f "Suc (length (payments (database w)))" F n]
      channels_endpoint.all_pages_complete[OF assms(1-3,5) start, of g "Suc (length (channels (database w)))" F n]
      events_endpoint.all_pages_complete[OF assms(1-3,6) start, of h "Suc (length (events (database w)))" F n]
    unfolding p c e payment_base_selects channel_base_selects event_base_selects
    by (simp add: le_imp_less_Suc)
qed

theorem listings_complete_witness:
  "fst (run_state (all_pages 4 (\<lambda>cur. Payments sample_fibertypes sample_postgres no_payment_filter cur 2) '''')
     (sample_world sample_index)) =
   Inr (map (payment_of_row sample_fibertypes sample_postgres)
     [sample_pay ''h2'' 3000 200, sample_pay ''h3'' 2000 55, sample_pay ''h1'' 1000 100])"
  using listings_complete[of "sample_world sample_index" sample_postgres sample_fibertypes no_payment_filter 2
      "\<lparr>cf_State = '''', cf_Peer = ''''\<rparr>" no_event_filter]
    sample_listable
  by (simp add: sample_index_defs newer_def payment_matches_def matches_def in_range_def no_payment_filter_def
      numeral_eq_Suc del: all_pages.simps)

text \<open>The size of a page, under every schedule: at most the clamped limit, and exactly that if there is more.\<close>

lemma payments_page_bounds:
  assumes "run_state (Payments F P f cur n) w = (Inr p, w')"
  shows "int (length (Items p)) \<le> clampLimit n \<and> clampLimit n \<le> 200 \<and>
    (NextCursor p \<noteq> '''' \<longrightarrow> int (length (Items p)) = clampLimit n)"
proof -
  have "others_keep (\<lambda>_. True) w" by (simp add: others_keep_def)
  from payments_endpoint.fetch_page[OF assms this] obtain d :: db where
    "p = payments_endpoint.page_of F P f cur n (payments d)" by blast
  then show ?thesis
    using clampLimit_bounds[of n]
    by (auto simp: payments_endpoint.page_of_def Let_def)
qed

text \<open>C20: pagination is stable while other sessions write. Whatever is inserted between the pages, the events a
  client has collected when the cursors end match its filter, are in strictly descending order of
  (time, id), so none is returned twice, and include every matching event that no other session
  removed.\<close>

theorem events_listing_stable:
  assumes "postgres_ok P" and "event_matches P h r"
    and "others_keep (\<lambda>d. listable P (\<lambda>e. Some (ev_occurred_at e)) ev_id (events d) \<and> r \<in> set (events d)) w"
    and "run_state (all_pages k (\<lambda>cur. Events F P h cur n) '''') w = (Inr items, w')"
  shows "\<exists>rs. items = map (event_of_row F P) rs \<and> r \<in> set rs \<and> distinct rs \<and>
    sorted_wrt (precedes P (\<lambda>e. Some (ev_occurred_at e)) ev_id) rs \<and> list_all (event_matches P h) rs"
proof -
  have sel: "selected P (event_base h) event_col r" using assms(2) by (simp add: event_base_selects)
  have start: "DecodeCursor '''' = Inr zero_cursor" and zero: "IsZero zero_cursor"
    by (simp_all add: DecodeCursor_def IsZero_def zero_cursor_def)
  from events_endpoint.all_pages_stable[OF assms(1) sel assms(3) start assms(4)] obtain rs where
    rs: "items = map (event_of_row F P) rs" "sorted_wrt (precedes P (\<lambda>e. Some (ev_occurred_at e)) ev_id) rs"
      "\<forall>y \<in> set rs. selected P (event_base h) event_col y" "r \<in> set rs"
    by (auto simp: after_cursor_def zero)
  moreover have "distinct rs"
    using rs(2) unfolding distinct_conv_nth sorted_wrt_iff_nth_less
    by (metis linorder_neqE_nat precedes_def)
  moreover have "list_all (event_matches P h) rs"
    using rs(3) by (simp add: list_all_iff event_base_selects)
  ultimately show ?thesis by blast
qed

definition sample_inserter :: tick where
  "sample_inserter = \<lparr>others = (\<lambda>d. d\<lparr>events := insert_absent ev_id (sample_event\<lparr>ev_id := ''e9'', ev_occurred_at := 8000\<rparr>) (events d)\<rparr>),
     tick_reply = Ok_reply\<rparr>"

lemma sample_inserter_keeps:
  "others_keep (\<lambda>d. listable sample_postgres (\<lambda>e. Some (ev_occurred_at e)) ev_id (events d) \<and> sample_event \<in> set (events d))
     ((sample_world sample_index)\<lparr>schedule := [sample_inserter, quiet_tick, sample_inserter]\<rparr>)"
  using sample_listable(3)
  by (auto simp: others_keep_def sample_inserter_def quiet_tick_def listable_def list_all_iff insert_absent_def
      sample_postgres_def sample_index_def sample_world_def zero_time_def keyed_snoc lookup_row_None_iff split: option.splits)

theorem events_listing_stable_witness:
  "\<exists>items w' rs. run_state (all_pages 1 (\<lambda>cur. Events sample_fibertypes sample_postgres no_event_filter cur 50) '''')
       ((sample_world sample_index)\<lparr>schedule := [sample_inserter, quiet_tick, sample_inserter]\<rparr>) = (Inr items, w') \<and>
     items = map (event_of_row sample_fibertypes sample_postgres) rs \<and> length items = 2 \<and> sample_event \<in> set rs"
proof -
  let ?m = "all_pages 1 (\<lambda>cur. Events sample_fibertypes sample_postgres no_event_filter cur 50) ''''"
  let ?w = "(sample_world sample_index)\<lparr>schedule := [sample_inserter, quiet_tick, sample_inserter]\<rparr>"
  have "\<exists>items w'. run_state ?m ?w = (Inr items, w') \<and> length items = 2"
    by (simp add: Events_def pool_query_def pool_exec_def next_tick_def sample_inserter_def quiet_tick_def
        run_reply_Ok reading_def on_schema_def select_rows_def selected_def event_conds_def no_event_filter_def
        eq_def tsRange_def keyset_def IsZero_def no_conds_def DecodeCursor_def zero_cursor_def paginate_def
        clampLimit_def insert_absent_def lookup_row_def sample_index_defs Let_def)
  then obtain items w' where run: "run_state ?m ?w = (Inr items, w')" "length items = 2" by blast
  moreover have "event_matches sample_postgres no_event_filter sample_event"
    by (simp add: event_matches_def no_event_filter_def matches_def in_range_def)
  ultimately show ?thesis
    using events_listing_stable[OF sample_postgres_ok _ sample_inserter_keeps run(1)] by blast
qed

section \<open>Aggregation\<close>

lemma hexOrEmpty_numeric_of:
  "fibertypes_ok F \<Longrightarrow> postgres_ok P \<Longrightarrow> 0 \<le> v \<Longrightarrow> v < 2 ^ 128 \<Longrightarrow> hexOrEmpty F (numeric_of P v) = hex_wire (nat v)"
  by (auto simp: hexOrEmpty_def NumericToAmount_dec fibertypes_ok_Hex postgres_ok_def numeric_of_ok_def
      numeric_finite_def)

lemma stats_selects: "selected P (tsRange ''created_at'' from to no_conds) payment_col p \<longleftrightarrow> in_range P from to (pay_created_at p)"
  by (simp add: selected_tsRange[where ts = "pay_created_at p"] payment_col_def)

text \<open>C38: the statistics add up. The buckets are sorted by asset without repetition and there is one for each
  asset of a payment in the range (\<open>unknown\<close> for NULL); its count and its total are the number and the
  exact sum of that asset's payments in the range, and the counts of all buckets together are the
  number of payments in the range.\<close>

theorem stats_add_up:
  fixes t1 t2 :: "time option"
  assumes "quiet w" and "1 \<le> schema_version (database w)" and P: "postgres_ok P" and F: "fibertypes_ok F"
    and nonneg: "\<forall>p \<in> set (payments (database w)). 0 \<le> coalesce (pay_amount p) 0"
    and total: "(\<Sum>p\<leftarrow>payments (database w). coalesce (pay_amount p) 0) < 2 ^ 128"
  defines "hits \<equiv> filter (\<lambda>p. in_range P t1 t2 (pay_created_at p)) (payments (database w))"
  shows "\<exists>rows. run_state (StatsPayments F P t1 t2) w = (Inr rows, w) \<and>
    sorted_wrt (collate_le P) (map s_Asset rows) \<and> distinct (map s_Asset rows) \<and>
    set (map s_Asset rows) = asset_group ` set hits \<and>
    (\<forall>s \<in> set rows. s_Count s = int (length (filter (\<lambda>p. asset_group p = s_Asset s) hits)) \<and>
       s_Total s = hex_wire (nat (\<Sum>p\<leftarrow>filter (\<lambda>p. asset_group p = s_Asset s) hits. coalesce (pay_amount p) 0))) \<and>
    (\<Sum>s\<leftarrow>rows. s_Count s) = int (length hits)"
proof -
  define assets where "assets = sort_by (collate_le P) (remdups (map asset_group hits))"
  define row where "row a = (let grp = filter (\<lambda>p. asset_group p = a) hits in
    \<lparr>s_Asset = a, s_Count = int (length grp), s_Total = hexOrEmpty F (numeric_of P (coalesce (sql_sum (map pay_amount grp)) 0))\<rparr>)"
    for a
  have sel: "selected P (tsRange ''created_at'' t1 t2 no_conds) payment_col = (\<lambda>p. in_range P t1 t2 (pay_created_at p))"
    by (simp add: fun_eq_iff stats_selects)
  have run: "run_state (StatsPayments F P t1 t2) w = (Inr (map row assets), w)"
    using assms(1,2)
    by (simp add: StatsPayments_def io_simps reading_def on_schema_def stats_rows_def sel Let_def
        assets_def row_def hits_def[symmetric] comp_def del: filter_filter)
  have "total_preorder (collate_le P)" by unfold_locales (rule collationD[OF P], rule collationD(2)[OF P])
  then have sorted: "sorted_wrt (collate_le P) assets"
    unfolding assets_def by (rule total_preorder.sorted_sort_by)
  have set_assets: "set assets = asset_group ` set hits" and dist: "distinct assets"
    by (simp_all add: assets_def)
  have "row a = \<lparr>s_Asset = a, s_Count = int (length (filter (\<lambda>p. asset_group p = a) hits)),
      s_Total = hex_wire (nat (\<Sum>p\<leftarrow>filter (\<lambda>p. asset_group p = a) hits. coalesce (pay_amount p) 0))\<rparr>" for a
  proof -
    let ?sum = "\<Sum>p\<leftarrow>filter (\<lambda>p. asset_group p = a) hits. coalesce (pay_amount p) 0"
    have "0 \<le> ?sum" "?sum < 2 ^ 128"
      using sum_filter_bounds[OF nonneg, of "\<lambda>p. in_range P t1 t2 (pay_created_at p) \<and> asset_group p = a"] total
      by (simp_all add: hits_def)
    moreover have "coalesce (sql_sum (map pay_amount (filter (\<lambda>p. asset_group p = a) hits))) 0 = ?sum"
      by (simp add: coalesce_sql_sum comp_def)
    ultimately show ?thesis by (simp add: row_def Let_def hexOrEmpty_numeric_of[OF F P])
  qed
  moreover have "(\<Sum>a\<leftarrow>assets. int (length (filter (\<lambda>p. asset_group p = a) hits))) = int (length hits)"
    using sum_groups[of "set assets" asset_group hits]
    by (simp add: sum_list_distinct_conv_sum_set[OF dist] set_assets)
  ultimately show ?thesis
    using run sorted dist set_assets by (intro exI[of _ "map row assets"]) (simp add: comp_def)
qed

theorem stats_add_up_witness:
  "\<exists>rows. run_state (StatsPayments sample_fibertypes sample_postgres None None) (sample_world sample_index) =
     (Inr rows, sample_world sample_index) \<and> set (map s_Asset rows) = {''CKB''} \<and> (\<Sum>s\<leftarrow>rows. s_Count s) = 3"
proof -
  have "\<forall>p \<in> set (payments (database (sample_world sample_index))). 0 \<le> coalesce (pay_amount p) 0"
    and "(\<Sum>p\<leftarrow>payments (database (sample_world sample_index)). coalesce (pay_amount p) 0) < 2 ^ 128"
    by (simp_all add: sample_index_defs)
  from stats_add_up[OF _ _ sample_postgres_ok sample_fibertypes_ok this, of None None] show ?thesis
    by (auto simp: sample_index_defs in_range_def asset_group_def)
qed

section \<open>Replies\<close>

definition lookup_reply :: "string \<Rightarrow> ('a \<Rightarrow> json) \<Rightarrow> 'a option \<Rightarrow> response" where
  "lookup_reply msg f x = (case x of None \<Rightarrow> Error StatusNotFound msg | Some y \<Rightarrow> JSON StatusOK (f y))"

text \<open>The next statement is answered normally, by a migrated database.\<close>

definition served :: "world \<Rightarrow> bool" where
  "served w \<longleftrightarrow> tick_reply (fst (next_tick w)) = Ok_reply \<and> 1 \<le> schema_version (seen_db w)"

text \<open>A lookup of one row by a single statement, as both \<open>ByHash\<close> and \<open>ByID\<close> do it.\<close>

lemma run_lookup:
  fixes find :: "db \<Rightarrow> 'r option" and g :: "'r \<Rightarrow> 'a" and wmsg :: string
  defines "m \<equiv> (do {
     r \<leftarrow> pool_exec (on_schema 1 (\<lambda>_ d. case find d of None \<Rightarrow> Inl ErrNoRows | Some x \<Rightarrow> Inr (x, d)));
     case r of
       Inl e \<Rightarrow> if errors_Is e ErrNoRows then throw query_ErrNotFound else throw (wrap_error wmsg e)
     | Inr x \<Rightarrow> ok (g x) }) :: 'a io"
  shows "database (snd (run_state (reply_found msg f m) w)) = seen_db w \<and>
    (fst (run_state (reply_found msg f m) w) = lookup_reply msg (f \<circ> g) (find (seen_db w)) \<or>
     \<not> served w \<and> status (fst (run_state (reply_found msg f m) w)) = StatusInternalServerError)"
proof -
  obtain t w1 where t: "next_tick w = (t, w1)" by fastforce
  note env = next_tick_env[OF t]
  have no_driver: "Driver s \<noteq> ErrNoRows" "\<not> errors_Is (Driver s) ErrNoRows" "\<not> errors_Is (wrap_error wmsg (Driver s)) query_ErrNotFound" for s
    by (simp_all add: ErrNoRows_def query_ErrNotFound_def wrap_error_def)
  show ?thesis
    by (cases "tick_reply t"; cases "find (others t (database w))"; cases "schema_version (others t (database w)) < 1")
       (simp_all add: m_def reply_found_def pool_exec_def t env run_reply_def reply_of_def on_schema_def no_driver
         served_def seen_db_def lookup_reply_def internal_error_def Error_def JSON_def comp_def)
qed

text \<open>The single-row endpoints under every schedule. They leave the database as the other sessions made it;
  the reply is the row of that database as JSON with status 200, or status 404 if it has none, unless
  the statement failed or the tables do not exist, when the status is 500.\<close>

lemma lookups_reply:
  "(let hash = req_param r ''payment_hash''; res = run_state (getPayment F P r) w in
     database (snd res) = seen_db w \<and>
     (fst res = lookup_reply ''payment not found'' (payment_json \<circ> payment_of_row F P)
        (lookup_row pay_hash hash (payments (seen_db w))) \<or>
      \<not> served w \<and> status (fst res) = StatusInternalServerError)) \<and>
   (let chID = req_param r ''channel_id''; res = run_state (getChannel F P r) w in
     database (snd res) = seen_db w \<and>
     (fst res = lookup_reply ''channel not found'' (channel_json \<circ> channel_of_row F P)
        (lookup_row ch_id chID (channels (seen_db w))) \<or>
      \<not> served w \<and> status (fst res) = StatusInternalServerError))"
  unfolding getPayment_def getChannel_def PaymentByHash_def ChannelByID_def Let_def
  using run_lookup[where find = "\<lambda>d. lookup_row pay_hash (req_param r ''payment_hash'') (payments d)"
        and g = "payment_of_row F P" and f = payment_json and w = w]
    run_lookup[where find = "\<lambda>d. lookup_row ch_id (req_param r ''channel_id'') (channels d)"
        and g = "channel_of_row F P" and f = channel_json and w = w]
  by blast

text \<open>A malformed request is refused before any statement is sent. A cursor, \<open>from\<close> or \<open>to\<close> that does not
  decode gives status 400 and leaves the whole world as it was, on every listing that reads the
  parameter.\<close>

lemma bad_request_sends_nothing:
  assumes "DecodeCursor (req_query r ''cursor'') = Inl e \<or> QueryTime r ''from'' = Inl e \<or> QueryTime r ''to'' = Inl e"
  shows "(status (fst (run_state (listPayments F P r) w)) = StatusBadRequest \<and> snd (run_state (listPayments F P r) w) = w) \<and>
    (status (fst (run_state (listEvents F P r) w)) = StatusBadRequest \<and> snd (run_state (listEvents F P r) w) = w) \<and>
    (DecodeCursor (req_query r ''cursor'') = Inl e \<longrightarrow>
       status (fst (run_state (listChannels F P r) w)) = StatusBadRequest \<and> snd (run_state (listChannels F P r) w) = w) \<and>
    (QueryTime r ''from'' = Inl e \<or> QueryTime r ''to'' = Inl e \<longrightarrow>
       status (fst (run_state (statsPayments F P r) w)) = StatusBadRequest \<and> snd (run_state (statsPayments F P r) w) = w)"
  using assms
  by (auto simp: listPayments_def listEvents_def listChannels_def statsPayments_def with_cursor_def with_range_def
      bad_cursor_def Error_def JSON_def split: sum.splits)

end
