(* ===== verification/Config.thy ===== *)
theory Config
  imports Gostd
begin

text \<open>
  The configuration of \<^verbatim>\<open>internal/platform/config/config.go\<close>. The environment is a function that returns
  the empty string for an unset variable, as \<open>os.Getenv\<close> does.
\<close>

record config =
  FiberRPCEndpoint :: string
  FiberBiscuitToken :: string
  IngestSource :: string
  DatabaseURL :: string
  WebhookMaxAttempts :: int
  WebhookWorkers :: int
  HTTPAddr :: string

type_synonym environment = "string \<Rightarrow> string"

definition envOr :: "environment \<Rightarrow> string \<Rightarrow> string \<Rightarrow> string" where
  "envOr env key def = (if env key \<noteq> '''' then env key else def)"

definition envInt :: "environment \<Rightarrow> string \<Rightarrow> int \<Rightarrow> error + int" where
  "envInt env key def =
     (if env key = '''' then Inr def
      else case Atoi (env key) of
        Inl e \<Rightarrow> Inl (Errorf ''config: %s must be an integer: %w'' [key] (Some e))
      | Inr n \<Rightarrow> Inr n)"

definition config_Load :: "environment \<Rightarrow> error + config" where
  "config_Load env =
     (case envInt env ''WEBHOOK_MAX_ATTEMPTS'' 8 of
        Inl e \<Rightarrow> Inl e
      | Inr maxAttempts \<Rightarrow> (case envInt env ''WEBHOOK_WORKERS'' 4 of
          Inl e \<Rightarrow> Inl e
        | Inr workers \<Rightarrow>
            (let cfg = \<lparr>FiberRPCEndpoint = env ''FIBER_RPC_ENDPOINT'', FiberBiscuitToken = env ''FIBER_BISCUIT_TOKEN'',
                IngestSource = envOr env ''INGEST_SOURCE'' ''fake'', DatabaseURL = env ''DATABASE_URL'',
                WebhookMaxAttempts = maxAttempts, WebhookWorkers = workers, HTTPAddr = envOr env ''HTTP_ADDR'' '':8080''\<rparr>
             in if DatabaseURL cfg = '''' then Inl (Errorf ''config: DATABASE_URL is required'' [] None)
                else if IngestSource cfg \<in> {''pubsub'', ''polling'', ''fake''} then Inr cfg
                else Inl (Errorf ''config: invalid INGEST_SOURCE %q (want pubsub|polling|fake)'' [IngestSource cfg] None))))"

section \<open>What a loaded configuration guarantees\<close>

definition int_or_default :: "environment \<Rightarrow> string \<Rightarrow> int \<Rightarrow> int \<Rightarrow> bool" where
  "int_or_default env key def n \<longleftrightarrow> env key = '''' \<and> n = def \<or> env key \<noteq> '''' \<and> Atoi (env key) = Inr n"

lemma envInt_iff: "envInt env key def = Inr n \<longleftrightarrow> int_or_default env key def n"
  by (auto simp: envInt_def int_or_default_def split: sum.splits)

lemma Atoi_bounds: "Atoi s = Inr n \<Longrightarrow> - (2 ^ 63) \<le> n \<and> n < 2 ^ 63"
  by (auto simp: Atoi_def Let_def split: list.splits if_splits prod.splits)

end
