(* ===== verification/Source.thy ===== *)
theory Source
  imports Indexer Config
begin

text \<open>
  Where the indexer's raw changes come from: the stand-ins of \<^verbatim>\<open>internal/platform/fiber/fiber.go\<close> and the
  wiring of \<^verbatim>\<open>internal/indexer/run.go\<close>. The file system, the JSON of a seed file and the library's
  \<open>ingest.Runner\<close> are parameters.
\<close>

section \<open>\<open>fiber.go\<close>\<close>

record raw_change =
  rw_Seq :: int
  rw_Body :: string

definition Normalize :: "kevents \<Rightarrow> raw_change \<Rightarrow> error + event list" where
  "Normalize K raw =
     (case unmarshal_Event K (rw_Body raw) of
        Inl e \<Rightarrow> Inl (Errorf ''fiber: stub normalize seq %d: %w'' [dec_int (rw_Seq raw)] (Some e))
      | Inr e \<Rightarrow> Inr [e])"

text \<open>
  The goroutine of \<open>FakeSource.Subscribe\<close>: for each change, whether the context was already cancelled
  when it was checked, and whether the \<open>select\<close> then took the cancellation instead of the send. The
  result is what the receiver gets before the channel is closed.
\<close>

fun subscribe_loop :: "(nat \<Rightarrow> bool) \<Rightarrow> (nat \<Rightarrow> bool) \<Rightarrow> nat \<Rightarrow> raw_change list \<Rightarrow> raw_change list" where
  "subscribe_loop cancelled takes_done i [] = []"
| "subscribe_loop cancelled takes_done i (c # cs) =
     (if cancelled i then [] else if takes_done i then [] else c # subscribe_loop cancelled takes_done (Suc i) cs)"

record fake_source =
  Changes :: "raw_change list"

definition Subscribe :: "(nat \<Rightarrow> bool) \<Rightarrow> (nat \<Rightarrow> bool) \<Rightarrow> fake_source \<Rightarrow> raw_change list" where
  "Subscribe cancelled takes_done s = subscribe_loop cancelled takes_done 0 (Changes s)"

section \<open>\<open>run.go\<close>\<close>

record seed_record =
  seed_Seq :: int
  seed_Event :: event

record files =
  ReadFile :: "string \<Rightarrow> error + string"
  unmarshal_seeds :: "string \<Rightarrow> error + seed_record list"

fun seed_changes :: "kevents \<Rightarrow> seed_record list \<Rightarrow> raw_change list \<Rightarrow> error + raw_change list" where
  "seed_changes K [] changes = Inr changes"
| "seed_changes K (r # rs) changes =
     (case marshal_Event K (seed_Event r) of
        Inl e \<Rightarrow> Inl (Errorf ''indexer: encode seed event: %w'' [] (Some e))
      | Inr body \<Rightarrow> seed_changes K rs (changes @ [\<lparr>rw_Seq = seed_Seq r, rw_Body = body\<rparr>]))"

definition loadSeed :: "kevents \<Rightarrow> files \<Rightarrow> string \<Rightarrow> error + raw_change list" where
  "loadSeed K fs path =
     (if path = '''' then Inr []
      else case ReadFile fs path of
        Inl e \<Rightarrow> Inl (Errorf ''indexer: read seed %s: %w'' [path] (Some e))
      | Inr b \<Rightarrow> (case unmarshal_seeds fs b of
          Inl e \<Rightarrow> Inl (Errorf ''indexer: parse seed %s: %w'' [path] (Some e))
        | Inr recs \<Rightarrow> seed_changes K recs []))"

text \<open>The normalizer of the source is always \<open>StubNormalizer\<close>.\<close>

definition buildSource :: "kevents \<Rightarrow> files \<Rightarrow> environment \<Rightarrow> config \<Rightarrow> error + fake_source" where
  "buildSource K fs env cfg =
     (if IngestSource cfg = ''fake'' then
        (case loadSeed K fs (env ''SEED_FILE'') of Inl e \<Rightarrow> Inl e | Inr changes \<Rightarrow> Inr \<lparr>Changes = changes\<rparr>)
      else if IngestSource cfg = ''polling'' \<or> IngestSource cfg = ''pubsub'' then
        Inl (Errorf ''indexer: INGEST_SOURCE=%s needs the store_changes spike (concrete Source/Normalizer not yet in the library)''
          [IngestSource cfg] None)
      else Inl (Errorf ''indexer: unknown INGEST_SOURCE %q'' [IngestSource cfg] None))"

text \<open>\<open>runner\<close> is the library's \<open>Runner.Run\<close> over the source, the normalizer and the projector.\<close>

definition indexer_Run ::
    "(fake_source \<Rightarrow> (raw_change \<Rightarrow> error + event list) \<Rightarrow> projector \<Rightarrow> unit io) \<Rightarrow> kevents \<Rightarrow> files \<Rightarrow> environment \<Rightarrow> config \<Rightarrow> unit io" where
  "indexer_Run runner K fs env cfg =
     (case buildSource K fs env cfg of
        Inl e \<Rightarrow> throw e
      | Inr src \<Rightarrow> runner src (Normalize K) New)"

section \<open>What reaches the projector\<close>

text \<open>The receiver gets a prefix of the changes, and all of them if nobody cancels.\<close>

lemma subscribe_loop_prefix: "\<exists>rest. changes = subscribe_loop cancelled takes_done i changes @ rest"
  by (induction changes arbitrary: i) auto

lemma Subscribe_all: "(\<And>i. \<not> cancelled i \<and> \<not> takes_done i) \<Longrightarrow> Subscribe cancelled takes_done s = Changes s"
proof -
  assume "\<And>i. \<not> cancelled i \<and> \<not> takes_done i"
  then have "subscribe_loop cancelled takes_done i changes = changes" for i changes
    by (induction changes arbitrary: i) auto
  then show ?thesis by (simp add: Subscribe_def)
qed

text \<open>The library's event codec: what is encoded decodes to the same event.\<close>

definition event_codec_ok :: "kevents \<Rightarrow> bool" where
  "event_codec_ok K \<longleftrightarrow> (\<forall>e s. marshal_Event K e = Inr s \<longrightarrow> unmarshal_Event K s = Inr e)"

lemma seed_changes_result:
  "seed_changes K recs acc = Inr changes \<Longrightarrow> event_codec_ok K \<Longrightarrow>
   \<exists>new. changes = acc @ new \<and> map rw_Seq new = map seed_Seq recs \<and>
     map (Normalize K) new = map (\<lambda>r. Inr [seed_Event r]) recs"
proof (induction K recs acc rule: seed_changes.induct)
  case (1 K acc)
  then show ?case by simp
next
  case (2 K r rs acc)
  then obtain body where body: "marshal_Event K (seed_Event r) = Inr body" by (auto split: sum.splits)
  with 2 obtain new where new: "changes = (acc @ [\<lparr>rw_Seq = seed_Seq r, rw_Body = body\<rparr>]) @ new"
    "map rw_Seq new = map seed_Seq rs" "map (Normalize K) new = map (\<lambda>r. Inr [seed_Event r]) rs" by auto
  have "Normalize K \<lparr>rw_Seq = seed_Seq r, rw_Body = body\<rparr> = Inr [seed_Event r]"
    using 2(3) body by (simp add: Normalize_def event_codec_ok_def)
  with new show ?case by (intro exI[of _ "\<lparr>rw_Seq = seed_Seq r, rw_Body = body\<rparr> # new"]) simp
qed

end
