(* ===== verification/App.thy ===== *)
theory App
  imports Source Server Outbox Migrations
begin

text \<open>
  The binary: \<^verbatim>\<open>cmd/app/main.go\<close> with its modes, and \<open>Run\<close> of \<^verbatim>\<open>internal/webhook/run.go\<close>. What the process
  prints is a value; the library's engines (the ingest runner, the webhook dispatcher, goose, the HTTP
  server) are the parameter record \<open>engines\<close>.
\<close>

section \<open>\<open>main.go\<close>\<close>

text \<open>
  How serving ends: a signal arrives and the result of the graceful shutdown is returned, or the
  listener fails.
\<close>

datatype api_end = Signalled "error option" | Listener error

definition ErrServerClosed :: error where
  "ErrServerClosed = Sentinel ''http: Server closed''"

definition Canceled :: error where
  "Canceled = Sentinel ''context canceled''"

record engines =
  pool_new :: "string \<Rightarrow> error option"
  sql_open :: "string \<Rightarrow> error option"
  goose_dialect :: "error option"
  goose_up :: "unit io"
  runner :: "fake_source \<Rightarrow> (raw_change \<Rightarrow> error + event list) \<Rightarrow> projector \<Rightarrow> unit io"
  dispatch :: "dispatcher \<Rightarrow> unit io"
  sweeps :: "time list list"
  serve :: "string \<Rightarrow> string option \<Rightarrow> string \<Rightarrow> routes \<Rightarrow> (world, api_end) state"
  rand_int64n :: "int \<Rightarrow> int"

text \<open>The lines printed to stdout and stderr, and the returned error.\<close>

type_synonym printed = "string list \<times> string list \<times> error option"

abbreviation succeeds :: "string list \<Rightarrow> (world, printed) state" where
  "succeeds out \<equiv> State_Monad.return (out, [], None)"

abbreviation fails :: "string list \<Rightarrow> error \<Rightarrow> (world, printed) state" where
  "fails out e \<equiv> State_Monad.return (out, [], Some e)"

definition with_pool :: "engines \<Rightarrow> config \<Rightarrow> (world, printed) state \<Rightarrow> (world, printed) state" where
  "with_pool E cfg k = do {
     r \<leftarrow> Open (pool_new E) (DatabaseURL cfg);
     case r of Inl e \<Rightarrow> fails [] e | Inr _ \<Rightarrow> k }"

definition runProvisionMerchant :: "engines \<Rightarrow> config \<Rightarrow> string list \<Rightarrow> (world, printed) state" where
  "runProvisionMerchant E cfg args = with_pool E cfg (do {
     let name = (if 2 < length args then args ! 2 else ''merchant'');
     r \<leftarrow> Provision name ''CKB'';
     case r of
       Inl e \<Rightarrow> fails [] e
     | Inr (mid, key) \<Rightarrow> succeeds [''merchant_id='' @ mid, ''api_key='' @ key] })"

text \<open>A cancelled context is a clean end.\<close>

definition unless_canceled :: "string list \<Rightarrow> string \<Rightarrow> error + unit \<Rightarrow> (world, printed) state" where
  "unless_canceled out msg r = (case r of
     Inl e \<Rightarrow> if errors_Is e Canceled then succeeds (out @ [msg]) else fails out e
   | Inr _ \<Rightarrow> succeeds (out @ [msg]))"

definition runIndexer :: "engines \<Rightarrow> kevents \<Rightarrow> files \<Rightarrow> environment \<Rightarrow> config \<Rightarrow> (world, printed) state" where
  "runIndexer E K fs env cfg = with_pool E cfg (do {
     let start = [''indexer: starting (source: '' @ IngestSource cfg @ '')''];
     r \<leftarrow> indexer_Run (runner E) K fs env cfg;
     unless_canceled start ''indexer: done'' r })"

text \<open>
  \<open>go sweep(\<dots>)\<close>: the sweeper runs beside the dispatcher, and its commits fall between the statements of the
  dispatcher. \<open>sweeps\<close> says before which of them its ticker fires, and at what times; a tick whose
  \<open>Requeue\<close> fails has no effect and is not listed.
\<close>

fun beside_sweeper :: "time list list \<Rightarrow> tick list \<Rightarrow> tick list" where
  "beside_sweeper [] ts = ts"
| "beside_sweeper (fires # rest) ts =
     (let t = (case ts of [] \<Rightarrow> quiet_tick | t # _ \<Rightarrow> t)
      in t\<lparr>others := fold (effect requeue_stmt) fires \<circ> others t\<rparr> # beside_sweeper rest (tl ts))"

text \<open>
  \<open>webhook.Run\<close> starts the sweeper and hands the dispatcher to the library; the line it prints first is
  part of the output below, those of the sweeper are not recorded.
\<close>

definition webhook_Run :: "engines \<Rightarrow> config \<Rightarrow> unit io" where
  "webhook_Run E cfg = do {
     State (\<lambda>w. ((), w\<lparr>schedule := beside_sweeper (sweeps E) (schedule w)\<rparr>));
     dispatch E (dispatcher_of (rand_int64n E) (WebhookMaxAttempts cfg) (WebhookWorkers cfg)) }"

definition runDispatcher :: "engines \<Rightarrow> config \<Rightarrow> (world, printed) state" where
  "runDispatcher E cfg = with_pool E cfg (do {
     let start = [''dispatcher: workers='' @ dec_int (WebhookWorkers cfg) @ '' max_attempts='' @ dec_int (WebhookMaxAttempts cfg)];
     r \<leftarrow> webhook_Run E cfg;
     unless_canceled start ''dispatcher: stopped'' r })"

text \<open>The authentication token is passed to the node's client only if it is set.\<close>

definition runAPI :: "engines \<Rightarrow> deps \<Rightarrow> config \<Rightarrow> (world, printed) state" where
  "runAPI E D cfg = with_pool E cfg (do {
     let token = (if FiberBiscuitToken cfg \<noteq> '''' then Some (FiberBiscuitToken cfg) else None);
     let out = [''api: listening on '' @ HTTPAddr cfg];
     r \<leftarrow> serve E (FiberRPCEndpoint cfg) token (HTTPAddr cfg) (Router D);
     case r of
       Signalled None \<Rightarrow> succeeds out
     | Signalled (Some e) \<Rightarrow> fails out e
     | Listener e \<Rightarrow> if errors_Is e ErrServerClosed then succeeds out else fails out e })"

definition usage :: string where
  "usage = ''usage: app <migrate|indexer|api|dispatcher>''"

definition run :: "engines \<Rightarrow> deps \<Rightarrow> kevents \<Rightarrow> files \<Rightarrow> environment \<Rightarrow> string list \<Rightarrow> string \<Rightarrow> (world, printed) state" where
  "run E D K fs env args mode =
     (case config_Load env of
        Inl e \<Rightarrow> fails [] e
      | Inr cfg \<Rightarrow>
          if mode = ''migrate'' then do {
            r \<leftarrow> Migrate (sql_open E) (goose_dialect E) (goose_up E) (DatabaseURL cfg);
            case r of Inl e \<Rightarrow> fails [] e | Inr _ \<Rightarrow> succeeds [''migrations applied''] }
          else if mode = ''indexer'' then runIndexer E K fs env cfg
          else if mode = ''api'' then runAPI E D cfg
          else if mode = ''dispatcher'' then runDispatcher E cfg
          else if mode = ''merchant-key'' then runProvisionMerchant E cfg args
          else State_Monad.return ([], [usage], Some (Errorf ''unknown subcommand %q'' [mode] None)))"

text \<open>\<open>main\<close>: the lines of stdout and stderr, and the exit code.\<close>

definition main :: "engines \<Rightarrow> deps \<Rightarrow> kevents \<Rightarrow> files \<Rightarrow> environment \<Rightarrow> string list \<Rightarrow> (world, string list \<times> string list \<times> int) state" where
  "main E D K fs env args =
     (if length args < 2 then State_Monad.return ([], [usage], 2)
      else do {
        (out, err, res) \<leftarrow> run E D K fs env args (args ! 1);
        State_Monad.return (case res of
          None \<Rightarrow> (out, err, 0) | Some e \<Rightarrow> (out, err @ [''app: '' @ error_text e], 1)) })"

end
