(* ===== verification/App_Spec.thy ===== *)
theory App_Spec
  imports App System_Spec
begin

text \<open>
  The properties of the binary: what a configuration must contain, and that nothing happens without
  one; seed files reach the projector unchanged; every mode keeps the invariants of the system; and
  from an empty database a few commands lead to a merchant who can use the API.
\<close>

section \<open>Configuration\<close>

text \<open>C40: loading the configuration succeeds exactly if \<open>DATABASE_URL\<close> is set, \<open>INGEST_SOURCE\<close> is unset or one of the
  three known sources and the two webhook numbers are unset or 64-bit integers; the result then has
  the value of each variable, or its documented default (\<open>fake\<close>, 8, 4 and \<open>:8080\<close>).\<close>

theorem config_Load_exact:
  "config_Load env = Inr cfg \<longleftrightarrow>
     DatabaseURL cfg = env ''DATABASE_URL'' \<and> DatabaseURL cfg \<noteq> '''' \<and>
     IngestSource cfg = (if env ''INGEST_SOURCE'' = '''' then ''fake'' else env ''INGEST_SOURCE'') \<and>
     IngestSource cfg \<in> {''pubsub'', ''polling'', ''fake''} \<and>
     int_or_default env ''WEBHOOK_MAX_ATTEMPTS'' 8 (WebhookMaxAttempts cfg) \<and>
     int_or_default env ''WEBHOOK_WORKERS'' 4 (WebhookWorkers cfg) \<and>
     HTTPAddr cfg = (if env ''HTTP_ADDR'' = '''' then '':8080'' else env ''HTTP_ADDR'') \<and>
     FiberRPCEndpoint cfg = env ''FIBER_RPC_ENDPOINT'' \<and> FiberBiscuitToken cfg = env ''FIBER_BISCUIT_TOKEN''"
  unfolding envInt_iff[symmetric]
  by (cases "envInt env ''WEBHOOK_MAX_ATTEMPTS'' 8"; cases "envInt env ''WEBHOOK_WORKERS'' 4"; cases cfg)
     (auto simp: config_Load_def envOr_def Let_def)

text \<open>Without a valid configuration, or with an unknown mode, the process fails and touches nothing.\<close>

lemma main_refuses:
  assumes "2 \<le> length args"
    and "(\<exists>e. config_Load env = Inl e) \<or> args ! 1 \<notin> {''migrate'', ''indexer'', ''api'', ''dispatcher'', ''merchant-key''}"
  shows "\<exists>err. run_state (main E D K fs env args) w = (([], err, 1), w)"
  using assms by (auto simp: main_def run_def split: sum.splits)

section \<open>Seed files\<close>

text \<open>The changes of a seed file normalize to its events, in order and with their sequence numbers.\<close>

lemma seed_reaches_projector:
  assumes "event_codec_ok K" and "IngestSource cfg = ''fake''" and "env ''SEED_FILE'' \<noteq> ''''"
    and "ReadFile fs (env ''SEED_FILE'') = Inr b" and "unmarshal_seeds fs b = Inr recs"
    and "buildSource K fs env cfg = Inr src"
  shows "map rw_Seq (Changes src) = map seed_Seq recs \<and> map (Normalize K) (Changes src) = map (\<lambda>r. Inr [seed_Event r]) recs"
  using assms seed_changes_result[of K recs "[]" "Changes src"] by (auto simp: buildSource_def loadSeed_def split: sum.splits)

section \<open>The sweeper beside the dispatcher\<close>

text \<open>What \<open>beside_sweeper\<close> adds to the schedule is what the loop of \<open>sweep\<close> does to the database.\<close>

lemma sweep_effect:
  "quiet w \<Longrightarrow> database (snd (run_state (sweep (map Tick ts)) w)) = fold (effect requeue_stmt) ts (database w)"
proof (induction ts arbitrary: w)
  case Nil
  then show ?case by simp
next
  case (Cons t ts)
  have "snd (run_state Requeue (w\<lparr>clock := t\<rparr>)) = w\<lparr>clock := t, database := effect requeue_stmt t (database w)\<rparr>"
    using Cons.prems by (auto simp: Requeue_def io_simps effect_def requeue_stmt_def on_schema_def)
  with Cons show ?case by (simp add: split_beta)
qed

lemma requeue_commits: "commits D d (fold (effect requeue_stmt) ts d)"
proof (induction ts arbitrary: d)
  case Nil
  then show ?case by simp
next
  case (Cons t ts)
  have "commits D d (effect requeue_stmt t d)" by (rule effect_commits) (rule c_requeue)
  with Cons show ?case by (auto intro: rtranclp_trans)
qed

lemma rely_beside_sweeper:
  "\<forall>t \<in> set ts. \<forall>d. commits D d (others t d) \<Longrightarrow> \<forall>t \<in> set (beside_sweeper fires ts). \<forall>d. commits D d (others t d)"
proof (induction fires ts rule: beside_sweeper.induct)
  case (1 ts)
  then show ?case by simp
next
  case (2 now rest ts)
  have "\<forall>t \<in> set (tl ts). \<forall>d. commits D d (others t d)" using 2(2) by (cases ts) simp_all
  moreover have "commits D d (others (case ts of [] \<Rightarrow> quiet_tick | t # _ \<Rightarrow> t) d)" for d
    using 2(2) by (cases ts) (simp_all add: quiet_tick_def)
  then have "commits D d (fold (effect requeue_stmt) now (others (case ts of [] \<Rightarrow> quiet_tick | t # _ \<Rightarrow> t) d))" for d
    using requeue_commits by (rule rtranclp_trans)
  ultimately show ?case using 2(1)[OF refl] by (auto simp: Let_def)
qed

section \<open>The modes\<close>

text \<open>
  What the libraries may do to the database: each is handed operations of this program, the projector,
  the store or the routes, and works through them alone, one after the other as one of its goroutines
  sees it; goose applies the migrations.
\<close>

definition driven :: "deps \<Rightarrow> (world, 'a) state \<Rightarrow> bool" where
  "driven D m \<longleftrightarrow> (\<forall>w. \<exists>fs. list_all (operation D) fs \<and> snd (run_state m w) = run_operations fs w)"

definition engines_ok :: "deps \<Rightarrow> engines \<Rightarrow> bool" where
  "engines_ok D E \<longleftrightarrow> (\<forall>changes norm p. driven D (runner E changes norm p)) \<and> (\<forall>disp. driven D (dispatch E disp)) \<and>
     (\<forall>rpc token addr. driven D (serve E rpc token addr (Router D))) \<and> goose_ok (goose_up E)"

lemma guar_driven: "driven D m \<Longrightarrow> guar D (\<lambda>_. True) m"
  unfolding driven_def guar_def by (metis run_operations_commits)

lemma guar_Open [guar_intros]: "guar D (\<lambda>_. True) (Open connect dsn)"
  unfolding Open_def by (intro guar_intros) simp

lemma guar_with_pool: "guar D (\<lambda>_. True) k \<Longrightarrow> guar D (\<lambda>_. True) (with_pool E cfg k)"
  unfolding with_pool_def by (intro guar_intros)

lemma guar_unless_canceled: "guar D (\<lambda>_. True) (unless_canceled out msg r)"
  unfolding unless_canceled_def by (intro guar_intros)

lemma guar_spawn_sweeper: "guar D (\<lambda>_. True) (State (\<lambda>w. ((), w\<lparr>schedule := beside_sweeper fires (schedule w)\<rparr>)))"
  using rely_beside_sweeper by (simp add: guar_def rely_def)

lemma guar_modes:
  assumes "engines_ok D E"
  shows "guar D (\<lambda>_. True) (runIndexer E K fs env cfg)" and "guar D (\<lambda>_. True) (runDispatcher E cfg)"
    and "guar D (\<lambda>_. True) (runAPI E D cfg)" and "guar D (\<lambda>_. True) (runProvisionMerchant E cfg args)"
proof -
  have engines: "guar D (\<lambda>_. True) (runner E changes norm p)" "guar D (\<lambda>_. True) (dispatch E disp)"
    "guar D (\<lambda>_. True) (serve E rpc token addr (Router D))" for changes norm p disp rpc token addr
    using assms by (simp_all add: engines_ok_def guar_driven)
  show "guar D (\<lambda>_. True) (runIndexer E K fs env cfg)"
    unfolding runIndexer_def indexer_Run_def Let_def
    by (intro guar_with_pool guar_bind_True guar_sum engines guar_return guar_unless_canceled)
  show "guar D (\<lambda>_. True) (runDispatcher E cfg)"
    unfolding runDispatcher_def webhook_Run_def Let_def
    by (intro guar_with_pool guar_bind_True guar_spawn_sweeper engines guar_unless_canceled)
  have "guar D (\<lambda>_. True) (case r of Signalled None \<Rightarrow> succeeds out | Signalled (Some e) \<Rightarrow> fails out e
      | Listener e \<Rightarrow> if errors_Is e ErrServerClosed then succeeds out else fails out e)" for r out
    by (simp add: guar_return split: api_end.splits option.splits)
  then show "guar D (\<lambda>_. True) (runAPI E D cfg)"
    unfolding runAPI_def Let_def by (intro guar_with_pool guar_bind_True engines)
  show "guar D (\<lambda>_. True) (runProvisionMerchant E cfg args)"
    unfolding runProvisionMerchant_def Let_def split_beta
    by (intro guar_with_pool guar_bind_True guar_Provision guar_sum guar_return)
qed

lemma guar_main:
  assumes "engines_ok D E"
  shows "guar D (\<lambda>_. True) (main E D K fs env args)"
proof -
  have "goose_ok (goose_up E)" using assms by (simp add: engines_ok_def)
  then have "guar D (\<lambda>_. True) (run E D K fs env args mode)" for mode
    unfolding run_def by (intro guar_sum guar_if guar_bind_True guar_Migrate guar_modes[OF assms] guar_return)
  then show ?thesis
    unfolding main_def split_beta by (intro guar_if guar_bind_True guar_return)
qed

section \<open>Sample engines\<close>

lemma migrates_return: "migrates (State_Monad.return x)"
  by (simp add: migrates_def)

lemma migrates_mono:
  assumes "(migrate_step ts)\<^sup>*\<^sup>* d d'" and "set ts \<subseteq> set us"
  shows "(migrate_step us)\<^sup>*\<^sup>* d d'"
proof -
  have "migrate_step us a b" if "migrate_step ts a b" for a b using that assms(2) unfolding migrate_step_def by blast
  with assms(1) show ?thesis by (induction rule: rtranclp_induct) (auto intro: rtranclp.rtrancl_into_rtrancl)
qed

lemma migrates_bind:
  assumes "migrates m" and "\<And>x. migrates (k x)"
  shows "migrates (m \<bind> k)"
  unfolding migrates_def
proof
  fix w
  obtain x w1 where x: "run_state m w = (x, w1)" by fastforce
  let ?w2 = "snd (run_state (k x) w1)"
  have m: "set (schedule w1) \<subseteq> set (schedule w)" "(migrate_step (schedule w))\<^sup>*\<^sup>* (database w) (database w1)"
    using assms(1) x unfolding migrates_def by (metis snd_conv)+
  have k: "set (schedule ?w2) \<subseteq> set (schedule w1)" "(migrate_step (schedule w1))\<^sup>*\<^sup>* (database w1) (database ?w2)"
    using assms(2) by (simp_all add: migrates_def)
  from m(2) migrates_mono[OF k(2) m(1)] have "(migrate_step (schedule w))\<^sup>*\<^sup>* (database w) (database ?w2)" by (rule rtranclp_trans)
  with m k x show "set (schedule (snd (run_state (m \<bind> k) w))) \<subseteq> set (schedule w) \<and>
      (migrate_step (schedule w))\<^sup>*\<^sup>* (database w) (database (snd (run_state (m \<bind> k) w)))" by auto
qed

lemma migrates_exec:
  assumes "\<And>now d x d'. q now d = Inr (x, d') \<Longrightarrow> d' = d \<or> migrate_step [] d d'"
  shows "migrates (pool_exec q)"
  unfolding migrates_def
proof
  fix w
  obtain r w' where r: "run_state (pool_exec q) w = (r, w')" by fastforce
  have "(migrate_step (schedule w))\<^sup>*\<^sup>* (database w) (seen_db w)"
    by (auto simp: seen_db_def next_tick_def quiet_tick_def migrate_step_def split: list.splits)
  moreover have "(migrate_step [])\<^sup>*\<^sup>* (seen_db w) (database w')"
    using r by (cases rule: pool_exec_cases) (auto dest: assms)
  then have "(migrate_step (schedule w))\<^sup>*\<^sup>* (seen_db w) (database w')" by (rule migrates_mono) simp
  ultimately show "set (schedule (snd (run_state (pool_exec q) w))) \<subseteq> set (schedule w) \<and>
      (migrate_step (schedule w))\<^sup>*\<^sup>* (database w) (database (snd (run_state (pool_exec q) w)))"
    using r consumes_exec(2)[of q, unfolded consumes_def, rule_format, of w] by (auto intro: rtranclp_trans)
qed

text \<open>A migration tool that keeps the version with the schema, and libraries that each run one operation.\<close>

definition sample_goose :: "unit io" where
  "sample_goose = for_each (\<lambda>v. pool_exec (\<lambda>_ d. Inr ((), if Suc (schema_version d) = v then migration_up v d else d))) [1, 2, 3]"

lemma sample_goose_ok: "goose_ok sample_goose"
proof -
  let ?file = "\<lambda>v. pool_exec (\<lambda>_ d. Inr ((), if Suc (schema_version d) = v then migration_up v d else d))"
  have sql: "migrates (?file v)" if "v \<le> 3" for v
    using that by (intro migrates_exec) (auto simp: migrate_step_def split: if_splits)
  have loop: "migrates (for_each ?file vs)" if "list_all (\<lambda>v. v \<le> 3) vs" for vs
    using that by (induction vs) (auto intro!: migrates_bind migrates_return sql split: sum.split)
  have "migrates sample_goose" unfolding sample_goose_def by (rule loop) simp
  moreover have "run_state sample_goose w = (Inr (), w\<lparr>database := migrate_all (database w)\<rparr>)" if "quiet w" for w
    using that less_3_cases[of "schema_version (database w)"]
    by (auto simp: sample_goose_def io_simps migrate_all_eq migration_up_def)
  ultimately show ?thesis by (simp add: goose_ok_def)
qed

definition sample_engines :: engines where
  "sample_engines = \<lparr>pool_new = (\<lambda>_. None), sql_open = (\<lambda>_. None), goose_dialect = None, goose_up = sample_goose,
     runner = (\<lambda>_ _ p. do { Save (d_ulid sample_deps) sample_kevents (d_postgres sample_deps) (Handle p sample_invoice) 4; ok () }),
     dispatch = (\<lambda>_. do { ClaimDue NewStore (\<lambda>_. False) 5; ok () }), sweeps = [[5, 6], []],
     serve = (\<lambda>_ _ _ _. State_Monad.return (Signalled None)), rand_int64n = (\<lambda>_. 0)\<rparr>"

lemma sample_engines_ok: "engines_ok sample_deps sample_engines"
proof -
  have one: "driven sample_deps m" if "operation sample_deps (\<lambda>w. snd (run_state m w))" for m :: "(world, 'a) state"
    unfolding driven_def using that by (auto simp: run_operations_def intro!: exI[of _ "[\<lambda>w. snd (run_state m w)]"])
  have none: "driven sample_deps (State_Monad.return x)" for x :: api_end
    unfolding driven_def by (auto simp: run_operations_def intro!: exI[of _ "[]"])
  have then_ok: "driven sample_deps (do { m; ok () })" if "driven sample_deps m" for m :: "(world, 'a) state"
    using that by (simp add: driven_def split_beta)
  show ?thesis
    unfolding engines_ok_def sample_engines_def engines.select_convs
    by (intro conjI allI then_ok none sample_goose_ok; rule one; rule op_save op_claim)
qed

definition sample_env :: environment where
  "sample_env = (\<lambda>x. if x = ''DATABASE_URL'' then ''postgres://test'' else '''')"

lemma sample_env_loads: "\<exists>cfg. config_Load sample_env = Inr cfg"
  by (simp add: config_Load_def sample_env_def envInt_def envOr_def Let_def)

section \<open>Properties of the binary\<close>

text \<open>C2: every mode of the binary keeps the system sound. Whatever the command line and the environment are, whatever
  fails and whatever other processes of the program do meanwhile (among them the sweeper that the
  dispatcher starts beside itself), a run of \<open>main\<close> keeps the declared constraints, the value domains of
  the columns and the history of the tables, if the libraries act through the operations they are
  given.\<close>

theorem main_keeps_invariants:
  assumes "engines_ok D E" and "rely D w" and "db_ok (database w)" and "db_typed (database w)"
    and "run_state (main E D K fs env args) w = (printed, w')"
  shows "db_ok (database w') \<and> db_typed (database w') \<and> evolves (database w) (database w')"
  using commits_sound[OF conjunct1[OF guarD[OF guar_main[OF assms(1)] assms(2) TrueI assms(5)]] assms(3,4)] .

theorem main_keeps_invariants_witness:
  "\<exists>printed w'. run_state (main sample_engines sample_deps sample_kevents \<lparr>ReadFile = (\<lambda>_. Inr ''''), unmarshal_seeds = (\<lambda>_. Inr [])\<rparr>
       sample_env [''app'', ''dispatcher'']) sample_busy = (printed, w') \<and> db_typed (database w')"
proof -
  obtain printed w' where run: "run_state (main sample_engines sample_deps sample_kevents
    \<lparr>ReadFile = (\<lambda>_. Inr ''''), unmarshal_seeds = (\<lambda>_. Inr [])\<rparr> sample_env [''app'', ''dispatcher'']) sample_busy = (printed, w')"
    by fastforce
  from main_keeps_invariants[OF sample_engines_ok sample_busy_rely sample_busy_ok this] run show ?thesis by blast
qed

text \<open>C15: from an empty database to a merchant who can use the API. With a valid configuration and a working server,
  \<open>app migrate\<close> creates the schema, keeps all rows and exits with 0; \<open>app merchant-key\<close> then prints the id and
  the key of one new merchant, of which only the hash is stored; and every merchant route serves a
  request with that key as this merchant.\<close>

theorem fresh_install:
  assumes cfg: "config_Load env = Inr cfg"
    and E: "goose_ok (goose_up E)" "sql_open E (DatabaseURL cfg) = None" "goose_dialect E = None" "pool_new E (DatabaseURL cfg) = None"
    and w: "quiet w" "id_source w (id_pos w) \<notin> m_id ` set (merchants (database w))"
      "HashAPIKey (hex_EncodeToString (map (\<lambda>i. rand_source w (rand_pos w + i)) [0 ..< 32])) \<notin> m_api_key_hash ` set (merchants (database w))"
  shows "\<exists>key w1 w2. run_state (main E D K fs env [prog, ''migrate'']) w = (([''migrations applied''], [], 0), w1) \<and>
    database w1 = (if schema_version (database w) < 3 then (database w)\<lparr>schema_version := 3\<rparr> else database w) \<and>
    run_state (main E D K fs env [prog, ''merchant-key'', name]) w1 =
      (([''merchant_id='' @ id_source w (id_pos w), ''api_key='' @ key], [], 0), w2) \<and>
    merchants (database w2) = merchants (database w) @ [\<lparr>m_id = id_source w (id_pos w), m_name = name,
      m_api_key_hash = HashAPIKey key, m_settlement_asset = ''CKB'', m_created_at = clock w\<rparr>] \<and> length key = 64 \<and>
    (\<forall>meth pat h r. ((meth, pat), h) \<in> set (Router D) \<and> take 13 pat = ''/api/merchant'' \<and>
        req_header r ''Authorization'' = ''Bearer '' @ key \<longrightarrow>
      (\<exists>handler. h = authMerchant handler \<and> run_state (h r) w2 = run_state (handler (id_source w (id_pos w)) r) w2))"
proof -
  let ?w1 = "w\<lparr>database := migrate_all (database w)\<rparr>" and ?mid = "id_source w (id_pos w)"
  have mig: "run_state (main E D K fs env [prog, ''migrate'']) w = (([''migrations applied''], [], 0), ?w1)"
    using run_Migrate[OF E(1) w(1), of "sql_open E"] cfg E by (simp add: main_def run_def)
  have w1: "quiet ?w1" "3 \<le> schema_version (database ?w1)" "merchants (migrate_all (database w)) = merchants (database w)"
    using w(1) by (simp_all add: migrate_all_eq)
  obtain key w2 where prov: "run_state (Provision name ''CKB'') ?w1 = (Inr (?mid, key), w2)" "length key = 64"
    "merchants (database w2) = merchants (database w) @ [\<lparr>m_id = ?mid, m_name = name,
      m_api_key_hash = HashAPIKey key, m_settlement_asset = ''CKB'', m_created_at = clock w\<rparr>]"
    and auth: "\<And>r handler. req_header r ''Authorization'' = ''Bearer '' @ key \<Longrightarrow>
       run_state (authMerchant handler r) w2 = run_state (handler ?mid r) w2"
    using provisioned_key_authenticates[OF w1(1,2), of name "''CKB''"] w(2,3) by (auto simp: w1(3))
  have key: "run_state (main E D K fs env [prog, ''merchant-key'', name]) ?w1 =
      (([''merchant_id='' @ ?mid, ''api_key='' @ key], [], 0), w2)"
    using prov(1) cfg E(4) w(1)
    by (simp add: main_def run_def runProvisionMerchant_def with_pool_def Open_def io_simps)
  have "\<exists>handler. h = authMerchant handler \<and> run_state (h r) w2 = run_state (handler ?mid r) w2"
    if "((meth, pat), h) \<in> set (Router D)" "take 13 pat = ''/api/merchant''" "req_header r ''Authorization'' = ''Bearer '' @ key" for meth pat h r
    using Router_merchant[OF that(1,2)] auth[OF that(3)] by metis
  with mig key prov(2,3) show ?thesis
    by (intro exI[of _ key] exI[of _ ?w1] exI[of _ w2]) (auto simp: migrate_all_eq)
qed

theorem fresh_install_witness:
  "\<exists>key w1 w2. run_state (main sample_engines sample_deps sample_kevents \<lparr>ReadFile = (\<lambda>_. Inr ''''), unmarshal_seeds = (\<lambda>_. Inr [])\<rparr>
       sample_env [''app'', ''migrate'']) (sample_world (empty_db\<lparr>schema_version := 0\<rparr>)) = (([''migrations applied''], [], 0), w1) \<and>
     run_state (main sample_engines sample_deps sample_kevents \<lparr>ReadFile = (\<lambda>_. Inr ''''), unmarshal_seeds = (\<lambda>_. Inr [])\<rparr>
       sample_env [''app'', ''merchant-key'', ''shop'']) w1 = (([''merchant_id=id'', ''api_key='' @ key], [], 0), w2)"
proof -
  let ?w = "sample_world (empty_db\<lparr>schema_version := 0\<rparr>)"
  obtain cfg where cfg: "config_Load sample_env = Inr cfg" using sample_env_loads by blast
  have "goose_ok (goose_up sample_engines)" "sql_open sample_engines (DatabaseURL cfg) = None" "goose_dialect sample_engines = None"
    "pool_new sample_engines (DatabaseURL cfg) = None"
    by (simp_all add: sample_engines_def sample_goose_ok)
  note E = this
  have w: "quiet ?w" "id_source ?w (id_pos ?w) = ''id''" "merchants (database ?w) = []" by (simp_all add: sample_world_def empty_db_def)
  show ?thesis
    using fresh_install[OF cfg E w(1), of sample_deps sample_kevents
      "\<lparr>ReadFile = (\<lambda>_. Inr ''''), unmarshal_seeds = (\<lambda>_. Inr [])\<rparr>" "''app''" "''shop''"] unfolding w(2,3) by auto
qed

end
