(* ===== verification/Dbtest.thy ===== *)
theory Dbtest
  imports App_Spec
begin

text \<open>
  The database of the integration tests, \<^verbatim>\<open>internal/platform/db/dbtest/dbtest.go\<close>: a database per test
  process, created and migrated once, and emptied before every test. The world's database is the one
  the test DSN names. The administration connection, the standard library's URL values (of which only
  the path is replaced), the process id and the \<open>-short\<close> flag are the parameter record \<open>test_env\<close>.
\<close>

record url =
  url_base :: string
  url_Path :: string
  url_query :: string

record test_env =
  url_Parse :: "string \<Rightarrow> error + url"
  url_String :: "url \<Rightarrow> string"
  pgx_Connect :: "string \<Rightarrow> error option"
  admin_Exec :: "string \<Rightarrow> error option"
  Getpid :: int
  Short :: bool

definition allTables :: "string list" where
  "allTables = [''ingest_checkpoint'', ''events'', ''payments'', ''channels'', ''invoices'',
     ''webhook_endpoints'', ''webhook_deliveries'', ''webhook_delivery_log'',
     ''merchants'', ''merchant_orders'', ''refunds'', ''settlements'', ''reconciliation_runs'']"

definition baseDSN :: "environment \<Rightarrow> string" where
  "baseDSN env = (if env ''DATABASE_URL_TEST'' \<noteq> '''' then env ''DATABASE_URL_TEST'' else env ''DATABASE_URL'')"

section \<open>Setup\<close>

text \<open>The variables of the package: whether \<open>setupOnce\<close> has run, and what it left.\<close>

record setup_vars =
  setupOnce :: bool
  testDSN :: string
  setupErr :: "error option"

text \<open>A database that has just been created: no migration has run.\<close>

definition created_db :: db where
  "created_db = empty_db\<lparr>schema_version := 0\<rparr>"

text \<open>The function passed to \<open>setupOnce.Do\<close>.\<close>

definition setup_body :: "test_env \<Rightarrow> engines \<Rightarrow> string \<Rightarrow> (world, string \<times> error option) state" where
  "setup_body T E base =
     (case url_Parse T base of
        Inl e \<Rightarrow> State_Monad.return ('''', Some (Errorf ''dbtest: parse DSN: %w'' [] (Some e)))
      | Inr u \<Rightarrow>
          (let dbName = ''padma_test_'' @ dec_int (Getpid T) in
           case pgx_Connect T (url_String T (u\<lparr>url_Path := ''/postgres''\<rparr>)) of
             Some e \<Rightarrow> State_Monad.return ('''', Some (Errorf ''dbtest: connect admin: %w'' [] (Some e)))
           | None \<Rightarrow> (case admin_Exec T (''DROP DATABASE IF EXISTS '' @ dbName @ '' WITH (FORCE)'') of
               Some e \<Rightarrow> State_Monad.return ('''', Some (Errorf ''dbtest: drop old: %w'' [] (Some e)))
             | None \<Rightarrow> (case admin_Exec T (''CREATE DATABASE '' @ dbName) of
                 Some e \<Rightarrow> State_Monad.return ('''', Some (Errorf ''dbtest: create: %w'' [] (Some e)))
               | None \<Rightarrow> do {
                   State (\<lambda>w. ((), w\<lparr>database := created_db\<rparr>));
                   let dsn = url_String T (u\<lparr>url_Path := ''/'' @ dbName\<rparr>);
                   r \<leftarrow> Migrate (sql_open E) (goose_dialect E) (goose_up E) dsn;
                   State_Monad.return (dsn, case r of
                     Inl e \<Rightarrow> Some (Errorf ''dbtest: migrate: %w'' [] (Some e)) | Inr _ \<Rightarrow> None) }))))"

definition test_setup :: "test_env \<Rightarrow> engines \<Rightarrow> string \<Rightarrow> setup_vars \<Rightarrow> (world, (string \<times> error option) \<times> setup_vars) state" where
  "test_setup T E base v =
     (if setupOnce v then State_Monad.return ((testDSN v, setupErr v), v)
      else do {
        (dsn, err) \<leftarrow> setup_body T E base;
        State_Monad.return ((dsn, err), \<lparr>setupOnce = True, testDSN = dsn, setupErr = err\<rparr>) })"

section \<open>Truncate\<close>

text \<open>The migration that creates a table, and the tables with a foreign key to it.\<close>

definition table_version :: "string \<Rightarrow> nat" where
  "table_version tbl = (if tbl \<in> set (migration_tables 1) then 1 else if tbl \<in> set (migration_tables 2) then 2 else 3)"

definition referencing :: "string \<Rightarrow> string list" where
  "referencing tbl = map fst (filter (\<lambda>(_, target). target = tbl) foreign_keys)"

text \<open>\<open>TRUNCATE \<dots> CASCADE\<close>: no chain of foreign keys in the schema is longer than two.\<close>

definition cascade :: "string \<Rightarrow> string list" where
  "cascade tbl = tbl # referencing tbl @ concat (map referencing (referencing tbl))"

text \<open>The statement of \<open>Truncate\<close>, which does nothing when the table has not been created.\<close>

definition truncated :: "string \<Rightarrow> db \<Rightarrow> db" where
  "truncated tbl d = (if table_version tbl \<le> schema_version d then fold clear_table (cascade tbl) d else d)"

definition truncate_stmt :: "string \<Rightarrow> unit stmt" where
  "truncate_stmt tbl = (\<lambda>_ d. Inr ((), truncated tbl d))"

definition Truncate :: "unit io" where
  "Truncate = for_each (\<lambda>tbl. do {
     r \<leftarrow> pool_exec (truncate_stmt tbl);
     case r of Inl e \<Rightarrow> throw (Errorf ''dbtest: truncate %s: %v'' [tbl] (Some e)) | Inr _ \<Rightarrow> ok () }) allTables"

section \<open>Pool\<close>

text \<open>How the helper ends: the test is skipped, it fails at once, or it gets its pool.\<close>

datatype test_outcome = Skipped string | Fatal error | Ready

definition Pool_for :: "test_env \<Rightarrow> engines \<Rightarrow> environment \<Rightarrow> setup_vars \<Rightarrow> (world, test_outcome \<times> setup_vars) state" where
  "Pool_for T E env v =
     (if Short T then State_Monad.return (Skipped ''skipping DB integration test in -short mode'', v)
      else if baseDSN env = '''' then State_Monad.return (Skipped ''set DATABASE_URL_TEST to run DB integration tests'', v)
      else do {
        ((dsn, err), v') \<leftarrow> test_setup T E (baseDSN env) v;
        case err of
          Some e \<Rightarrow> State_Monad.return (Fatal (Errorf ''dbtest: setup: %v'' [] (Some e)), v')
        | None \<Rightarrow> do {
            r \<leftarrow> Open (pool_new E) dsn;
            case r of
              Inl e \<Rightarrow> State_Monad.return (Fatal (Errorf ''dbtest: open: %v'' [] (Some e)), v')
            | Inr _ \<Rightarrow> do {
                s \<leftarrow> Truncate;
                State_Monad.return (case s of Inl e \<Rightarrow> Fatal e | Inr _ \<Rightarrow> Ready, v') } } })"

section \<open>Every test starts empty\<close>

lemma schema_version_clear [simp]: "schema_version (clear_table tbl d) = schema_version d"
  by (simp add: clear_table_def)

lemma schema_version_fold_clear [simp]: "schema_version (fold clear_table ts d) = schema_version d"
  by (induction ts arbitrary: d) simp_all

lemma schema_version_truncated [simp]: "schema_version (truncated tbl d) = schema_version d"
  by (simp add: truncated_def)

lemma truncated_all:
  assumes "tables_migrated d"
  shows "fold truncated allTables d = empty_db\<lparr>schema_version := schema_version d\<rparr>"
proof -
  consider "schema_version d = 0" | "schema_version d = 1" | "schema_version d = 2" | "3 \<le> schema_version d" by linarith
  then show ?thesis
  proof cases
    case 1
    with assms show ?thesis
      by (simp add: allTables_def truncated_def table_version_def table_defs tables_migrated_def empty_db_def)
  next
    case 2
    with assms show ?thesis
      by (simp add: allTables_def truncated_def table_version_def table_defs cascade_def referencing_def clear_table_def
        tables_migrated_def empty_db_def)
  next
    case 3
    with assms show ?thesis
      by (simp add: allTables_def truncated_def table_version_def table_defs cascade_def referencing_def clear_table_def
        tables_migrated_def empty_db_def)
  next
    case 4
    with assms show ?thesis
      by (simp add: allTables_def truncated_def table_version_def table_defs cascade_def referencing_def clear_table_def
        tables_migrated_def empty_db_def)
  qed
qed

lemma run_Truncate:
  assumes "quiet w"
  shows "run_state Truncate w = (Inr (), w\<lparr>database := fold truncated allTables (database w)\<rparr>)"
proof -
  have "run_state (for_each (\<lambda>tbl. do {
      r \<leftarrow> pool_exec (truncate_stmt tbl);
      case r of Inl e \<Rightarrow> throw (Errorf ''dbtest: truncate %s: %v'' [tbl] (Some e)) | Inr _ \<Rightarrow> ok () }) allTables)
      (w\<lparr>database := database w\<rparr>) = (Inr (), w\<lparr>database := fold truncated allTables (database w)\<rparr>)"
    by (rule run_for_each[where I = "\<lambda>_. True"]) (simp_all add: assms io_simps truncate_stmt_def)
  then show ?thesis by (simp add: Truncate_def)
qed

text \<open>When setting up succeeds: at the first call every step of it does, and goose applies the migrations
  to the new database; at a later call the first one did.\<close>

definition setup_done :: "test_env \<Rightarrow> engines \<Rightarrow> string \<Rightarrow> setup_vars \<Rightarrow> world \<Rightarrow> bool" where
  "setup_done T E base v w \<longleftrightarrow>
     (if setupOnce v then setupErr v = None \<and> schema_version (database w) = 3 \<and> pool_new E (testDSN v) = None
      else (\<exists>u. url_Parse T base = Inr u \<and> pgx_Connect T (url_String T (u\<lparr>url_Path := ''/postgres''\<rparr>)) = None \<and>
        (\<forall>s. admin_Exec T s = None) \<and> (\<forall>s. sql_open E s = None) \<and> (\<forall>s. pool_new E s = None) \<and> goose_dialect E = None \<and>
        goose_ok (goose_up E)))"

lemma run_test_setup:
  assumes "setup_done T E base v w" and "quiet w"
  obtains v' d where "run_state (test_setup T E base v) w = (((testDSN v', None), v'), w\<lparr>database := d\<rparr>)"
    and "setupOnce v'" and "setupErr v' = None" and "schema_version d = 3" and "pool_new E (testDSN v') = None"
    and "setupOnce v \<longrightarrow> v' = v"
proof (cases "setupOnce v")
  case True
  with assms show ?thesis
    by (intro that[of v "database w"]) (simp_all add: setup_done_def test_setup_def)
next
  case False
  with assms obtain u where "url_Parse T base = Inr u" "pgx_Connect T (url_String T (u\<lparr>url_Path := ''/postgres''\<rparr>)) = None"
    "\<And>s. admin_Exec T s = None" "\<And>s. sql_open E s = None" "\<And>s. pool_new E s = None" "goose_dialect E = None"
    and up: "goose_ok (goose_up E)"
    by (auto simp: setup_done_def)
  moreover have "run_state (Migrate (sql_open E) None (goose_up E) dsn) (w\<lparr>database := created_db\<rparr>) = (Inr (), w\<lparr>database := empty_db\<rparr>)" for dsn
    using run_Migrate[OF up, of "w\<lparr>database := created_db\<rparr>"] assms(2) calculation
    by (simp add: migrate_all_eq created_db_def empty_db_def)
  ultimately show ?thesis using False
    by (intro that[of "\<lparr>setupOnce = True, testDSN = url_String T (u\<lparr>url_Path := ''/padma_test_'' @ dec_int (Getpid T)\<rparr>),
          setupErr = None\<rparr>" empty_db])
      (simp_all add: test_setup_def setup_body_def Let_def, simp add: empty_db_def)
qed

text \<open>C39: every integration test starts on an empty, migrated database. Outside \<open>-short\<close> mode, with a DSN and when the steps
  of the setup succeed, \<open>Pool\<close> gives the test its pool and leaves all thirteen tables empty at the latest
  schema, whatever an earlier test left in them; the setup itself runs once per process.\<close>

theorem test_starts_empty:
  assumes "quiet w" and "\<not> Short T" and "baseDSN env \<noteq> ''''" and "setup_done T E (baseDSN env) v w"
  shows "\<exists>v'. run_state (Pool_for T E env v) w = ((Ready, v'), w\<lparr>database := empty_db\<rparr>) \<and>
    setupOnce v' \<and> setupErr v' = None \<and> (setupOnce v \<longrightarrow> v' = v)"
proof -
  obtain v' d where set_up: "run_state (test_setup T E (baseDSN env) v) w = (((testDSN v', None), v'), w\<lparr>database := d\<rparr>)"
    "setupOnce v'" "setupErr v' = None" "schema_version d = 3" "pool_new E (testDSN v') = None" "setupOnce v \<longrightarrow> v' = v"
    by (rule run_test_setup[OF assms(4,1)])
  have "fold truncated allTables d = empty_db\<lparr>schema_version := 3\<rparr>"
    using truncated_all[of d] set_up(4) by (simp add: tables_migrated_def)
  moreover have "empty_db\<lparr>schema_version := 3\<rparr> = empty_db" by (simp add: empty_db_def)
  ultimately have "run_state (Pool_for T E env v) w = ((Ready, v'), w\<lparr>database := empty_db\<rparr>)"
    using assms(1-3) set_up by (simp add: Pool_for_def Open_def io_simps run_Truncate)
  with set_up show ?thesis by blast
qed

theorem test_starts_empty_witness:
  "\<exists>T v1 v2 w1. run_state (Pool_for T sample_engines sample_env \<lparr>setupOnce = False, testDSN = '''', setupErr = None\<rparr>)
       (sample_world sample_shop) = ((Ready, v1), w1) \<and>
     run_state (Pool_for T sample_engines sample_env v1) (w1\<lparr>database := sample_shop\<rparr>) = ((Ready, v2), w1) \<and> v2 = v1"
proof -
  let ?T = "\<lparr>url_Parse = (\<lambda>s. Inr \<lparr>url_base = s, url_Path = '''', url_query = ''''\<rparr>), url_String = (\<lambda>u. url_base u @ url_Path u),
    pgx_Connect = (\<lambda>_. None), admin_Exec = (\<lambda>_. None), Getpid = 7, Short = False\<rparr> :: test_env"
  let ?v = "\<lparr>setupOnce = False, testDSN = '''', setupErr = None\<rparr>" and ?w = "sample_world sample_shop"
  let ?w1 = "?w\<lparr>database := empty_db\<rparr>" and ?w2 = "?w\<lparr>database := sample_shop\<rparr>"
  have env: "baseDSN sample_env \<noteq> ''''" by (simp add: baseDSN_def sample_env_def)
  have "quiet ?w" "setup_done ?T sample_engines (baseDSN sample_env) ?v ?w"
    by (simp_all add: sample_world_def setup_done_def sample_engines_def sample_goose_ok)
  from test_starts_empty[OF this(1) _ env this(2)] obtain v1 where
    one: "run_state (Pool_for ?T sample_engines sample_env ?v) ?w = ((Ready, v1), ?w1)" "setupOnce v1" "setupErr v1 = None"
    by auto
  have "quiet ?w2" "setup_done ?T sample_engines (baseDSN sample_env) v1 ?w2"
    using one(2,3) by (simp_all add: sample_world_def setup_done_def sample_engines_def shop_defs)
  from test_starts_empty[OF this(1) _ env this(2)] one(2) have
    "run_state (Pool_for ?T sample_engines sample_env v1) ?w2 = ((Ready, v1), ?w1)" by auto
  with one(1) show ?thesis by (intro exI[of _ ?T] exI[of _ v1] exI[of _ ?w1]) simp
qed

end
