(* ===== verification/Spec2Isabelle.thy ===== *)
theory Spec2Isabelle
  imports System_Spec Delivery_Spec Platform_Spec Query_Spec App_Spec Dbtest
begin

text \<open>
  A verification library for padma, the service layer around a Fiber node: one Go binary that indexes
  the node's events into Postgres, serves them over HTTP, delivers webhooks and runs a merchant
  backend.

  \<^bold>\<open>The program and how its parts interact.\<close> \<^verbatim>\<open>cmd/app/main.go\<close> loads a configuration and starts one
  mode. The indexer (\<^verbatim>\<open>internal/indexer\<close>) receives raw changes, projects each into the event store and
  the payments, channels and invoices read models, fans it out into the webhook outbox and marks
  merchant orders paid, all in one transaction. The dispatcher (\<^verbatim>\<open>internal/webhook\<close>) claims outbox rows
  under a lease. The API (\<^verbatim>\<open>internal/apiserver\<close>) serves the read models (\<^verbatim>\<open>internal/query\<close>), webhook
  subscriptions and the merchant backend (\<^verbatim>\<open>internal/merchant\<close>), which calls the node for invoices and
  refunds. All parts share the tables of \<^verbatim>\<open>migrations/*.sql\<close> and the platform packages.

  \<^bold>\<open>The world.\<close> \<open>Schema\<close> has one record per table row and the record \<open>db\<close> of all tables, with the declared
  constraints as \<open>db_ok\<close>. \<open>Pool\<close> has the state the program runs in (\<open>world\<close>: database, clock, ids, random
  bytes, calls to the node) and the state monad of its operations. Each statement sent to the server
  consumes one tick of a schedule: what other sessions commit before it, and whether the client gets
  the reply, an error before the effect, or an error after it. Theorems about safety quantify over
  all schedules; theorems about complete functional behaviour assume the empty schedule
  (\<open>quiet\<close>). A transaction is modelled at one point of the commit order. A Go pair \<open>(v, err)\<close> is
  \<open>error + 'v\<close>, with the format and operands of each \<open>fmt.Errorf\<close> kept, so that every error branch is
  visible. Machine integers keep their width where the code depends on it (the 32-bit exponent of a
  NUMERIC, 64-bit durations in the backoff, the 32-bit attempt counter); instants are integers in
  nanoseconds.

  \<^bold>\<open>Theories and the code they model.\<close>
  \<^item> \<open>Prelude\<close>: Go errors, tables as lists of rows with SQL's insert, update and upsert, sums with the
    NULL rule, stable sorting; the locales \<open>total_preorder\<close> (ORDER BY) and \<open>upsert_keys\<close>,
    \<open>replayable_upsert\<close>, \<open>last_writer_upsert\<close> (projections).
  \<^item> \<open>Numeric\<close>: \<^verbatim>\<open>platform/db/numeric.go\<close>. \<open>Pool\<close>: \<^verbatim>\<open>platform/db/pool.go\<close> and \<^verbatim>\<open>tx.go\<close>. \<open>Sha256\<close>, \<open>Ids\<close>:
    \<^verbatim>\<open>platform/id\<close> and \<^verbatim>\<open>platform/auth\<close> over an executable SHA-256. \<open>Gostd\<close>: what the code uses of
    \<^verbatim>\<open>strconv\<close>, \<^verbatim>\<open>fmt\<close>, \<^verbatim>\<open>time\<close>, \<^verbatim>\<open>base64\<close> and \<^verbatim>\<open>strings\<close>. \<open>Csv\<close>: \<^verbatim>\<open>encoding/csv\<close>. \<open>Httpx\<close>:
    \<^verbatim>\<open>platform/httpx\<close>. \<open>Config\<close>: \<^verbatim>\<open>platform/config\<close>.
  \<^item> \<open>Indexer\<close>: \<^verbatim>\<open>projector.go\<close>, \<^verbatim>\<open>deliveries.go\<close>, \<^verbatim>\<open>merchant_match.go\<close>; \<open>Projection\<close> and \<open>Replay\<close>: the
    abstract effect of a batch and its idempotence, by interpretation of the projection locales.
    \<open>Source\<close>: \<^verbatim>\<open>indexer/run.go\<close> and \<^verbatim>\<open>platform/fiber\<close>.
  \<^item> \<open>Webhook\<close>: \<^verbatim>\<open>backoff.go\<close>, \<^verbatim>\<open>store.go\<close>, \<^verbatim>\<open>run.go\<close>; \<open>Endpoints\<close>: \<^verbatim>\<open>endpoints.go\<close>; \<open>Outbox\<close>: interleaved runs
    of the outbox operations as an inductive relation and the locale \<open>leased_queue\<close>.
  \<^item> \<open>Query\<close>: \<^verbatim>\<open>cursor.go\<close>, \<^verbatim>\<open>repo.go\<close>, \<^verbatim>\<open>queries.go\<close>, \<^verbatim>\<open>handlers.go\<close>; \<open>Listing\<close>: the condition builder and the
    locales \<open>keyset_listing\<close> and \<open>paged_endpoint\<close>, interpreted on the three listings. A condition is kept as a term (\<open>cond\<close>)
    and \<open>cond_text\<close> is the text the code formats; the LIMIT at the end of a query is not part of it.
  \<^item> \<open>Merchant\<close>: \<^verbatim>\<open>merchant.go\<close>, \<^verbatim>\<open>orders.go\<close>, \<^verbatim>\<open>refunds.go\<close>, \<^verbatim>\<open>settlement.go\<close>, \<^verbatim>\<open>provision.go\<close>; \<open>Accounting\<close>:
    \<^verbatim>\<open>export.go\<close>; \<open>Merchant_Http\<close>: \<^verbatim>\<open>handlers.go\<close>.
  \<^item> \<open>Migrations\<close>: the tables and foreign keys of \<^verbatim>\<open>migrations/*.sql\<close>, running their two parts in file order, and
    \<^verbatim>\<open>platform/db/migrate.go\<close>; the promise of goose is \<open>goose_ok\<close>. Running a migration sets \<open>schema_version\<close>, and a
    statement on a table of a later version fails.
  \<^item> \<open>Server\<close>: \<^verbatim>\<open>apiserver/server.go\<close> and the three \<open>Routes\<close>. \<open>App\<close>: \<^verbatim>\<open>cmd/app/main.go\<close> and \<open>Run\<close> of
    \<^verbatim>\<open>webhook/run.go\<close>, whose sweeper commits between the statements of the dispatcher. \<open>Dbtest\<close>: \<^verbatim>\<open>platform/db/dbtest\<close>, the database of the integration tests.
    \<open>Samples\<close>: concrete instances of the parameters for the witnesses.
  \<^item> \<open>System\<close>: the whole program as a transition system on the database. \<open>commit\<close> is the inductive relation of
    all writes the code can commit, \<open>operation\<close> the inductive set of all its entry points (every route of the
    router, the indexer's \<open>Save\<close>, the outbox operations, migrations, provisioning); each operation is shown to change
    the database by such commits only, whatever the other sessions commit between its statements
    (a rely/guarantee argument over the collection \<open>guar_intros\<close>).

  \<^bold>\<open>What is shown.\<close> \<open>Indexer_Spec\<close>: saving is atomic under every schedule, refines an abstract effect, is
  idempotent under replay, recovers from a failure when the change is delivered again (and not by a bare second
  call, which finds the buffer empty), matches exactly the settled
  orders and fans out exactly one delivery per subscriber. \<open>Webhook_Spec\<close>: leases exclude other
  workers, due deliveries are served oldest first, settled ones are
  not sent again, attempts are counted, backoff is bounded; subscription handlers. Its runs (\<open>outbox_run\<close>) are sequences of
  operations on the delivery table alone; what a save inserts there is the operation \<open>Op_enqueue\<close>. \<open>Delivery_Spec\<close>: every
  delivery gets its turn. The locale \<open>fair_service\<close> bounds the wait by the number of those ahead and is interpreted on
  the polls of the workers, between which all other processes commit; a stranded delivery is handed out again
  after as many polls as the backlog needs. \<open>Query_Spec\<close>: following cursors
  terminates with the complete listing and is stable under concurrent writes; the SQL conditions
  equal their reference predicates and never contain request values; cursors round trip; statistics
  add up. \<open>Merchant_Spec\<close>, \<open>Reports_Spec\<close>, \<open>Tenant_Spec\<close>: the two cases of order creation, refunds only for paid orders
  of the caller, exact settlements, reconciliations and exports, isolation of merchants (what a merchant reads is a
  function of the own orders, their refunds and the payments of their invoices), authentication. \<open>Platform_Spec\<close>: exact money conversion, separated ids. \<open>App_Spec\<close>: configuration;
  every mode of \<open>main\<close> keeps the invariants below, if the libraries act through the operations they are
  handed (\<open>engines_ok\<close>); and from an empty database two commands lead to a merchant who can use the API.
  \<open>System_Spec\<close>: invariants of the whole program under every interleaving and failure, by induction over
  the commits: the declared constraints, the value domains of the columns (\<open>db_typed\<close>) and the history
  that no operation rewrites (\<open>history_step\<close> for one commit, \<open>evolves\<close> for a run, by interpretations of the locales
  \<open>row_change\<close> and \<open>row_history\<close>; an order changes by \<open>order_step\<close> only). \<open>Dbtest\<close>: a test that
  gets its pool starts on an empty, migrated database. This theory: the merchant API as a whole is
  behind the authentication, an external id gets one order and one invoice whatever happens to the order later, an order
  whose invoice the indexer saw settled can be refunded to its payer, and a new event reaches its subscribers.

  \<^bold>\<open>Parameters.\<close> Code outside the repository appears as arguments: kanaka's amounts (\<open>fibertypes\<close>), event
  codecs (\<open>kevents\<close>), node (\<open>fiber_rpc\<close>) and engines; Postgres and pgx (\<open>postgres\<close>: NUMERIC decoding,
  timestamp resolution, JSONB, collation, month formatting); ULID text; the spreadsheet library;
  goose; chi's matching. Documented behaviour is assumed in named predicates (\<open>fibertypes_ok\<close>, \<open>goose_ok\<close>, \<open>engines_ok\<close>,
  \<open>postgres_ok\<close>, \<open>event_codec_ok\<close>), each of which an instance in \<open>Samples\<close> or a witness satisfies.
  Amounts are assumed below 2 to the 128 where they are parsed back, the range of the library's type.

  \<^bold>\<open>Bounds.\<close> All loops are structural recursion. The one fuel is the number of pages a client fetches in
  \<open>all_pages\<close>; one more than the number of rows is proved to be enough.

  \<^bold>\<open>Not modelled.\<close> The library's dispatcher, runner and HTTP sender, and goose, which are outside the
  repository and enter as parameters; the constructors that only store a connection pool in a struct;
  the lines the sweeper prints; the text syntax of JSON; process signals and timers beyond the order of their effects; logging.
\<close>

section \<open>The merchant API\<close>

text \<open>C12: the whole merchant API is behind the authentication. For every route of the router below
  \<open>/api/merchant\<close> and under every schedule, a request that does not present the key of a merchant
  in the database is answered with 401, or 500 if the database fails; no order, refund, report or
  other row is written by it and the node is not called.\<close>

theorem merchant_routes_guarded:
  assumes "((meth, pat), h) \<in> set (Router D)" and "take 13 pat = ''/api/merchant''"
    and "list_all (\<lambda>m. \<not> presents_key_of r m) (merchants (seen_db w))"
  shows "status (fst (run_state (h r) w)) \<in> {401, 500} \<and> rpc_log (snd (run_state (h r) w)) = rpc_log w \<and>
    database (snd (run_state (h r) w)) \<in> {database w, seen_db w}"
proof -
  obtain handler where "h = authMerchant handler" using Router_merchant[OF assms(1,2)] .
  then show ?thesis
    using authMerchant_cases[of w r] assms(3) by (auto simp: list_all_iff)
qed

theorem merchant_routes_guarded_witness:
  "\<exists>h. ((''POST'', ''/api/merchant/orders/{id}/refund''), h) \<in> set (Router sample_deps) \<and>
     rpc_log (snd (run_state (h \<lparr>req_query = (\<lambda>_. ''''), req_param = (\<lambda>_. ''o2''), req_header = (\<lambda>_. ''''), req_body = Inr JNull\<rparr>)
       (sample_world sample_shop))) = []"
proof -
  let ?r = "\<lparr>req_query = (\<lambda>_. ''''), req_param = (\<lambda>_. ''o2''), req_header = (\<lambda>_. ''''), req_body = Inr JNull\<rparr> :: request"
  let ?w = "sample_world sample_shop"
  have "\<exists>h. ((''POST'', ''/api/merchant/orders/{id}/refund''), h) \<in> set (Router sample_deps)"
    by (simp add: route_defs Let_def)
  then obtain h where h: "((''POST'', ''/api/merchant/orders/{id}/refund''), h) \<in> set (Router sample_deps)" by blast
  have "list_all (\<lambda>m. \<not> presents_key_of ?r m) (merchants (seen_db ?w))"
    by (simp add: list_all_iff presents_key_of_def)
  with merchant_routes_guarded[OF h] have "rpc_log (snd (run_state (h ?r) ?w)) = rpc_log ?w" by simp
  moreover have "rpc_log ?w = []" by (simp add: sample_world_def)
  ultimately show ?thesis using h by auto
qed

section \<open>One order per external id\<close>

lemma ext_key_inj:
  assumes "orders_unique xs" and "x \<in> set xs" and "y \<in> set xs" and "order_ext_key x = Some k" and "order_ext_key y = Some k"
  shows "x = y"
  using assms(1-3)
proof (induction xs)
  case (Cons z xs)
  have "order_ext_key z = Some k \<Longrightarrow> Some k \<notin> order_ext_key ` set xs" and "orders_unique xs"
    using Cons.prems(1) by (auto simp: orders_unique_def map_filter_simps set_map_filter_iff split: option.splits)
  with Cons assms(4,5) show ?case by (metis image_eqI set_ConsD)
qed simp

text \<open>The row of an external id, once stored, is found in every later database, further along its life cycle.\<close>

lemma order_is_found_later:
  assumes "commits D d d'" and "db_ok d" and "db_typed d" and "row \<in> set (merchant_orders d)" and "ext_of m e row"
  shows "\<exists>row'. find (ext_of m e) (merchant_orders d') = Some row' \<and> order_steps row row'"
proof -
  from commits_sound[OF assms(1-3)] have ok: "db_ok d'" and "extends order_steps (merchant_orders d) (merchant_orders d')"
    by (simp_all add: evolves_def evolves_by_def)
  with assms(4) obtain row' where row': "row' \<in> set (merchant_orders d')" "order_steps row row'"
    by (auto simp: extends_def list_all2_conv_all_nth in_set_conv_nth) (metis nth_mem order_less_le_trans)
  then have key: "order_ext_key row' = Some (m, e)"
    using assms(5) order_steps_keep[OF row'(2)] by (auto simp: ext_of_key order_ext_key_def order_core_def)
  obtain x where x: "find (ext_of m e) (merchant_orders d') = Some x"
    using row'(1) key by (metis find_None_iff ext_of_key not_None_eq)
  then have "x \<in> set (merchant_orders d')" "order_ext_key x = Some (m, e)"
    by (auto simp: find_Some_iff ext_of_key)
  with row'(1) key ok have "x = row'"
    by (auto simp: db_ok_def db_keys_ok_def orders_unique_def intro: ext_key_inj)
  with x row'(2) show ?thesis by blast
qed

lemma stored_order_is_returned:
  assumes c: "commits D d (seen_db v)" and ok: "db_ok d" "db_typed d" "3 \<le> schema_version d"
    and row: "row \<in> set (merchant_orders d)" "ext_of m e row" and "e \<noteq> ''''"
    and run: "run_state (CreateOrder F P N m e amountHex asset) v = (r, v')"
  shows "rpc_log v' = rpc_log v \<and> database v' \<in> {database v, seen_db v} \<and>
    (\<forall>ord iv'. r = Inr (ord, iv') \<longrightarrow> iv' = \<lparr>in_PaymentHash = coalesce (o_invoice_payment_hash row) '''', in_Address = ''''\<rparr> \<and>
       (\<exists>row' \<in> set (merchant_orders (seen_db v)). order_steps row row' \<and> ord = scan_order F P row')) \<and>
    (quiet v \<and> snd (ParseAmount F amountHex) = None \<longrightarrow> (\<exists>x. r = Inr x)) \<and>
    (snd (ParseAmount F amountHex) \<noteq> None \<longrightarrow> (\<exists>err. r = Inl err) \<and> v' = v)"
proof -
  from order_is_found_later[OF c ok(1,2) row] obtain row' where
    row': "find (ext_of m e) (merchant_orders (seen_db v)) = Some row'" "order_steps row row'" by auto
  have "3 \<le> schema_version (seen_db v)" using commits_sound[OF c ok(1,2)] ok(3) by (simp add: evolves_def evolves_by_def)
  moreover have "o_invoice_payment_hash row' = o_invoice_payment_hash row"
    using order_steps_keep[OF row'(2)] by (simp add: order_core_def)
  moreover have "row' \<in> set (merchant_orders (seen_db v))" using row'(1) by (auto simp: find_Some_iff)
  ultimately show ?thesis
    using CreateOrder_known[OF row'(1) _ assms(7) run] row'(2) by auto
qed

text \<open>C10: an order is created once. For a new external id the call on an undisturbed server sends one \<open>NewInvoice\<close> for the
  parsed amount, appends one pending order with the invoice's hash and returns both. From then on, after whatever
  operations the program runs and whatever other processes commit, in particular after the order is paid or
  refunded, a call with the same external id never calls the node and never writes, under any schedule; what it
  returns is the stored order, which has made steps of its life cycle only (same id, invoice, amount and asset, current
  status and payment time) and the hash of the first invoice; and on an undisturbed server it does return it for
  every amount that parses and every asset. An amount that does not parse is refused before the lookup.\<close>

theorem order_is_created_once:
  assumes w: "quiet w" "3 \<le> schema_version (database w)" "db_ok (database w)" "db_typed (database w)"
    and ext: "extID \<noteq> ''''" and amount: "ParseAmount F amountHex = (amount, None)"
    and merchant: "merchantID \<in> m_id ` set (merchants (database w))"
    and new: "find (ext_of merchantID extID) (merchant_orders (database w)) = None"
    and fresh: "id_source w (id_pos w) \<notin> o_id ` set (merchant_orders (database w))"
    and node: "node_NewInvoice N (rpc_log w) \<lparr>nip_Amount = amount, nip_Description = ''order '' @ extID\<rparr> = Inr iv"
    and row: "row = order_ins (id_source w (id_pos w)) merchantID extID (in_PaymentHash iv) amount
      (if asset = '''' then ''CKB'' else asset) (clock w)"
  shows "\<exists>w1. run_state (CreateOrder F P N merchantID extID amountHex asset) w = (Inr (scan_order F P row, iv), w1) \<and>
    merchant_orders (database w1) = merchant_orders (database w) @ [row] \<and>
    rpc_log w1 = rpc_log w @ [CallNewInvoice \<lparr>nip_Amount = amount, nip_Description = ''order '' @ extID\<rparr>] \<and>
    (\<forall>D fs u v amountHex' asset' r v'. list_all (operation D) fs \<and> rely D u \<and> database u = database w1 \<and> v = run_operations fs u \<and>
       run_state (CreateOrder F P N merchantID extID amountHex' asset') v = (r, v') \<longrightarrow>
       rpc_log v' = rpc_log v \<and> database v' \<in> {database v, seen_db v} \<and>
       (\<forall>ord iv'. r = Inr (ord, iv') \<longrightarrow> iv' = \<lparr>in_PaymentHash = in_PaymentHash iv, in_Address = ''''\<rparr> \<and>
          (\<exists>row' \<in> set (merchant_orders (seen_db v)). order_steps row row' \<and> ord = scan_order F P row')) \<and>
       (quiet v \<and> snd (ParseAmount F amountHex') = None \<longrightarrow> (\<exists>x. r = Inr x)) \<and>
       (snd (ParseAmount F amountHex') \<noteq> None \<longrightarrow> (\<exists>err. r = Inl err) \<and> v' = v))"
proof -
  let ?d1 = "database w\<lparr>merchant_orders := merchant_orders (database w) @ [row]\<rparr>"
  obtain w1 where run: "run_state (CreateOrder F P N merchantID extID amountHex asset) w = (Inr (scan_order F P row, iv), w1)"
    and w1: "database w1 = ?d1" "rpc_log w1 = rpc_log w @ [CallNewInvoice \<lparr>nip_Amount = amount, nip_Description = ''order '' @ extID\<rparr>]"
    using CreateOrder_new[OF w(1,2) ext amount merchant new fresh node row, of P] by simp
  have key: "ext_of merchantID extID row" "coalesce (o_invoice_payment_hash row) '''' = in_PaymentHash iv"
    "o_id row = id_source w (id_pos w)" "o_merchant_id row = merchantID"
    using ext by (simp_all add: row order_ins_def ext_of_def)
  have "Some (merchantID, extID) \<notin> order_ext_key ` set (merchant_orders (database w))" using new by (simp add: order_ext_key_iff)
  then have "insert_order_stmt (order_ins (id_source w (id_pos w)) merchantID extID (in_PaymentHash iv) amount
      (if asset = '''' then ''CKB'' else asset)) (clock w) (database w) = Inr ((), ?d1)"
    using w(2) merchant fresh key by (simp add: insert_order_stmt_def on_schema_def row[symmetric] ext_of_key del: if_split)
  then have "commit D (database w) ?d1" for D by (rule c_order)
  then have ok: "db_ok ?d1" "db_typed ?d1" using commits_sound[of _ "database w" ?d1] w(3,4) by blast+
  have later: "commits D ?d1 (seen_db (run_operations fs u))"
    if "list_all (operation D) fs" "rely D u" "database u = database w1" for D fs u
    using run_operations_commits[OF that(1,2)] rely_seen[of D "run_operations fs u"] that(3) w1(1) by (metis rtranclp_trans)
  have stored: "3 \<le> schema_version ?d1" "row \<in> set (merchant_orders ?d1)" using w(2) by simp_all
  have orders: "merchant_orders (database w1) = merchant_orders (database w) @ [row]" by (simp add: w1(1))
  show ?thesis
    by (rule exI[of _ w1], rule conjI[OF run], rule conjI[OF orders], rule conjI[OF w1(2)])
      (intro allI impI, elim conjE, hypsubst, rule stored_order_is_returned[OF later ok stored key(1) ext, unfolded key(2)], assumption+)
qed

theorem order_is_created_once_witness:
  "\<exists>w1 ord r v'. run_state (CreateOrder sample_fibertypes sample_postgres sample_node ''m1'' ''x7'' ''0xff'' '''') (sample_world sample_typed) =
       (Inr (ord, \<lparr>in_PaymentHash = ''h9'', in_Address = ''lnfib1''\<rparr>), w1) \<and>
     run_state (CreateOrder sample_fibertypes sample_postgres sample_node ''m1'' ''x7'' ''0xff'' ''USD'')
       (run_operations sample_operations (w1\<lparr>schedule := schedule sample_busy\<rparr>)) = (r, v') \<and>
     rpc_log v' = rpc_log (run_operations sample_operations (w1\<lparr>schedule := schedule sample_busy\<rparr>))"
proof -
  let ?w = "sample_world sample_typed" and ?iv = "\<lparr>in_PaymentHash = ''h9'', in_Address = ''lnfib1''\<rparr> :: invoice"
  let ?mint = "\<lambda>asset. CreateOrder sample_fibertypes sample_postgres sample_node ''m1'' ''x7'' ''0xff'' asset"
  have typed: "db_ok sample_typed" "db_typed sample_typed" using sample_busy_ok by (simp_all add: sample_busy_def sample_world_def)
  have hyps: "quiet ?w" "3 \<le> schema_version (database ?w)" "''x7'' \<noteq> ''''" "''m1'' \<in> m_id ` set (merchants (database ?w))"
    "find (ext_of ''m1'' ''x7'') (merchant_orders (database ?w)) = None"
    "id_source ?w (id_pos ?w) \<notin> o_id ` set (merchant_orders (database ?w))"
    "node_NewInvoice sample_node (rpc_log ?w) \<lparr>nip_Amount = 255, nip_Description = ''order '' @ ''x7''\<rparr> = Inr ?iv"
    by (simp_all add: sample_typed_def shop_defs ext_of_def)
  from order_is_created_once[OF hyps(1,2) _ _ hyps(3) sample_parse hyps(4-7) refl, of sample_postgres "''''"] typed
  obtain w1 ord where first: "run_state (?mint '''') ?w = (Inr (ord, ?iv), w1)"
    and later: "\<And>D fs u r v'. list_all (operation D) fs \<and> rely D u \<and> database u = database w1 \<and>
       run_state (?mint ''USD'') (run_operations fs u) = (r, v') \<Longrightarrow> rpc_log v' = rpc_log (run_operations fs u)"
    by (simp add: sample_world_def) blast
  let ?u = "w1\<lparr>schedule := schedule sample_busy\<rparr>"
  obtain r v' where second: "run_state (?mint ''USD'') (run_operations sample_operations ?u) = (r, v')" by fastforce
  have "rely sample_deps ?u" using sample_busy_rely by (simp add: rely_def)
  with later[of sample_deps sample_operations ?u r v'] sample_operations_ok second first show ?thesis by auto
qed

section \<open>From invoice to refund\<close>

text \<open>The payer the projections remember for a hash: the one of the last event that mentions it.\<close>

lemma peer_after_payments:
  assumes "filter (\<lambda>(dat, t). prd_PaymentHash dat = h) dats = hits" and "hits \<noteq> []"
  shows "\<exists>r. lookup_row pay_hash h (pay_apply P dats t) = Some r \<and> pay_peer r = nullText (prd_PayerPubkey (fst (last hits)))"
proof -
  have hits: "pay.events_at h dats = hits"
    unfolding pay.events_at_def assms(1)[symmetric] by (simp add: case_prod_unfold)
  have peer: "pay_peer (fold (\<lambda>(dat, t). payment_upd P dat t) es r) =
      (if es = [] then pay_peer r else nullText (prd_PayerPubkey (fst (last es))))" for es r
    unfolding pay.fold_upd by (simp add: case_prod_unfold payment_upd_def payment_ins_def)
  show ?thesis
    unfolding pay.lookup_apply hits using assms(2)
    by (cases hits; cases "lookup_row pay_hash h t") (auto simp: peer payment_upd_def payment_ins_def)
qed

lemma settled_order_paid:
  assumes "ord \<in> set t" and "o_status ord = ''pending''" and "o_invoice_payment_hash ord = Some h"
    and "h \<in> ipd_PaymentHash ` set dats"
  obtains dat where "dat \<in> set dats" and "ipd_PaymentHash dat = h"
    and "mark_paid (bind_ts P (ipd_SettledAt dat)) ord \<in> set (match_orders P dats t)"
proof -
  from assms(2-4) obtain dat where dat: "find (\<lambda>dat. order_matches (ipd_PaymentHash dat) ord) dats = Some dat"
    by (cases "find (\<lambda>dat. order_matches (ipd_PaymentHash dat) ord) dats") (auto simp: find_None_iff order_matches_def)
  then have "dat \<in> set dats" "ipd_PaymentHash dat = h"
    using assms(3) by (auto simp: find_Some_iff order_matches_def)
  moreover from dat have "match_order P dats ord = mark_paid (bind_ts P (ipd_SettledAt dat)) ord"
    by (simp add: match_order_eq)
  then have "mark_paid (bind_ts P (ipd_SettledAt dat)) ord \<in> set (match_orders P dats t)"
    using assms(1) by (force simp: match_orders_map)
  ultimately show ?thesis by (rule that)
qed

text \<open>C13: the life of an order across the indexer and the merchant backend. When a storable change carries
  an \<open>invoice.paid\<close> event for the hash of a pending order's invoice and \<open>payment.received\<close> events for it, on
  an undisturbed server the projector's \<open>Save\<close> commits, and the merchant can then refund the order: the
  node is asked for exactly one keysend payment, to the payer of the last received payment, and the
  order ends as \<open>refunded\<close> with the settlement time of the invoice, all else in its row unchanged.\<close>

theorem paid_order_is_refundable:
  assumes w: "quiet w" "3 \<le> schema_version (database w)" and keys: "keyed o_id (merchant_orders (database w))"
    and wf: "\<forall>e \<in> set (buf p). event_wf K P e"
    and ord: "ord \<in> set (merchant_orders (database w))" "o_status ord = ''pending''" "o_invoice_payment_hash ord = Some h"
    and settled: "h \<in> ipd_PaymentHash ` set (concat (map (invoice_data K) (buf p)))"
    and received: "filter (\<lambda>(dat, t). prd_PaymentHash dat = h) (concat (map (payment_data K) (buf p))) = hits" "hits \<noteq> []"
      "prd_PayerPubkey (fst (last hits)) = payer" "payer \<noteq> ''''"
    and parse: "ParseAmount F amountHex = (amount, None)"
    and fresh: "id_source w (id_pos w) \<notin> rf_id ` set (refunds (database w))"
    and node: "node_SendPayment N (rpc_log w) \<lparr>spp_TargetPubkey = payer, spp_Amount = amount, spp_Keysend = True\<rparr> = Inr hash"
  shows "\<exists>p' w1 ret w2 dat. run_state (Save ulid K P p seq) w = ((Committed, p'), w1) \<and>
    run_state (Refund F P N (o_merchant_id ord) (o_id ord) amountHex reason) w1 = (Inr ret, w2) \<and>
    re_FiberPaymentHash ret = hash \<and> re_Status ret = ''sent'' \<and>
    rpc_log w2 = rpc_log w @ [CallSendPayment \<lparr>spp_TargetPubkey = payer, spp_Amount = amount, spp_Keysend = True\<rparr>] \<and>
    dat \<in> set (concat (map (invoice_data K) (buf p))) \<and> ipd_PaymentHash dat = h \<and>
    lookup_row o_id (o_id ord) (merchant_orders (database w2)) =
      Some (ord\<lparr>o_status := ''refunded'', o_paid_at := Some (bind_ts P (ipd_SettledAt dat))\<rparr>)"
proof -
  let ?d = "save_effect ulid K P (buf p) seq (clock w) (database w)"
  let ?w1 = "w\<lparr>database := ?d\<rparr>"
  note tabs = save_effect_tables[OF refl, of ulid K P "buf p" seq "clock w" "database w"]
  have save: "run_state (Save ulid K P p seq) w = ((Committed, p\<lparr>buf := []\<rparr>), ?w1)"
    using run_Save[OF w(1) wf] w(2) by simp
  obtain dat where dat: "dat \<in> set (concat (map (invoice_data K) (buf p)))" "ipd_PaymentHash dat = h"
    and paid: "mark_paid (bind_ts P (ipd_SettledAt dat)) ord \<in> set (merchant_orders ?d)"
    using settled_order_paid[OF ord settled, of P] w(2) unfolding tabs(5) by auto
  let ?ord = "mark_paid (bind_ts P (ipd_SettledAt dat)) ord"
  obtain r where r: "lookup_row pay_hash h (payments ?d) = Some r" "pay_peer r = Some payer"
    using peer_after_payments[OF received(1,2), of P "payments (database w)"] received(3,4)
    by (auto simp: tabs(3) nullText_def)
  have kept: "schema_version ?d = schema_version (database w)" "refunds ?d = refunds (database w)"
    using tabs(7) by (simp_all add: untouched'_def)
  have keys': "keyed o_id (merchant_orders ?d)"
    using keys w(2) unfolding tabs(5) by (simp add: keyed_match_orders)
  have o: "o_id ?ord = o_id ord" "o_merchant_id ?ord = o_merchant_id ord" "o_status ?ord = ''paid''"
    "coalesce (o_invoice_payment_hash ?ord) '''' = h" "?ord\<lparr>o_status := ''refunded''\<rparr> =
      ord\<lparr>o_status := ''refunded'', o_paid_at := Some (bind_ts P (ipd_SettledAt dat))\<rparr>"
    using ord by (simp_all add: mark_paid_def)
  note refunded = refunded_in_update[OF keys' paid o(1)]
  have look: "lookup_row o_id (o_id ord) (update_where (\<lambda>x. o_id x = o_id ord) (\<lambda>x. x\<lparr>o_status := ''refunded''\<rparr>)
      (merchant_orders ?d)) = Some (?ord\<lparr>o_status := ''refunded''\<rparr>)"
    unfolding lookup_row_def by (rule find_keyed[OF refunded(2,1)]) (simp_all add: o(1))
  have "\<exists>ret w2. run_state (Refund F P N (o_merchant_id ord) (o_id ord) amountHex reason) ?w1 = (Inr ret, w2) \<and>
    re_FiberPaymentHash ret = hash \<and> re_Status ret = ''sent'' \<and>
    rpc_log w2 = rpc_log w @ [CallSendPayment \<lparr>spp_TargetPubkey = payer, spp_Amount = amount, spp_Keysend = True\<rparr>] \<and>
    merchant_orders (database w2) =
      update_where (\<lambda>x. o_id x = o_id ord) (\<lambda>x. x\<lparr>o_status := ''refunded''\<rparr>) (merchant_orders ?d)"
    using run_Refund[of ?w1 ?ord "o_id ord" "o_merchant_id ord" F amountHex amount r payer N hash P reason]
      w kept keys' paid o r received(4) parse fresh node
    by simp
  then obtain ret w2 where "run_state (Refund F P N (o_merchant_id ord) (o_id ord) amountHex reason) ?w1 = (Inr ret, w2)"
    "re_FiberPaymentHash ret = hash" "re_Status ret = ''sent''"
    "rpc_log w2 = rpc_log w @ [CallSendPayment \<lparr>spp_TargetPubkey = payer, spp_Amount = amount, spp_Keysend = True\<rparr>]"
    "lookup_row o_id (o_id ord) (merchant_orders (database w2)) =
      Some (ord\<lparr>o_status := ''refunded'', o_paid_at := Some (bind_ts P (ipd_SettledAt dat))\<rparr>)"
    using look o(5) by metis
  with save dat show ?thesis by blast
qed

theorem paid_order_is_refundable_witness:
  "\<exists>K p' w1 ret w2. run_state (Save (\<lambda>_. '''') K sample_postgres (Handle (Handle New sample_payment) sample_invoice) 4)
       (sample_world sample_db) = ((Committed, p'), w1) \<and>
     run_state (Refund sample_fibertypes sample_postgres sample_node (o_merchant_id sample_order) (o_id sample_order) ''0xff'' '''') w1 =
       (Inr ret, w2) \<and> re_FiberPaymentHash ret = ''h8'' \<and> length (rpc_log w2) = 1"
proof -
  let ?K = "sample_kevents\<lparr>unmarshal_PaymentReceived :=
    (\<lambda>_. Inr \<lparr>prd_PaymentHash = ''h1'', prd_Amount = 255, prd_Asset = ''CKB'', prd_PayerPubkey = ''pk''\<rparr>)\<rparr>"
  let ?p = "Handle (Handle New sample_payment) sample_invoice" and ?w = "sample_world sample_db"
  let ?hit = "(\<lparr>prd_PaymentHash = ''h1'', prd_Amount = 255, prd_Asset = ''CKB'', prd_PayerPubkey = ''pk''\<rparr>, 6000)"
  have hyps: "quiet ?w" "3 \<le> schema_version (database ?w)" "keyed o_id (merchant_orders (database ?w))"
    "\<forall>e \<in> set (buf ?p). event_wf ?K sample_postgres e"
    "sample_order \<in> set (merchant_orders (database ?w))" "o_status sample_order = ''pending''"
    "o_invoice_payment_hash sample_order = Some ''h1''"
    "''h1'' \<in> ipd_PaymentHash ` set (concat (map (invoice_data ?K) (buf ?p)))"
    "filter (\<lambda>(dat, t). prd_PaymentHash dat = ''h1'') (concat (map (payment_data ?K) (buf ?p))) = [?hit]" "[?hit :: payment_received_data \<times> time] \<noteq> []"
    "prd_PayerPubkey (fst (last [?hit :: payment_received_data \<times> time])) = ''pk''" "''pk'' \<noteq> ''''"
    by (simp_all add: Handle_def New_def keyed_def event_wf_def event_types invoice_data_def payment_data_def sample_defs)
  have rest: "id_source ?w (id_pos ?w) \<notin> rf_id ` set (refunds (database ?w))"
    "node_SendPayment sample_node (rpc_log ?w) \<lparr>spp_TargetPubkey = ''pk'', spp_Amount = 255, spp_Keysend = True\<rparr> = Inr ''h8''"
    by (simp_all add: shop_defs)
  from paid_order_is_refundable[OF hyps sample_parse rest, of "\<lambda>_. ''''" 4 "''''"] obtain p' w1 ret w2 where
    "run_state (Save (\<lambda>_. '''') ?K sample_postgres ?p 4) ?w = ((Committed, p'), w1)"
    "run_state (Refund sample_fibertypes sample_postgres sample_node (o_merchant_id sample_order) (o_id sample_order) ''0xff'' '''') w1 =
       (Inr ret, w2)" "re_FiberPaymentHash ret = ''h8''" "rpc_log w2 = rpc_log ?w @
         [CallSendPayment \<lparr>spp_TargetPubkey = ''pk'', spp_Amount = 255, spp_Keysend = True\<rparr>]" by blast
  moreover from this(4) have "length (rpc_log w2) = 1" by (simp add: sample_world_def)
  ultimately show ?thesis by blast
qed

section \<open>From event to delivered webhook\<close>

text \<open>C14: the path of an event from the node to a subscriber. When a storable change with a new event is
  saved on an undisturbed server, then for every active endpoint subscribed to its type a worker is handed, by some later
  \<open>ClaimDue\<close>, a delivery with the endpoint's url and secret, the event's id, type and JSON and no attempts: at the latest
  when the polls after the save, each of the given limit, add up to the deliveries due at the time of the save
  and the new ones (at most one per event and endpoint). Between the polls all other processes go on committing; assumed
  is only that none of them takes, marks or locks this delivery itself and that what they queue is due later
  (\<open>fair_round\<close>). When the worker then reports success, the delivery ends as \<open>succeeded\<close> with the
  first attempt in its log.\<close>

theorem saved_event_is_delivered:
  assumes w: "quiet w" "2 \<le> schema_version (database w)" "db_ok (database w)" "db_typed (database w)"
    and wf: "\<forall>e \<in> set (buf p). event_wf K P e" "distinct (map e_ID (buf p))"
    and e: "e \<in> set (buf p)" "e_ID e \<notin> ev_id ` set (events (database w))"
    and ep: "ep \<in> set (webhook_endpoints (database w))" "ep_active ep" "e_Type e \<in> set (ep_event_types ep)"
    and ids: "no_collision ulid (e_ID ` set (buf p)) (ep_id ` set (webhook_endpoints (database w)))"
      "i = delivery_id ulid (e_ID e) (ep_id ep)" "i \<notin> dl_id ` set (webhook_deliveries (database w))"
    and dl: "dl = new_delivery i (ep_id ep) (e_ID e) (ep_url ep) (ep_secret ep) (the (to_jsonb P (projr (marshal_Event K e)))) (clock w)"
    and rounds: "list_all (fair_round D dl) rs"
      "length (filter (due (clock w)) (webhook_deliveries (database w))) + length (buf p) * length (webhook_endpoints (database w))
        \<le> length rs * nat limit"
  shows "\<exists>p' w1 rs1 r rs2 out kd w2 w3 done_dl. run_state (Save ulid K P p seq) w = ((Committed, p'), w1) \<and>
    rs = rs1 @ r # rs2 \<and> run_state (poll s limit r) (polls s limit rs1 w1) = ((out, None), w2) \<and>
    kd \<in> set out \<and> kd_ID kd = i \<and> kd_EndpointID kd = ep_id ep \<and> kd_EventID kd = e_ID e \<and> kd_EventType kd = e_Type e \<and>
    kd_URL kd = ep_url ep \<and> kd_Secret kd = ep_secret ep \<and> kd_Payload kd = the (to_jsonb P (projr (marshal_Event K e))) \<and>
    kd_Attempts kd = 0 \<and> run_state (MarkSucceeded (kd_ID kd)) (w2\<lparr>clock := later\<rparr>) = (Inr (), w3) \<and>
    lookup_row dl_id i (webhook_deliveries (database w3)) = Some done_dl \<and> dl_status done_dl = ''succeeded'' \<and>
    webhook_delivery_log (database w3) = webhook_delivery_log (database w2) @ [log_attempt i None later 1]"
proof -
  let ?d = "save_effect ulid K P (buf p) seq (clock w) (database w)"
  let ?w1 = "w\<lparr>database := ?d\<rparr>"
  have save: "run_state (Save ulid K P p seq) w = ((Committed, p\<lparr>buf := []\<rparr>), ?w1)"
    using run_Save[OF w(1) wf(1)] w(2) by simp
  have ok: "db_ok ?d" "db_typed ?d"
    using wf(1) w by (auto intro!: save_effect_ok save_effect_typed simp: unprojectable_def event_wf_def)
  have mem: "dl \<in> set (webhook_deliveries ?d)"
    using new_delivery_saved[of e "buf p" K P "database w" ep ulid ?d seq "clock w"] wf e w ep ids
    by (simp add: dl db_ok_def db_keys_ok_def)
  obtain r where r: "lookup_row ev_id (e_ID e) (events ?d) = Some r" "ev_type r = e_Type e"
    using new_event_saved[OF e(1) _ wf(2) e(2) _ refl, of K P ulid seq "clock w"] wf(1) e(1) w(3)
    by (auto simp: db_ok_def db_keys_ok_def)
  have new: "dl_id dl = i" "dl_status dl = ''pending''" "dl_next_attempt_at dl = clock w" "dl_event_id dl = e_ID e" "dl_attempts dl = 0"
    by (simp_all add: dl new_delivery_def)
  have q: "queued dl r ?w1"
    using w(1,2) ok mem new lookup_row_SomeD[OF r(1)] by (simp add: queued_def)
  have "ahead_of dl ?w1 \<le> length rs * nat limit"
    using length_saved_deliveries[of "due (clock w)" ulid K P "buf p" seq "clock w" "database w"] rounds(2)
    by (simp add: ahead_of_def new)
  from polls_reach[OF q rounds(1) this, of s] obtain rs1 g now locked rs2 out kd w2 where
    claim: "rs = rs1 @ (g, now, locked) # rs2" "run_state (poll s limit (g, now, locked)) (polls s limit rs1 ?w1) = ((out, None), w2)"
      "kd \<in> set out" "hands_out dl (e_Type e) kd"
    and w2: "quiet w2" "2 \<le> schema_version (database w2)" "keyed dl_id (webhook_deliveries (database w2))"
      "lookup_row dl_id i (webhook_deliveries (database w2)) = Some (take_lease s now dl)"
    unfolding new r(2) by blast
  let ?t2 = "webhook_deliveries (database w2)"
  let ?w3 = "w2\<lparr>clock := later, database := (database w2)\<lparr>webhook_deliveries := update_where (\<lambda>x. dl_id x = i) set_succeeded ?t2,
    webhook_delivery_log := webhook_delivery_log (database w2) @ [log_attempt i None later 1]\<rparr>\<rparr>"
  have mark: "run_state (MarkSucceeded i) (w2\<lparr>clock := later\<rparr>) = (Inr (), ?w3)"
    using run_MarkSucceeded[of "w2\<lparr>clock := later\<rparr>" ?t2 i "take_lease s now dl"] w2
    by (simp add: take_lease_def new int4_max_def)
  have "lookup_row dl_id i (update_where (\<lambda>x. dl_id x = i) set_succeeded ?t2) = Some (set_succeeded (take_lease s now dl))"
    using w2(4) by (simp add: lookup_update_where set_succeeded_def new)
  with save claim mark show ?thesis
    by (intro exI[of _ "p\<lparr>buf := []\<rparr>"] exI[of _ ?w1] exI[of _ rs1] exI[of _ "(g, now, locked)"] exI[of _ rs2] exI[of _ out]
        exI[of _ kd] exI[of _ w2] exI[of _ ?w3] exI[of _ "set_succeeded (take_lease s now dl)"])
      (simp add: hands_out_def dl new_delivery_def set_succeeded_def)
qed

theorem saved_event_is_delivered_witness:
  "\<exists>p' w1 out w2 w3. run_state (Save (\<lambda>_. ''u'') sample_kevents sample_postgres (Handle New sample_invoice) 4)
       (sample_world sample_typed) = ((Committed, p'), w1) \<and>
     run_state (poll NewStore 5 (effect requeue_stmt 15000, 20000, \<lambda>_. False)) w1 = ((out, None), w2) \<and>
     (''e1'', ''https://a.test/h'', ''event e1'') \<in> (\<lambda>kd. (kd_EventID kd, kd_URL kd, kd_Payload kd)) ` set out \<and>
     run_state (MarkSucceeded (delivery_id (\<lambda>_. ''u'') ''e1'' ''ep1'')) (w2\<lparr>clock := 21000\<rparr>) = (Inr (), w3)"
proof -
  let ?p = "Handle New sample_invoice" and ?w = "sample_world sample_typed" and ?i = "delivery_id (\<lambda>_. ''u'') ''e1'' ''ep1''"
  let ?r = "(effect requeue_stmt 15000, 20000, \<lambda>_. False) :: poll_round"
  let ?dl = "new_delivery ?i (ep_id sample_endpoint) (e_ID sample_invoice) (ep_url sample_endpoint) (ep_secret sample_endpoint)
    (the (to_jsonb sample_postgres (projr (marshal_Event sample_kevents sample_invoice)))) (clock ?w)"
  have ok: "db_ok (database ?w)" "db_typed (database ?w)" using sample_busy_ok by (simp_all add: sample_busy_def sample_world_def)
  have fair: "list_all (fair_round sample_deps ?dl) [?r]"
    by (simp add: fair_round_def new_delivery_def lets_wait_sweep sample_world_def)
  have hyps: "quiet ?w" "2 \<le> schema_version (database ?w)" "\<forall>e \<in> set (buf ?p). event_wf sample_kevents sample_postgres e"
    "distinct (map e_ID (buf ?p))" "sample_invoice \<in> set (buf ?p)" "e_ID sample_invoice \<notin> ev_id ` set (events (database ?w))"
    "sample_endpoint \<in> set (webhook_endpoints (database ?w))" "ep_active sample_endpoint"
    "e_Type sample_invoice \<in> set (ep_event_types sample_endpoint)"
    "no_collision (\<lambda>_. ''u'') (e_ID ` set (buf ?p)) (ep_id ` set (webhook_endpoints (database ?w)))"
    "?i = delivery_id (\<lambda>_. ''u'') (e_ID sample_invoice) (ep_id sample_endpoint)"
    "?i \<notin> dl_id ` set (webhook_deliveries (database ?w))"
    "length (filter (due (clock ?w)) (webhook_deliveries (database ?w))) + length (buf ?p) * length (webhook_endpoints (database ?w))
      \<le> length [?r] * nat 5"
    by (simp_all add: Handle_def New_def sample_wf no_collision_def sample_world_def)
       (simp_all add: sample_typed_def sample_defs)
  from saved_event_is_delivered[OF hyps(1,2) ok hyps(3-12) refl fair hyps(13), of 4 NewStore 21000] obtain p' w1 rs1 r rs2 out w2 kd w3 where
    run: "run_state (Save (\<lambda>_. ''u'') sample_kevents sample_postgres ?p 4) ?w = ((Committed, p'), w1)" "[?r] = rs1 @ r # rs2"
    "run_state (poll NewStore 5 r) (polls NewStore 5 rs1 w1) = ((out, None), w2)" "kd \<in> set out"
    "kd_ID kd = ?i" "kd_EventID kd = e_ID sample_invoice" "kd_URL kd = ep_url sample_endpoint"
    "kd_Payload kd = the (to_jsonb sample_postgres (projr (marshal_Event sample_kevents sample_invoice)))"
    "run_state (MarkSucceeded (kd_ID kd)) (w2\<lparr>clock := 21000\<rparr>) = (Inr (), w3)" by blast
  from run(2) have one: "r = ?r" "rs1 = []" by (simp_all add: Cons_eq_append_conv)
  have "run_state (poll NewStore 5 ?r) w1 = ((out, None), w2)" using run(3) unfolding one by (simp add: polls_def)
  moreover from run(6-8) have "(kd_EventID kd, kd_URL kd, kd_Payload kd) = (''e1'', ''https://a.test/h'', ''event e1'')"
    by (simp add: sample_defs)
  ultimately show ?thesis using run(1,4,5,9) by (intro exI conjI) (auto intro: rev_image_eqI)
qed

end
